(* ===== verification/Prelude.thy ===== *)
theory Prelude
  imports Main "HOL-Library.Word" "HOL-Library.Multiset"
begin

text \<open>
  Shared vocabulary of the development: the C and JNI integer types of
  \<open>com_android_nfc_NativeLlcpServiceSocket.cpp\<close> as machine words, the status codes of
  the NFC library, addresses of the C store, the named collection \<open>nfc_simps\<close> into
  which every component puts the equations the others compute with, and generic facts
  on maps and words that several components share.
\<close>

section \<open>Machine types\<close>

text \<open>
  \<open>jint\<close> is the JNI 32-bit signed integer, read with \<open>sint\<close>. \<open>NFCSTATUS\<close> is the
  16-bit status code of the NFC library. \<open>phLibNfc_Handle\<close> is the 32-bit socket handle
  of the LLCP stack. \<open>size_t\<close> is 32 bits wide: the library was built for 32-bit ARM
  targets, where \<open>int\<close> and \<open>size_t\<close> have the same width.
\<close>

type_synonym jint = "32 word"
type_synonym NFCSTATUS = "16 word"
type_synonym phLibNfc_Handle = "32 word"
type_synonym size_t = "32 word"
type_synonym uint8_t = "8 word"
type_synonym uint16_t = "16 word"

text \<open>Addresses of the C store (stack frames and \<open>malloc\<close> blocks) and Java object
  references are abstract numbers; thread identifiers name the caller threads.\<close>

type_synonym ptr = nat
type_synonym jobject = nat
type_synonym tid = nat

section \<open>Status codes\<close>

definition NFCSTATUS_SUCCESS :: NFCSTATUS where
  "NFCSTATUS_SUCCESS = 0x0000"

definition NFCSTATUS_INVALID_PARAMETER :: NFCSTATUS where
  "NFCSTATUS_INVALID_PARAMETER = 0x0001"

definition NFCSTATUS_PENDING :: NFCSTATUS where
  "NFCSTATUS_PENDING = 0x000D"

definition NFCSTATUS_FAILED :: NFCSTATUS where
  "NFCSTATUS_FAILED = 0x00FF"

named_theorems nfc_simps "equations of the model that the components compute with"

lemmas status_defs [nfc_simps] =
  NFCSTATUS_SUCCESS_def NFCSTATUS_INVALID_PARAMETER_def NFCSTATUS_PENDING_def NFCSTATUS_FAILED_def

lemma status_distinct [simp]:
  "NFCSTATUS_SUCCESS \<noteq> NFCSTATUS_PENDING" "NFCSTATUS_PENDING \<noteq> NFCSTATUS_SUCCESS"
  "NFCSTATUS_FAILED \<noteq> NFCSTATUS_SUCCESS" "NFCSTATUS_FAILED \<noteq> NFCSTATUS_PENDING"
  "NFCSTATUS_INVALID_PARAMETER \<noteq> NFCSTATUS_SUCCESS"
  "NFCSTATUS_INVALID_PARAMETER \<noteq> NFCSTATUS_PENDING"
  by (simp_all add: status_defs)

section \<open>Maps\<close>

text \<open>Removing the \<open>i\<close>-th element of a queue removes one occurrence of its image.\<close>

lemma mset_map_remove_nth:
  assumes "i < length xs"
  shows "add_mset (f (xs ! i)) (mset (map f (take i xs @ drop (Suc i) xs))) = mset (map f xs)"
proof -
  have "mset (map f xs) = mset (map f (take i xs @ xs ! i # drop (Suc i) xs))"
    using id_take_nth_drop [OF assms] by (rule arg_cong)
  then show ?thesis by simp
qed

text \<open>Association lists whose key \<open>p\<close> occurs at most once: updating or removing the
  entry of \<open>p\<close> by its index touches no other key.\<close>

lemma nth_in_removed:
  assumes "i < length xs" and "i \<noteq> j"
  shows "xs ! i \<in> set (take j xs @ drop (Suc j) xs)"
proof (cases "i < j")
  case True
  with assms(1) have "take j xs ! i = xs ! i" "i < length (take j xs)" by simp_all
  then show ?thesis by (metis UnI1 nth_mem set_append)
next
  case False
  with assms(2) have ij: "j < i" by simp
  with assms(1) have "drop (Suc j) xs ! (i - Suc j) = xs ! i" "i - Suc j < length (drop (Suc j) xs)" by simp_all
  then show ?thesis by (metis UnI2 nth_mem set_append)
qed

lemma count_fst_le1_unique:
  assumes "count (mset (map fst xs)) p \<le> 1" and "i < length xs" and "j < length xs"
    and "fst (xs ! i) = p" and "fst (xs ! j) = p"
  shows "i = j"
proof (rule ccontr)
  assume ne: "i \<noteq> j"
  let ?r = "take j xs @ drop (Suc j) xs"
  have eq: "add_mset p (mset (map fst ?r)) = mset (map fst xs)"
    using mset_map_remove_nth [OF assms(3), of fst] assms(5) by simp
  from nth_in_removed [OF assms(2) ne] assms(4) have "p \<in> set (map fst ?r)" by force
  then have A: "\<not> count (mset (map fst ?r)) p = 0" unfolding count_mset_0_iff by simp
  have B: "count (mset (map fst xs)) p = Suc (count (mset (map fst ?r)) p)"
    unfolding eq [symmetric] by (simp only: count_add_mset) simp
  from A B assms(1) show False by linarith
qed

lemma set_update_fst_unique:
  assumes "count (mset (map fst xs)) p \<le> 1" and "j < length xs" and "fst (xs ! j) = p"
  shows "(q, b) \<in> set (xs[j := (p, c)]) \<longleftrightarrow> (if q = p then b = c else (q, b) \<in> set xs)"
proof
  assume "(q, b) \<in> set (xs[j := (p, c)])"
  then obtain k where k: "k < length xs" "(xs[j := (p, c)]) ! k = (q, b)"
    unfolding in_set_conv_nth by auto
  show "if q = p then b = c else (q, b) \<in> set xs"
  proof (cases "k = j")
    case True
    with k assms(2) show ?thesis by simp
  next
    case False
    with k have xk: "xs ! k = (q, b)" by simp
    have "q \<noteq> p"
    proof
      assume "q = p"
      with xk have "fst (xs ! k) = p" by simp
      from count_fst_le1_unique [OF assms(1) k(1) assms(2) this assms(3)] False show False by simp
    qed
    with xk k(1) show ?thesis by (metis nth_mem)
  qed
next
  assume r: "if q = p then b = c else (q, b) \<in> set xs"
  show "(q, b) \<in> set (xs[j := (p, c)])"
  proof (cases "q = p")
    case True
    with r set_update_memI [OF assms(2), of "(p, c)"] show ?thesis by simp
  next
    case False
    with r obtain k where k: "k < length xs" "xs ! k = (q, b)" unfolding in_set_conv_nth by auto
    with False assms(3) have "k \<noteq> j" by auto
    with k have "(xs[j := (p, c)]) ! k = (q, b)" "k < length (xs[j := (p, c)])" by simp_all
    then show ?thesis by (metis nth_mem)
  qed
qed

lemma set_remove_fst_unique:
  assumes "count (mset (map fst xs)) p \<le> 1" and "j < length xs" and "fst (xs ! j) = p"
  shows "(q, b) \<in> set (take j xs @ drop (Suc j) xs) \<longleftrightarrow> q \<noteq> p \<and> (q, b) \<in> set xs"
proof -
  let ?r = "take j xs @ drop (Suc j) xs"
  have eq: "add_mset p (mset (map fst ?r)) = mset (map fst xs)"
    using mset_map_remove_nth [OF assms(2), of fst] assms(3) by simp
  have B: "count (mset (map fst xs)) p = Suc (count (mset (map fst ?r)) p)"
    unfolding eq [symmetric] by (simp only: count_add_mset) simp
  with assms(1) have "count (mset (map fst ?r)) p = 0" by linarith
  then have "p \<notin> set (map fst ?r)" using count_mset_0_iff [of "map fst ?r" p] by blast
  then have np: "(p, b') \<notin> set ?r" for b' by force
  from id_take_nth_drop [OF assms(2)] have "set xs = set (take j xs @ xs ! j # drop (Suc j) xs)"
    by (rule arg_cong)
  then have mem: "(q, b) \<in> set xs \<longleftrightarrow> (q, b) = xs ! j \<or> (q, b) \<in> set ?r" by auto
  show ?thesis
  proof (cases "q = p")
    case True
    with np show ?thesis by simp
  next
    case False
    have "(q, b) \<noteq> xs ! j"
    proof
      assume "(q, b) = xs ! j"
      then have "fst (xs ! j) = q" by (metis fst_conv)
      with False assms(3) show False by simp
    qed
    with False mem show ?thesis by simp
  qed
qed

lemma map_fst_update_same:
  assumes "j < length xs" and "fst (xs ! j) = p"
  shows "map fst (xs[j := (p, c)]) = map fst xs"
proof -
  have "(map fst xs)[j := p] = map fst xs"
    using list_update_id [of "map fst xs" j] assms by simp
  then show ?thesis by (simp add: map_update)
qed

section \<open>Words\<close>

text \<open>Reading a 32-bit sum back as a mathematical integer: exact below the width.\<close>

text \<open>Removing one element from a multiset that lacks \<open>p\<close> leaves one that lacks it.\<close>

lemma count_zero_add_mset: "add_mset x N = M \<Longrightarrow> count M p = 0 \<Longrightarrow> x \<noteq> p \<and> count N p = 0"
  by (auto split: if_splits)

text \<open>A bump allocator keeps its blocks exactly the addresses below its top.\<close>

lemma dom_bump: "dom h = {..<n} \<Longrightarrow> dom (h(n \<mapsto> v)) = {..<Suc n}"
  by (auto simp: lessThan_Suc)

lemma sint_sum_exact:
  fixes a b :: "32 word"
  assumes "- (2 ^ 31) \<le> sint a + sint b" and "sint a + sint b < 2 ^ 31"
  shows "sint (a + b) = sint a + sint b"
  using assms by (simp add: sint_word_ariths signed_take_bit_int_eq_self)

lemma sint_prod_exact:
  fixes a b :: "32 word"
  assumes "- (2 ^ 31) \<le> sint a * sint b" and "sint a * sint b < 2 ^ 31"
  shows "sint (a * b) = sint a * sint b"
  using assms by (simp add: sint_word_ariths signed_take_bit_int_eq_self)

end
