(* ===== verification/Semaphore.thy ===== *)
theory Semaphore
  imports Prelude
begin

text \<open>
  The POSIX counting semaphore (\<open>sem_t\<close>) as the code uses it: \<open>sem_init\<close>,
  \<open>sem_post\<close>, \<open>sem_wait\<close> and \<open>sem_destroy\<close>. Two semaphores of the program are of this
  type: the process-wide listen gate \<open>nfc_jni_llcp_listen_sem\<close> and the per-call
  semaphore inside \<open>nfc_jni_callback_data\<close>. \<open>sem_wait\<close> either takes a unit at once,
  blocks while the count is zero, or, if a signal interrupts the blocked thread, returns
  -1 with \<open>EINTR\<close>; the interrupt is an argument of the model, chosen by the environment.
\<close>

record sem_t =
  sem_count :: nat
  sem_live :: bool

text \<open>The three outcomes of one \<open>sem_wait\<close> call.\<close>

datatype sem_wait_result =
  SemAcquired sem_t
  | SemInterrupted
  | SemBlocks

definition sem_init :: "bool \<Rightarrow> nat \<Rightarrow> sem_t option" where
  "sem_init ok v = (if ok then Some \<lparr>sem_count = v, sem_live = True\<rparr> else None)"

definition sem_post :: "sem_t \<Rightarrow> sem_t" where
  "sem_post s = s\<lparr>sem_count := Suc (sem_count s)\<rparr>"

definition sem_wait :: "bool \<Rightarrow> sem_t \<Rightarrow> sem_wait_result" where
  "sem_wait intr s =
     (if 0 < sem_count s then SemAcquired (s\<lparr>sem_count := sem_count s - 1\<rparr>)
      else if intr then SemInterrupted else SemBlocks)"

definition sem_destroy :: "sem_t \<Rightarrow> sem_t" where
  "sem_destroy s = s\<lparr>sem_live := False\<rparr>"

text \<open>The value \<open>sem_wait\<close> returns to its caller when it returns at all.\<close>

fun sem_wait_rc :: "sem_wait_result \<Rightarrow> int option" where
  "sem_wait_rc (SemAcquired _) = Some 0"
| "sem_wait_rc SemInterrupted = Some (-1)"
| "sem_wait_rc SemBlocks = None"

lemmas sem_defs [nfc_simps] = sem_init_def sem_post_def sem_wait_def sem_destroy_def

section \<open>Behaviour of one call\<close>

lemma sem_wait_cases:
  obtains (acquired) "0 < sem_count s" "sem_wait intr s = SemAcquired (s\<lparr>sem_count := sem_count s - 1\<rparr>)"
  | (interrupted) "sem_count s = 0" "intr" "sem_wait intr s = SemInterrupted"
  | (blocks) "sem_count s = 0" "\<not> intr" "sem_wait intr s = SemBlocks"
  by (cases "0 < sem_count s"; cases intr) (auto simp: sem_wait_def)

lemma sem_wait_acquired_iff:
  "(\<exists>s'. sem_wait intr s = SemAcquired s') \<longleftrightarrow> 0 < sem_count s"
  by (simp add: sem_wait_def)

lemma sem_wait_acquired_count:
  "sem_wait intr s = SemAcquired s' \<Longrightarrow> Suc (sem_count s') = sem_count s \<and> sem_live s' = sem_live s"
  by (auto simp: sem_wait_def split: if_splits)

lemma sem_post_count [simp]: "sem_count (sem_post s) = Suc (sem_count s)"
  and sem_post_live [simp]: "sem_live (sem_post s) = sem_live s"
  by (simp_all add: sem_post_def)

lemma sem_destroy_count [simp]: "sem_count (sem_destroy s) = sem_count s"
  and sem_destroy_live [simp]: "sem_live (sem_destroy s) = False"
  by (simp_all add: sem_destroy_def)

lemma sem_init_Some:
  "sem_init ok v = Some s \<longleftrightarrow> ok \<and> s = \<lparr>sem_count = v, sem_live = True\<rparr>"
  by (auto simp: sem_init_def)

lemma sem_wait_post [simp]:
  "sem_wait intr (sem_post s) = SemAcquired s"
  by (simp add: sem_wait_def sem_post_def)

text \<open>A semaphore never returns to a caller that waits on a zero count and is not
  interrupted: \<open>sem_wait\<close> blocks exactly then.\<close>

lemma sem_wait_blocks_iff:
  "sem_wait intr s = SemBlocks \<longleftrightarrow> sem_count s = 0 \<and> \<not> intr"
  by (simp add: sem_wait_def)

lemma sem_wait_rc_acquired:
  "sem_wait_rc (sem_wait intr s) = Some 0 \<longleftrightarrow> 0 < sem_count s"
  by (simp add: sem_wait_def)

end
