(* ===== verification/CallbackData.thy ===== *)
theory CallbackData
  imports Semaphore
begin

text \<open>
  The completion context of one accept call: \<open>struct nfc_jni_callback_data\<close>, a
  semaphore and a status slot, which \<open>doAccept\<close> keeps in its own stack frame
  (\<open>cb_data\<close>, line 55) and hands to the transport by address. Its constructor and
  destructor \<open>nfc_cb_data_init\<close> and \<open>nfc_cb_data_deinit\<close> live in the JNI helper file,
  outside this source tree, and are modelled from the specification: a fresh context has
  an unset signal and an undefined status, and initialisation can fail when the
  semaphore cannot be created. The accept callback
  \<open>nfc_jni_llcp_accept_socket_callback\<close> (lines 31--40) is a body of two statements,
  kept as a list so that the transport thread can run them one at a time, interleaved
  with the waiting caller.
\<close>

record nfc_jni_callback_data =
  cb_sem :: sem_t
  cb_status :: "NFCSTATUS option"

text \<open>The stack slot before \<open>nfc_cb_data_init\<close> runs: no semaphore, no status.\<close>

definition cb_data_uninit :: nfc_jni_callback_data where
  "cb_data_uninit = \<lparr>cb_sem = \<lparr>sem_count = 0, sem_live = False\<rparr>, cb_status = None\<rparr>"

definition nfc_cb_data_init :: "bool \<Rightarrow> nfc_jni_callback_data \<Rightarrow> nfc_jni_callback_data option" where
  "nfc_cb_data_init ok d =
     (case sem_init ok 0 of
        None \<Rightarrow> None
      | Some sm \<Rightarrow> Some (d\<lparr>cb_sem := sm, cb_status := None\<rparr>))"

definition nfc_cb_data_deinit :: "nfc_jni_callback_data \<Rightarrow> nfc_jni_callback_data" where
  "nfc_cb_data_deinit d = d\<lparr>cb_sem := sem_destroy (cb_sem d)\<rparr>"

section \<open>The accept callback\<close>

text \<open>The statements of the callback body: store the status (line 38), post the
  semaphore (line 39).\<close>

datatype cb_stmt = SetStatus NFCSTATUS | PostSem

fun cb_exec :: "cb_stmt \<Rightarrow> nfc_jni_callback_data \<Rightarrow> nfc_jni_callback_data" where
  "cb_exec (SetStatus st) d = d\<lparr>cb_status := Some st\<rparr>"
| "cb_exec PostSem d = d\<lparr>cb_sem := sem_post (cb_sem d)\<rparr>"

definition nfc_jni_llcp_accept_socket_callback :: "NFCSTATUS \<Rightarrow> cb_stmt list" where
  "nfc_jni_llcp_accept_socket_callback status = [SetStatus status, PostSem]"

text \<open>Running a callback body on a context, statement by statement.\<close>

definition cb_run :: "cb_stmt list \<Rightarrow> nfc_jni_callback_data \<Rightarrow> nfc_jni_callback_data" where
  "cb_run body d = fold cb_exec body d"

section \<open>The transport error callback\<close>

text \<open>\<open>nfc_jni_llcp_transport_socket_err_callback\<close> (declared at lines 26--27, defined
  outside this file, passed at line 83) is the transport's other outcome of an accept:
  the specification makes it and the accept callback mutually exclusive and binds the
  completion context's signal to the accept callback alone (section 4.2). The error
  callback is shared by all LLCP sockets and is given no effect on the completion
  context: its body, run through the context pointer, has no statement.\<close>

definition nfc_jni_llcp_transport_socket_err_callback :: "uint8_t \<Rightarrow> cb_stmt list" where
  "nfc_jni_llcp_transport_socket_err_callback nErrCode = []"

lemmas callback_defs [nfc_simps] =
  cb_data_uninit_def nfc_cb_data_init_def nfc_cb_data_deinit_def
  nfc_jni_llcp_accept_socket_callback_def cb_run_def nfc_jni_llcp_transport_socket_err_callback_def

section \<open>Lemmas\<close>

lemma nfc_cb_data_init_Some:
  "nfc_cb_data_init ok d = Some d' \<longleftrightarrow>
     ok \<and> d' = d\<lparr>cb_sem := \<lparr>sem_count = 0, sem_live = True\<rparr>, cb_status := None\<rparr>"
  by (auto simp: nfc_cb_data_init_def sem_init_def)

lemma nfc_cb_data_init_None:
  "nfc_cb_data_init ok d = None \<longleftrightarrow> \<not> ok"
  by (simp add: nfc_cb_data_init_def sem_init_def)

lemma nfc_cb_data_deinit_status [simp]:
  "cb_status (nfc_cb_data_deinit d) = cb_status d"
  and nfc_cb_data_deinit_live [simp]: "sem_live (cb_sem (nfc_cb_data_deinit d)) = False"
  and nfc_cb_data_deinit_count [simp]: "sem_count (cb_sem (nfc_cb_data_deinit d)) = sem_count (cb_sem d)"
  by (simp_all add: nfc_cb_data_deinit_def)

lemma cb_exec_live [simp]: "sem_live (cb_sem (cb_exec c d)) = sem_live (cb_sem d)"
  by (cases c) simp_all

lemma cb_exec_count:
  "sem_count (cb_sem (cb_exec c d)) = (if c = PostSem then Suc (sem_count (cb_sem d)) else sem_count (cb_sem d))"
  by (cases c) simp_all

text \<open>The callback bodies the transport runs post the semaphore exactly once.\<close>

lemma cb_run_posts_once:
  "body = [PostSem] \<or> (\<exists>st. body = [SetStatus st, PostSem]) \<Longrightarrow>
   sem_count (cb_sem (cb_run body d)) = Suc (sem_count (cb_sem d))"
  by (auto simp: cb_run_def sem_post_def)

end
