(* ===== verification/Transport.thy ===== *)
theory Transport
  imports Prelude
begin

text \<open>
  The LLCP transport of the NFC library, as far as the service socket uses it: the
  interface \<open>phLibNfc_Llcp_Accept\<close>, the completion it later reports, the arrival of an
  incoming connection, and \<open>phLibNfc_Llcp_Close\<close>. The library is not part of this
  source tree; its contract is taken from the specification (section 6): an accept
  request answers at once with either ``pending'' or an error code; after ``pending''
  the completion callback fires exactly once, later, on the transport's own thread,
  with the context pointer it was given; after an error nothing fires. Close is
  synchronous and reports failure for a handle that is not open. The library's choice
  of reply and of completion status is an argument of each operation.
\<close>

text \<open>\<open>phLibNfc_Llcp_sSocketOptions_t\<close>: the library declares \<open>miu\<close> as \<open>uint16_t\<close>
  and \<open>rw\<close> as \<open>uint8_t\<close>, so the jint arguments stored into it at lines 70--71 are
  truncated.\<close>

record llcp_sock_opts =
  opt_miu :: uint16_t
  opt_rw :: uint8_t

text \<open>An accept request the transport has answered ``pending'' and not completed yet:
  the incoming socket, the options, the working buffer (\<open>None\<close> for a NULL pointer),
  its length and the context the callback will receive.\<close>

record llcp_accept_op =
  acc_socket :: phLibNfc_Handle
  acc_opts :: llcp_sock_opts
  acc_buf :: "ptr option"
  acc_len :: size_t
  acc_ctx :: ptr

record llcp_transport =
  llcp_pending :: "llcp_accept_op list"
  llcp_sockets :: "phLibNfc_Handle set"
  llcp_conn_buf :: "phLibNfc_Handle \<rightharpoonup> ptr option"

definition phLibNfc_Llcp_Accept ::
  "NFCSTATUS \<Rightarrow> phLibNfc_Handle \<Rightarrow> llcp_sock_opts \<Rightarrow> ptr option \<Rightarrow> size_t \<Rightarrow> ptr
   \<Rightarrow> llcp_transport \<Rightarrow> NFCSTATUS \<times> llcp_transport" where
  "phLibNfc_Llcp_Accept reply h opts buf len ctx tr =
     (if reply = NFCSTATUS_PENDING
      then (reply, tr\<lparr>llcp_pending := llcp_pending tr @
              [\<lparr>acc_socket = h, acc_opts = opts, acc_buf = buf, acc_len = len, acc_ctx = ctx\<rparr>]\<rparr>)
      else (reply, tr))"

text \<open>The transport completes the \<open>i\<close>-th pending request with a status: the request
  leaves the queue; on success the socket is connected and keeps the working buffer.
  The result is the request, whose context the callback is then run on.\<close>

definition llcp_complete ::
  "nat \<Rightarrow> NFCSTATUS \<Rightarrow> llcp_transport \<Rightarrow> (llcp_accept_op \<times> llcp_transport) option" where
  "llcp_complete i status tr =
     (if i < length (llcp_pending tr)
      then (let op = llcp_pending tr ! i;
                tr' = tr\<lparr>llcp_pending := take i (llcp_pending tr) @ drop (Suc i) (llcp_pending tr)\<rparr>
            in Some (op,
                 if status = NFCSTATUS_SUCCESS
                 then tr'\<lparr>llcp_conn_buf := (llcp_conn_buf tr')(acc_socket op \<mapsto> acc_buf op)\<rparr>
                 else tr'))
      else None)"

text \<open>The transport gives up the \<open>i\<close>-th pending request with an error: the request
  leaves the queue and the socket is not connected; the error callback runs on its
  context instead of the accept callback.\<close>

definition llcp_abort :: "nat \<Rightarrow> llcp_transport \<Rightarrow> (llcp_accept_op \<times> llcp_transport) option" where
  "llcp_abort i tr =
     (if i < length (llcp_pending tr)
      then Some (llcp_pending tr ! i, tr\<lparr>llcp_pending := take i (llcp_pending tr) @ drop (Suc i) (llcp_pending tr)\<rparr>)
      else None)"

text \<open>An incoming connection: its socket now exists in the stack.\<close>

definition llcp_incoming :: "phLibNfc_Handle \<Rightarrow> llcp_transport \<Rightarrow> llcp_transport" where
  "llcp_incoming h tr = tr\<lparr>llcp_sockets := insert h (llcp_sockets tr)\<rparr>"

definition phLibNfc_Llcp_Close :: "phLibNfc_Handle \<Rightarrow> llcp_transport \<Rightarrow> NFCSTATUS \<times> llcp_transport" where
  "phLibNfc_Llcp_Close h tr =
     (if h \<in> llcp_sockets tr
      then (NFCSTATUS_SUCCESS, tr\<lparr>llcp_sockets := llcp_sockets tr - {h},
                                  llcp_conn_buf := (llcp_conn_buf tr)(h := None)\<rparr>)
      else (NFCSTATUS_INVALID_PARAMETER, tr))"

lemmas transport_defs [nfc_simps] =
  phLibNfc_Llcp_Accept_def llcp_complete_def llcp_abort_def llcp_incoming_def phLibNfc_Llcp_Close_def

section \<open>Lemmas\<close>

text \<open>The contexts of the requests still to be completed, as a multiset: each pending
  request fires its callback once, so a context with multiplicity two would be
  signalled twice.\<close>

definition pending_ctxs :: "llcp_transport \<Rightarrow> ptr multiset" where
  "pending_ctxs tr = mset (map acc_ctx (llcp_pending tr))"

lemma accept_pending_ctxs:
  "phLibNfc_Llcp_Accept reply h opts buf len ctx tr = (ret, tr') \<Longrightarrow>
   pending_ctxs tr' = (if ret = NFCSTATUS_PENDING then add_mset ctx (pending_ctxs tr) else pending_ctxs tr)"
  by (auto simp: phLibNfc_Llcp_Accept_def pending_ctxs_def split: if_splits)

lemma accept_ret:
  "fst (phLibNfc_Llcp_Accept reply h opts buf len ctx tr) = reply"
  by (simp add: phLibNfc_Llcp_Accept_def)

lemma accept_sockets [simp]:
  "llcp_sockets (snd (phLibNfc_Llcp_Accept reply h opts buf len ctx tr)) = llcp_sockets tr"
  by (simp add: phLibNfc_Llcp_Accept_def)

lemma complete_pending_ctxs:
  "llcp_complete i status tr = Some (op, tr') \<Longrightarrow>
   add_mset (acc_ctx op) (pending_ctxs tr') = pending_ctxs tr \<and> op \<in> set (llcp_pending tr)"
  using mset_map_remove_nth [of i "llcp_pending tr" acc_ctx]
  by (auto simp: llcp_complete_def pending_ctxs_def Let_def simp del: mset_map split: if_splits)

lemma abort_pending_ctxs:
  "llcp_abort i tr = Some (op, tr') \<Longrightarrow>
   add_mset (acc_ctx op) (pending_ctxs tr') = pending_ctxs tr \<and> op \<in> set (llcp_pending tr)"
  using mset_map_remove_nth [of i "llcp_pending tr" acc_ctx]
  by (auto simp: llcp_abort_def pending_ctxs_def simp del: mset_map split: if_splits)

lemma complete_sockets [simp]:
  "llcp_complete i status tr = Some (op, tr') \<Longrightarrow> llcp_sockets tr' = llcp_sockets tr"
  by (auto simp: llcp_complete_def Let_def split: if_splits)

lemma complete_Some_iff:
  "(\<exists>r. llcp_complete i status tr = Some r) \<longleftrightarrow> i < length (llcp_pending tr)"
  by (simp add: llcp_complete_def Let_def)

lemma close_ret:
  "fst (phLibNfc_Llcp_Close h tr) = NFCSTATUS_SUCCESS \<longleftrightarrow> h \<in> llcp_sockets tr"
  by (simp add: phLibNfc_Llcp_Close_def)

lemma close_removes [simp]:
  "llcp_sockets (snd (phLibNfc_Llcp_Close h tr)) = llcp_sockets tr - {h}"
  by (simp add: phLibNfc_Llcp_Close_def)

lemma close_pending [simp]:
  "llcp_pending (snd (phLibNfc_Llcp_Close h tr)) = llcp_pending tr"
  by (simp add: phLibNfc_Llcp_Close_def)

lemma incoming_pending [simp]:
  "llcp_pending (llcp_incoming h tr) = llcp_pending tr"
  by (simp add: llcp_incoming_def)

end
