(* ===== verification/ServiceSocket.thy ===== *)
theory ServiceSocket
  imports CallbackData Transport
begin

text \<open>
  The two JNI methods of \<open>com_android_nfc_NativeLlcpServiceSocket.cpp\<close>:
  \<open>com_NativeLlcpServiceSocket_doAccept\<close> (lines 46--138) and
  \<open>com_NativeLlcpServiceSocket_doClose\<close> (lines 140--162), over the process state they
  share: the listen semaphore and the incoming-socket handle (globals declared at
  lines 24--25), the reentrance lock, the C store (stack slots of the calls' completion
  contexts and \<open>malloc\<close> blocks), the LLCP transport and the Java heap.

  \<open>doAccept\<close> blocks twice, at \<open>sem_wait\<close> on the listen gate (line 58) and at
  \<open>sem_wait\<close> on its own completion context (line 95). It is modelled as a thread with
  a program counter at these points: \<open>doAccept_enter\<close> pushes the frame,
  \<open>doAccept_wait_listen\<close> runs from line 58 to the next blocking point or the return,
  and \<open>doAccept_wait_callback\<close> runs from line 95 to the return. Between two blocking
  points the thread only touches its own frame, the heap it allocates and the transport
  under the reentrance lock, so such a stretch runs as one step; the only shared data
  it reads there are the globals, and it reads them at the line where the code does.
  An arrival between line 58 and the read of the handle at line 80 is therefore not
  interleaved; it would only make the request name a later handle, the race the
  theorems on the handle slot in \<open>System\<close> already exhibit at line 123.

  The environment's choices are one record per step: whether a signal interrupts a
  blocked \<open>sem_wait\<close>, whether the semaphore can be created, whether \<open>malloc\<close>
  succeeds, the transport's immediate reply, and whether the JNI calls succeed.
\<close>

section \<open>Java objects\<close>

datatype java_class = NativeLlcpSocket | NativeLlcpServiceSocket

text \<open>The integer fields the code reads and writes; Java initialises them to 0.\<close>

record jobj =
  jclass :: java_class
  mHandle :: jint
  mLocalMiu :: jint
  mLocalRw :: jint

section \<open>Process state\<close>

text \<open>The \<open>malloc\<close> heap and the Java heap allocate at the next unused address,
  \<open>heap_top\<close> and \<open>jheap_top\<close>. Two ghost counters: \<open>leaked_sems\<close>, the number of stack
  frames that were popped while their semaphore was still initialised (never passed to
  \<open>sem_destroy\<close>), and \<open>listen_passed\<close>, the number of \<open>doAccept\<close> calls that went
  on from the listen gate to line 63.\<close>

record nfc_state =
  listen_sem :: sem_t
  hIncommingLlcpSocket :: phLibNfc_Handle
  reentrance_locked :: bool
  frames :: "ptr \<rightharpoonup> nfc_jni_callback_data"
  heap :: "ptr \<rightharpoonup> size_t"
  heap_top :: ptr
  llcp :: llcp_transport
  jheap :: "jobject \<rightharpoonup> jobj"
  jheap_top :: jobject
  leaked_sems :: nat
  listen_passed :: nat

record accept_env =
  env_intr :: bool
  env_sem_init :: bool
  env_malloc :: bool
  env_reply :: NFCSTATUS
  env_cache_ok :: bool
  env_exception :: bool

text \<open>The environment in which every primitive succeeds, no signal interrupts a wait and
  the transport answers ``pending''.\<close>

definition env_nominal :: accept_env where
  "env_nominal = \<lparr>env_intr = False, env_sem_init = True, env_malloc = True,
     env_reply = NFCSTATUS_PENDING, env_cache_ok = True, env_exception = False\<rparr>"

text \<open>Where a \<open>doAccept\<close> thread is: outside the method, blocked at line 58, blocked
  at line 95 (with the locals it still needs: the frame of \<open>cb_data\<close>, the working buffer,
  \<open>miu\<close> and \<open>rw\<close>), or returned with \<open>clientSocket\<close> and whether a Java exception is
  pending.\<close>

datatype accept_pc =
  Idle
  | AtListenWait ptr jint jint jint
  | AtCallbackWait ptr "ptr option" jint jint
  | Returned "jobject option" bool

section \<open>Primitives the code calls\<close>

definition frame_of :: "'a nfc_state_scheme \<Rightarrow> ptr \<Rightarrow> nfc_jni_callback_data" where
  "frame_of s p = (case frames s p of Some d \<Rightarrow> d | None \<Rightarrow> cb_data_uninit)"

definition set_frame :: "ptr \<Rightarrow> nfc_jni_callback_data \<Rightarrow> 'a nfc_state_scheme \<Rightarrow> 'a nfc_state_scheme" where
  "set_frame p d s = s\<lparr>frames := (frames s)(p \<mapsto> d)\<rparr>"

definition malloc :: "bool \<Rightarrow> size_t \<Rightarrow> 'a nfc_state_scheme \<Rightarrow> ptr option \<times> 'a nfc_state_scheme" where
  "malloc ok n s =
     (if ok then (Some (heap_top s), s\<lparr>heap := (heap s)(heap_top s \<mapsto> n), heap_top := Suc (heap_top s)\<rparr>)
      else (None, s))"

definition REENTRANCE_LOCK :: "'a nfc_state_scheme \<Rightarrow> 'a nfc_state_scheme" where
  "REENTRANCE_LOCK s = s\<lparr>reentrance_locked := True\<rparr>"

definition REENTRANCE_UNLOCK :: "'a nfc_state_scheme \<Rightarrow> 'a nfc_state_scheme" where
  "REENTRANCE_UNLOCK s = s\<lparr>reentrance_locked := False\<rparr>"

text \<open>\<open>nfc_jni_cache_object\<close>: a new \<open>NativeLlcpSocket\<close> object with its fields at 0.\<close>

definition nfc_jni_cache_object :: "'a nfc_state_scheme \<Rightarrow> jobject \<times> 'a nfc_state_scheme" where
  "nfc_jni_cache_object s =
     (let jo = jheap_top s
      in (jo, s\<lparr>jheap := (jheap s)(jo \<mapsto> \<lparr>jclass = NativeLlcpSocket, mHandle = 0, mLocalMiu = 0, mLocalRw = 0\<rparr>),
                 jheap_top := Suc jo\<rparr>))"

definition SetIntField :: "jobject \<Rightarrow> (jobj \<Rightarrow> jobj) \<Rightarrow> 'a nfc_state_scheme \<Rightarrow> 'a nfc_state_scheme" where
  "SetIntField jo upd s = s\<lparr>jheap := (jheap s)(jo := map_option upd (jheap s jo))\<rparr>"

definition nfc_jni_get_nfc_socket_handle :: "jobj \<Rightarrow> phLibNfc_Handle" where
  "nfc_jni_get_nfc_socket_handle obj = ucast (mHandle obj)"

section \<open>doAccept\<close>

text \<open>The working buffer length of lines 74--75, in \<open>jint\<close> arithmetic (it wraps at 32
  bits), converted to \<open>size_t\<close> for \<open>malloc\<close> and the buffer's \<open>length\<close>.\<close>

definition working_buffer_length :: "jint \<Rightarrow> jint \<Rightarrow> jint \<Rightarrow> size_t" where
  "working_buffer_length miu rw lbl = ucast (miu * rw + miu + lbl)"

text \<open>Entering the method pushes its frame, with \<open>cb_data\<close> not yet initialised.\<close>

definition doAccept_enter :: "ptr \<Rightarrow> jint \<Rightarrow> jint \<Rightarrow> jint \<Rightarrow> 'a nfc_state_scheme \<Rightarrow> accept_pc \<times> 'a nfc_state_scheme" where
  "doAccept_enter p miu rw lbl s = (AtListenWait p miu rw lbl, set_frame p cb_data_uninit s)"

text \<open>Returning pops the frame; the ghost counter records a semaphore that is still
  initialised.\<close>

definition doAccept_return :: "ptr \<Rightarrow> jobject option \<Rightarrow> bool \<Rightarrow> 'a nfc_state_scheme \<Rightarrow> accept_pc \<times> 'a nfc_state_scheme" where
  "doAccept_return p res exc s =
     (Returned res exc,
      s\<lparr>frames := (frames s)(p := None),
        leaked_sems := leaked_sems s + (if sem_live (cb_sem (frame_of s p)) then 1 else 0)\<rparr>)"

text \<open>The label \<open>clean_and_return\<close> (lines 135--137).\<close>

definition clean_and_return :: "ptr \<Rightarrow> jobject option \<Rightarrow> bool \<Rightarrow> 'a nfc_state_scheme \<Rightarrow> accept_pc \<times> 'a nfc_state_scheme" where
  "clean_and_return p res exc s = doAccept_return p res exc (set_frame p (nfc_cb_data_deinit (frame_of s p)) s)"

text \<open>Lines 63--92: create the semaphore, allocate the working buffer, call
  \<open>phLibNfc_Llcp_Accept\<close> under the reentrance lock; return NULL at once unless the reply
  is ``pending''. The ghost \<open>listen_passed\<close> counts the call on entry to line 63.\<close>

definition doAccept_setup :: "accept_env \<Rightarrow> ptr \<Rightarrow> jint \<Rightarrow> jint \<Rightarrow> jint \<Rightarrow> 'a nfc_state_scheme \<Rightarrow> accept_pc \<times> 'a nfc_state_scheme" where
  "doAccept_setup env p miu rw lbl s =
     (let s0 = s\<lparr>listen_passed := Suc (listen_passed s)\<rparr>
      in case nfc_cb_data_init (env_sem_init env) (frame_of s0 p) of
        None \<Rightarrow> clean_and_return p None False s0
      | Some d \<Rightarrow>
          (let s1 = set_frame p d s0;
               len = working_buffer_length miu rw lbl;
               (buf, s2) = malloc (env_malloc env) len s1;
               s3 = REENTRANCE_LOCK s2;
               (ret, tr) = phLibNfc_Llcp_Accept (env_reply env) (hIncommingLlcpSocket s3)
                             \<lparr>opt_miu = ucast miu, opt_rw = ucast rw\<rparr> buf len p (llcp s3);
               s4 = REENTRANCE_UNLOCK (s3\<lparr>llcp := tr\<rparr>)
           in if ret \<noteq> NFCSTATUS_PENDING then doAccept_return p None False s4
              else (AtCallbackWait p buf miu rw, s4)))"

text \<open>Lines 57--61, then the setup: wait on the listen gate; an interrupted wait
  returns NULL. \<open>None\<close>: the thread stays blocked.\<close>

definition doAccept_wait_listen ::
  "accept_env \<Rightarrow> ptr \<Rightarrow> jint \<Rightarrow> jint \<Rightarrow> jint \<Rightarrow> 'a nfc_state_scheme \<Rightarrow> (accept_pc \<times> 'a nfc_state_scheme) option" where
  "doAccept_wait_listen env p miu rw lbl s =
     (case sem_wait (env_intr env) (listen_sem s) of
        SemBlocks \<Rightarrow> None
      | SemInterrupted \<Rightarrow> Some (doAccept_return p None False s)
      | SemAcquired l \<Rightarrow> Some (doAccept_setup env p miu rw lbl (s\<lparr>listen_sem := l\<rparr>)))"

text \<open>Lines 106--133: create the Java socket object and set its three fields. The
  handle is read from the global \<open>hIncommingLlcpSocket\<close> here, at line 123. A failed
  \<open>GetObjectClass\<close> leaves a pending exception and returns the object unset.\<close>

definition doAccept_create :: "accept_env \<Rightarrow> ptr \<Rightarrow> jint \<Rightarrow> jint \<Rightarrow> 'a nfc_state_scheme \<Rightarrow> accept_pc \<times> 'a nfc_state_scheme" where
  "doAccept_create env p miu rw s =
     (if \<not> env_cache_ok env then clean_and_return p None False s
      else (let (jo, s1) = nfc_jni_cache_object s
            in if env_exception env then clean_and_return p (Some jo) True s1
               else (let s2 = SetIntField jo (\<lambda>x. x\<lparr>mHandle := ucast (hIncommingLlcpSocket s1)\<rparr>) s1;
                         s3 = SetIntField jo (\<lambda>x. x\<lparr>mLocalMiu := miu\<rparr>) s2;
                         s4 = SetIntField jo (\<lambda>x. x\<lparr>mLocalRw := rw\<rparr>) s3
                     in clean_and_return p (Some jo) False s4)))"

text \<open>Lines 94--104, then the object creation: wait for the callback; an interrupted
  wait or a failed status goes to \<open>clean_and_return\<close> with no object.\<close>

definition doAccept_wait_callback ::
  "accept_env \<Rightarrow> ptr \<Rightarrow> jint \<Rightarrow> jint \<Rightarrow> 'a nfc_state_scheme \<Rightarrow> (accept_pc \<times> 'a nfc_state_scheme) option" where
  "doAccept_wait_callback env p miu rw s =
     (let d = frame_of s p
      in case sem_wait (env_intr env) (cb_sem d) of
           SemBlocks \<Rightarrow> None
         | SemInterrupted \<Rightarrow> Some (clean_and_return p None False s)
         | SemAcquired sm \<Rightarrow>
             (let s1 = set_frame p (d\<lparr>cb_sem := sm\<rparr>) s
              in if cb_status d \<noteq> Some NFCSTATUS_SUCCESS then Some (clean_and_return p None False s1)
                 else Some (doAccept_create env p miu rw s1)))"

text \<open>One step of a \<open>doAccept\<close> thread from a blocking point; \<open>None\<close> when it is
  blocked there or not inside the method.\<close>

fun accept_step :: "accept_env \<Rightarrow> accept_pc \<Rightarrow> 'a nfc_state_scheme \<Rightarrow> (accept_pc \<times> 'a nfc_state_scheme) option" where
  "accept_step env (AtListenWait p miu rw lbl) s = doAccept_wait_listen env p miu rw lbl s"
| "accept_step env (AtCallbackWait p buf miu rw) s = doAccept_wait_callback env p miu rw s"
| "accept_step env Idle s = None"
| "accept_step env (Returned r e) s = None"

text \<open>The distance of a \<open>doAccept\<close> thread from its return, in blocking points.\<close>

fun accept_rank :: "accept_pc \<Rightarrow> nat" where
  "accept_rank (AtListenWait p miu rw lbl) = 2"
| "accept_rank (AtCallbackWait p buf miu rw) = 1"
| "accept_rank _ = 0"

text \<open>The successive resumes of one \<open>doAccept\<close> thread, each in its environment.\<close>

fun accept_run :: "accept_env list \<Rightarrow> accept_pc \<Rightarrow> 'a nfc_state_scheme \<Rightarrow> (accept_pc \<times> 'a nfc_state_scheme) option" where
  "accept_run [] pc s = Some (pc, s)"
| "accept_run (env # envs) pc s =
     (case accept_step env pc s of None \<Rightarrow> None | Some (pc', s') \<Rightarrow> accept_run envs pc' s')"

section \<open>doClose\<close>

text \<open>Lines 140--162: read the handle of the Java object \<open>jo\<close>, close it under the
  reentrance lock, report whether the transport answered success. \<open>None\<close> only for a
  reference that is not a live Java object, which the virtual machine never passes.\<close>

definition doClose :: "jobject \<Rightarrow> 'a nfc_state_scheme \<Rightarrow> (bool \<times> 'a nfc_state_scheme) option" where
  "doClose jo s =
     (case jheap s jo of
        None \<Rightarrow> None
      | Some obj \<Rightarrow>
          (let h = nfc_jni_get_nfc_socket_handle obj;
               s1 = REENTRANCE_LOCK s;
               (ret, tr) = phLibNfc_Llcp_Close h (llcp s1);
               s2 = REENTRANCE_UNLOCK (s1\<lparr>llcp := tr\<rparr>)
           in Some (ret = NFCSTATUS_SUCCESS, s2)))"

text \<open>A process state holding one \<open>doAccept\<close> frame at address \<open>p\<close> with contents \<open>d\<close>,
  the incoming handle \<open>h\<close> open in the transport, \<open>k\<close> units on the listen gate and
  nothing else allocated: the shape of the concrete states the witnesses below use.\<close>

abbreviation one_frame_state :: "ptr \<Rightarrow> nfc_jni_callback_data \<Rightarrow> phLibNfc_Handle \<Rightarrow> nat \<Rightarrow> nfc_state" where
  "one_frame_state p d h k \<equiv>
     \<lparr>listen_sem = \<lparr>sem_count = k, sem_live = True\<rparr>, hIncommingLlcpSocket = h,
      reentrance_locked = False, frames = [p \<mapsto> d], heap = Map.empty, heap_top = 0,
      llcp = \<lparr>llcp_pending = [], llcp_sockets = {h}, llcp_conn_buf = Map.empty\<rparr>,
      jheap = Map.empty, jheap_top = 0, leaked_sems = 0, listen_passed = 0\<rparr>"

lemmas service_socket_defs [nfc_simps] =
  frame_of_def set_frame_def malloc_def REENTRANCE_LOCK_def REENTRANCE_UNLOCK_def
  nfc_jni_cache_object_def SetIntField_def nfc_jni_get_nfc_socket_handle_def
  working_buffer_length_def doAccept_enter_def doAccept_return_def clean_and_return_def
  doAccept_setup_def doAccept_wait_listen_def doAccept_create_def doAccept_wait_callback_def
  doClose_def env_nominal_def


section \<open>Effect of each stretch of doAccept\<close>

text \<open>Each lemma below says which parts of the state a stretch of \<open>doAccept\<close> may change
  and how; the record extension (the state of the other threads) is never touched.\<close>

lemma frame_of_set_frame [simp]:
  "frame_of (set_frame p d s) q = (if q = p then d else frame_of s q)"
  by (simp add: frame_of_def set_frame_def)

lemma frame_of_listen_passed [simp]: "frame_of (s\<lparr>listen_passed := n\<rparr>) p = frame_of s p"
  by (simp add: frame_of_def)

lemma doAccept_return_more:
  "doAccept_return p res exc s = (pc', s') \<Longrightarrow> nfc_state.more s' = nfc_state.more s \<and> llcp s' = llcp s \<and>
     listen_sem s' = listen_sem s \<and> heap s' = heap s \<and> reentrance_locked s' = reentrance_locked s \<and>
     frames s' = (frames s)(p := None) \<and> pc' = Returned res exc \<and> jheap s' = jheap s \<and>
     hIncommingLlcpSocket s' = hIncommingLlcpSocket s \<and> listen_passed s' = listen_passed s"
  by (auto simp: doAccept_return_def)

lemma clean_and_return_more:
  "clean_and_return p res exc s = (pc', s') \<Longrightarrow> nfc_state.more s' = nfc_state.more s \<and> llcp s' = llcp s \<and>
     listen_sem s' = listen_sem s \<and> heap s' = heap s \<and> reentrance_locked s' = reentrance_locked s \<and>
     frames s' = (frames s)(p := None) \<and> pc' = Returned res exc \<and> jheap s' = jheap s \<and>
     hIncommingLlcpSocket s' = hIncommingLlcpSocket s \<and> listen_passed s' = listen_passed s"
  by (auto simp: clean_and_return_def doAccept_return_def set_frame_def)

lemma doAccept_setup_outcome:
  assumes "doAccept_setup env p miu rw lbl s = (pc', s')"
  shows "nfc_state.more s' = nfc_state.more s \<and> listen_sem s' = listen_sem s \<and>
     listen_passed s' = Suc (listen_passed s) \<and> (\<forall>q. q \<noteq> p \<longrightarrow> frames s' q = frames s q) \<and>
     (heap s' = heap s \<and> heap_top s' = heap_top s \<or>
      heap s' = (heap s)(heap_top s \<mapsto> working_buffer_length miu rw lbl) \<and> heap_top s' = Suc (heap_top s)) \<and>
     llcp_sockets (llcp s') = llcp_sockets (llcp s) \<and> llcp_conn_buf (llcp s') = llcp_conn_buf (llcp s) \<and>
     jheap s' = jheap s \<and> hIncommingLlcpSocket s' = hIncommingLlcpSocket s \<and>
     (reentrance_locked s' \<longrightarrow> reentrance_locked s) \<and>
     ((\<exists>r e. pc' = Returned r e) \<and> frames s' p = None \<and> llcp_pending (llcp s') = llcp_pending (llcp s)
      \<or> (\<exists>buf. pc' = AtCallbackWait p buf miu rw \<and>
           frames s' p = Some ((frame_of s p)\<lparr>cb_sem := \<lparr>sem_count = 0, sem_live = True\<rparr>, cb_status := None\<rparr>) \<and>
           llcp_pending (llcp s') = llcp_pending (llcp s) @
             [\<lparr>acc_socket = hIncommingLlcpSocket s, acc_opts = \<lparr>opt_miu = ucast miu, opt_rw = ucast rw\<rparr>,
               acc_buf = buf, acc_len = working_buffer_length miu rw lbl, acc_ctx = p\<rparr>]))"
  using assms
  by (auto simp: doAccept_setup_def nfc_cb_data_init_def sem_init_def malloc_def set_frame_def
      REENTRANCE_LOCK_def REENTRANCE_UNLOCK_def phLibNfc_Llcp_Accept_def Let_def
      clean_and_return_def doAccept_return_def split: if_splits)

lemma doAccept_wait_listen_outcome:
  assumes "doAccept_wait_listen env p miu rw lbl s = Some (pc', s')"
  shows "sem_count (listen_sem s) = 0 \<and> env_intr env \<and> doAccept_return p None False s = (pc', s')
       \<or> 0 < sem_count (listen_sem s) \<and>
         doAccept_setup env p miu rw lbl
           (s\<lparr>listen_sem := (listen_sem s)\<lparr>sem_count := sem_count (listen_sem s) - 1\<rparr>\<rparr>) = (pc', s')"
  using assms
  by (cases rule: sem_wait_cases [of "listen_sem s" "env_intr env"]) (auto simp: doAccept_wait_listen_def)

lemma doAccept_create_outcome:
  assumes "doAccept_create env p miu rw s = (pc', s')"
  shows "nfc_state.more s' = nfc_state.more s \<and> llcp s' = llcp s \<and> listen_sem s' = listen_sem s \<and>
     heap s' = heap s \<and> reentrance_locked s' = reentrance_locked s \<and>
     frames s' = (frames s)(p := None) \<and> (\<exists>r e. pc' = Returned r e) \<and>
     hIncommingLlcpSocket s' = hIncommingLlcpSocket s \<and> listen_passed s' = listen_passed s"
  using assms
  by (auto simp: doAccept_create_def nfc_jni_cache_object_def SetIntField_def Let_def
      dest!: clean_and_return_more split: if_splits prod.splits)

lemma doAccept_wait_callback_outcome:
  assumes "doAccept_wait_callback env p miu rw s = Some (pc', s')"
  shows "sem_count (cb_sem (frame_of s p)) = 0 \<and> env_intr env \<and> clean_and_return p None False s = (pc', s')
     \<or> 0 < sem_count (cb_sem (frame_of s p)) \<and>
       (let s1 = set_frame p ((frame_of s p)\<lparr>cb_sem := (cb_sem (frame_of s p))\<lparr>sem_count := sem_count (cb_sem (frame_of s p)) - 1\<rparr>\<rparr>) s
        in if cb_status (frame_of s p) \<noteq> Some NFCSTATUS_SUCCESS then clean_and_return p None False s1 = (pc', s')
           else doAccept_create env p miu rw s1 = (pc', s'))"
  using assms
  by (cases rule: sem_wait_cases [of "cb_sem (frame_of s p)" "env_intr env"])
     (auto simp: doAccept_wait_callback_def Let_def)

text \<open>What every stretch from line 95 keeps: it returns, pops its frame, and touches
  neither the transport, the listen gate nor the heap.\<close>

lemma doAccept_wait_callback_frame:
  assumes "doAccept_wait_callback env p miu rw s = Some (pc', s')"
  shows "nfc_state.more s' = nfc_state.more s \<and> llcp s' = llcp s \<and> listen_sem s' = listen_sem s \<and>
     heap s' = heap s \<and> reentrance_locked s' = reentrance_locked s \<and>
     frames s' = (frames s)(p := None) \<and> (\<exists>r e. pc' = Returned r e) \<and>
     hIncommingLlcpSocket s' = hIncommingLlcpSocket s \<and> listen_passed s' = listen_passed s"
  using doAccept_wait_callback_outcome [OF assms]
  by (auto simp: Let_def set_frame_def dest!: clean_and_return_more doAccept_create_outcome split: if_splits)

lemma doClose_outcome:
  assumes "doClose jo s = Some (r, s')"
  shows "\<exists>obj. jheap s jo = Some obj \<and>
     r = (nfc_jni_get_nfc_socket_handle obj \<in> llcp_sockets (llcp s)) \<and>
     s' = s\<lparr>reentrance_locked := False, llcp := snd (phLibNfc_Llcp_Close (nfc_jni_get_nfc_socket_handle obj) (llcp s))\<rparr>"
  using assms
  by (auto simp: doClose_def REENTRANCE_LOCK_def REENTRANCE_UNLOCK_def phLibNfc_Llcp_Close_def Let_def
      split: option.splits if_splits)

text \<open>The reentrance lock is taken and released within one atomic stretch: no step of
  \<open>doAccept\<close> and no \<open>doClose\<close> leaves it held.\<close>

lemma accept_step_unlocked:
  "accept_step env pc s = Some (pc', s') \<Longrightarrow> \<not> reentrance_locked s \<Longrightarrow> \<not> reentrance_locked s'"
  by (cases pc) (auto simp: service_socket_defs sem_defs callback_defs transport_defs Let_def
      split: if_splits option.splits sem_wait_result.splits prod.splits)

lemma doClose_unlocked: "doClose jo s = Some (r, s') \<Longrightarrow> \<not> reentrance_locked s'"
  by (auto dest!: doClose_outcome)

text \<open>A step of \<open>doAccept\<close> frees nothing: it leaves the heap alone or allocates one block at its top.\<close>

lemma accept_step_heap:
  "accept_step env pc s = Some (pc', s') \<Longrightarrow>
   heap s' = heap s \<and> heap_top s' = heap_top s \<or>
   (\<exists>n. heap s' = (heap s)(heap_top s \<mapsto> n) \<and> heap_top s' = Suc (heap_top s))"
  by (cases pc) (auto simp: service_socket_defs sem_defs callback_defs transport_defs Let_def
      split: if_splits option.splits sem_wait_result.splits prod.splits)

text \<open>With a semaphore and a ``pending'' reply the setup ends at line 95.\<close>

lemma doAccept_setup_waits:
  "env_sem_init env \<Longrightarrow> env_reply env = NFCSTATUS_PENDING \<Longrightarrow>
   \<exists>buf. fst (doAccept_setup env p miu rw lbl s) = AtCallbackWait p buf miu rw"
  by (simp add: doAccept_setup_def nfc_cb_data_init_def sem_init_def malloc_def phLibNfc_Llcp_Accept_def
      Let_def split: prod.splits)

text \<open>A step of \<open>doAccept\<close> leaves every existing Java object alone and reads the
  handle slot without writing it; an object it returns holds the handle the slot had.\<close>

lemma accept_step_jheap:
  assumes "accept_step env pc s = Some (pc', s')"
  shows "jheap_top s \<le> jheap_top s' \<and> (\<forall>jo<jheap_top s. jheap s' jo = jheap s jo) \<and>
     hIncommingLlcpSocket s' = hIncommingLlcpSocket s \<and>
     (\<forall>jo. pc' = Returned (Some jo) False \<longrightarrow>
        jo < jheap_top s' \<and> (\<exists>obj. jheap s' jo = Some obj \<and> mHandle obj = ucast (hIncommingLlcpSocket s)))"
  using assms
  by (cases pc) (auto simp: service_socket_defs sem_defs callback_defs transport_defs Let_def
      split: if_splits option.splits sem_wait_result.splits prod.splits)

text \<open>Each resume that does not block moves the thread strictly closer to its return.\<close>

lemma doAccept_return_pc [simp]: "fst (doAccept_return p r e s) = Returned r e"
  by (simp add: doAccept_return_def Let_def)

lemma clean_and_return_pc [simp]: "fst (clean_and_return p r e s) = Returned r e"
  by (simp add: clean_and_return_def)

lemma accept_step_rank:
  "accept_step env pc s = Some (pc', s') \<Longrightarrow> accept_rank pc' < accept_rank pc"
  by (cases pc) (auto simp: doAccept_wait_listen_def doAccept_wait_callback_def doAccept_setup_def
      doAccept_create_def Let_def split: sem_wait_result.splits option.splits prod.splits if_splits
      dest!: arg_cong [where f = fst])

text \<open>A callback wait that finds a unit returns, whatever the status and the JNI calls do.\<close>

lemma wait_callback_returns:
  "0 < sem_count (cb_sem (frame_of s p)) \<Longrightarrow>
   \<exists>r x s'. doAccept_wait_callback env p miu rw s = Some (Returned r x, s')"
  by (auto simp: doAccept_wait_callback_def doAccept_create_def sem_wait_def Let_def
      clean_and_return_def doAccept_return_def split: prod.splits)

section \<open>Behaviour of doAccept on each branch\<close>

text \<open>C1: when the callback has signalled success, \<open>doAccept\<close> returns a new
  \<open>NativeLlcpSocket\<close> whose handle is the value of \<open>hIncommingLlcpSocket\<close> at line 123 and
  whose MIU and RW are the caller's arguments, pops its frame, and leaves the transport
  alone.\<close>

theorem doAccept_success_returns_socket:
  assumes "0 < sem_count (cb_sem (frame_of s p))" and "cb_status (frame_of s p) = Some NFCSTATUS_SUCCESS"
    and "env_cache_ok env" and "\<not> env_exception env"
  shows "\<exists>s'. doAccept_wait_callback env p miu rw s = Some (Returned (Some (jheap_top s)) False, s') \<and>
     jheap s' (jheap_top s) = Some \<lparr>jclass = NativeLlcpSocket, mHandle = ucast (hIncommingLlcpSocket s),
                                   mLocalMiu = miu, mLocalRw = rw\<rparr> \<and>
     frames s' p = None \<and> llcp s' = llcp s"
  using assms
  by (auto simp: doAccept_wait_callback_def doAccept_create_def sem_wait_def nfc_jni_cache_object_def
      SetIntField_def clean_and_return_def doAccept_return_def set_frame_def Let_def)

theorem doAccept_success_returns_socket_witness:
  "\<exists>s'. doAccept_wait_callback env_nominal 0 128 1
          (one_frame_state 0 \<lparr>cb_sem = \<lparr>sem_count = 1, sem_live = True\<rparr>, cb_status = Some 0\<rparr> 7 0)
        = Some (Returned (Some 0) False, s') \<and>
     jheap s' 0 = Some \<lparr>jclass = NativeLlcpSocket, mHandle = 7, mLocalMiu = 128, mLocalRw = 1\<rparr>"
  using doAccept_success_returns_socket [of "one_frame_state 0 \<lparr>cb_sem = \<lparr>sem_count = 1, sem_live = True\<rparr>, cb_status = Some 0\<rparr> 7 0"
      0 env_nominal 128 1]
  by (auto simp: frame_of_def env_nominal_def NFCSTATUS_SUCCESS_def)

text \<open>C2: when the transport answers ``pending'', \<open>doAccept\<close> blocks at line 95 with
  exactly one request queued in the transport: for the socket in
  \<open>hIncommingLlcpSocket\<close>, with the caller's MIU and RW cut to the \<open>uint16_t\<close> and
  \<open>uint8_t\<close> fields of the socket options (lines 70--71), the working buffer and its
  length, and the address of its own frame as the callback context; the frame holds a
  fresh semaphore and no status, and the reentrance lock is free again. The request is
  issued whether or not \<open>malloc\<close> returned a buffer.\<close>

theorem doAccept_pending_registers_request:
  assumes "env_sem_init env" and "env_reply env = NFCSTATUS_PENDING"
  shows "\<exists>buf s'. doAccept_setup env p miu rw lbl s = (AtCallbackWait p buf miu rw, s') \<and>
     llcp_pending (llcp s') = llcp_pending (llcp s) @
       [\<lparr>acc_socket = hIncommingLlcpSocket s, acc_opts = \<lparr>opt_miu = ucast miu, opt_rw = ucast rw\<rparr>,
         acc_buf = buf, acc_len = working_buffer_length miu rw lbl, acc_ctx = p\<rparr>] \<and>
     frames s' p = Some ((frame_of s p)\<lparr>cb_sem := \<lparr>sem_count = 0, sem_live = True\<rparr>, cb_status := None\<rparr>) \<and>
     \<not> reentrance_locked s' \<and> (buf = None \<longleftrightarrow> \<not> env_malloc env)"
  using assms
  by (auto simp: doAccept_setup_def nfc_cb_data_init_def sem_init_def malloc_def set_frame_def
      REENTRANCE_LOCK_def REENTRANCE_UNLOCK_def phLibNfc_Llcp_Accept_def Let_def)

theorem doAccept_pending_registers_request_witness:
  "\<exists>s'. doAccept_setup (env_nominal\<lparr>env_malloc := False\<rparr>) 0 128 1 0 (one_frame_state 0 cb_data_uninit 7 0)
        = (AtCallbackWait 0 None 128 1, s') \<and>
     llcp_pending (llcp s') = [\<lparr>acc_socket = 7, acc_opts = \<lparr>opt_miu = 128, opt_rw = 1\<rparr>,
         acc_buf = None, acc_len = 256, acc_ctx = 0\<rparr>]"
  using doAccept_pending_registers_request [of "env_nominal\<lparr>env_malloc := False\<rparr>" 0 128 1 0
      "one_frame_state 0 cb_data_uninit 7 0"]
  by (auto simp: env_nominal_def working_buffer_length_def)

text \<open>C18: when the transport rejects the request at once, \<open>doAccept\<close> returns NULL and
  no callback is registered; but the working buffer stays allocated and the
  semaphore created at line 64 is never destroyed (the early return at line 90 skips
  \<open>clean_and_return\<close>).\<close>

theorem doAccept_rejected_leaks:
  assumes "env_sem_init env" and "env_reply env \<noteq> NFCSTATUS_PENDING"
  shows "\<exists>s'. doAccept_setup env p miu rw lbl s = (Returned None False, s') \<and>
     llcp_pending (llcp s') = llcp_pending (llcp s) \<and> frames s' p = None \<and>
     leaked_sems s' = Suc (leaked_sems s) \<and>
     heap s' = (if env_malloc env then (heap s)(heap_top s \<mapsto> working_buffer_length miu rw lbl) else heap s)"
  using assms
  by (auto simp: doAccept_setup_def nfc_cb_data_init_def sem_init_def malloc_def set_frame_def
      REENTRANCE_LOCK_def REENTRANCE_UNLOCK_def phLibNfc_Llcp_Accept_def Let_def doAccept_return_def
      frame_of_def)

theorem doAccept_rejected_leaks_witness:
  "\<exists>s'. doAccept_setup (env_nominal\<lparr>env_reply := NFCSTATUS_FAILED\<rparr>) 0 128 1 0
          (one_frame_state 0 cb_data_uninit 7 0) = (Returned None False, s') \<and>
     leaked_sems s' = 1 \<and> heap s' = [0 \<mapsto> 256]"
  using doAccept_rejected_leaks [of "env_nominal\<lparr>env_reply := NFCSTATUS_FAILED\<rparr>" 0 128 1 0
      "one_frame_state 0 cb_data_uninit 7 0"]
  by (auto simp: env_nominal_def working_buffer_length_def NFCSTATUS_FAILED_def NFCSTATUS_PENDING_def)

text \<open>C21: when the semaphore of the completion context cannot be created,
  \<open>doAccept\<close> returns NULL before it allocates anything or calls the transport.\<close>

theorem doAccept_init_failure:
  assumes "\<not> env_sem_init env"
  shows "\<exists>s'. doAccept_setup env p miu rw lbl s = (Returned None False, s') \<and>
     llcp s' = llcp s \<and> heap s' = heap s \<and> heap_top s' = heap_top s \<and> frames s' p = None"
  using assms
  by (auto simp: doAccept_setup_def nfc_cb_data_init_def sem_init_def clean_and_return_def
      doAccept_return_def set_frame_def Let_def)

theorem doAccept_init_failure_witness:
  "\<exists>s'. doAccept_setup (env_nominal\<lparr>env_sem_init := False\<rparr>) 0 128 1 0
          (one_frame_state 0 cb_data_uninit 7 0) = (Returned None False, s') \<and> heap s' = Map.empty"
  using doAccept_init_failure [of "env_nominal\<lparr>env_sem_init := False\<rparr>" 0 128 1 0
      "one_frame_state 0 cb_data_uninit 7 0"]
  by (auto simp: env_nominal_def)

text \<open>C22: an interrupted wait on the listen gate returns NULL at line 60 with no
  effect but popping the frame: the gate, the transport and the heap are untouched.\<close>

theorem doAccept_listen_interrupted:
  assumes "sem_count (listen_sem s) = 0" and "env_intr env"
  shows "\<exists>s'. doAccept_wait_listen env p miu rw lbl s = Some (Returned None False, s') \<and>
     listen_sem s' = listen_sem s \<and> llcp s' = llcp s \<and> heap s' = heap s \<and> frames s' p = None"
  using assms by (auto simp: doAccept_wait_listen_def sem_wait_def doAccept_return_def)

theorem doAccept_listen_interrupted_witness:
  "\<exists>s'. doAccept_wait_listen (env_nominal\<lparr>env_intr := True\<rparr>) 0 128 1 0
          (one_frame_state 0 cb_data_uninit 7 0) = Some (Returned None False, s') \<and> frames s' 0 = None"
  using doAccept_listen_interrupted [of "one_frame_state 0 cb_data_uninit 7 0" "env_nominal\<lparr>env_intr := True\<rparr>" 0 128 1 0]
  by (auto simp: env_nominal_def)

text \<open>C23: an interrupted wait at line 95 returns NULL and pops the frame, but leaves
  the transport as it was: a request that is still pending keeps the address of the
  popped frame as its callback context.\<close>

theorem doAccept_callback_wait_interrupted:
  assumes "sem_count (cb_sem (frame_of s p)) = 0" and "env_intr env"
  shows "\<exists>s'. doAccept_wait_callback env p miu rw s = Some (Returned None False, s') \<and>
     llcp s' = llcp s \<and> heap s' = heap s \<and> frames s' p = None"
  using assms
  by (auto simp: doAccept_wait_callback_def sem_wait_def clean_and_return_def doAccept_return_def set_frame_def)

theorem doAccept_callback_wait_interrupted_witness:
  "\<exists>s'. doAccept_wait_callback (env_nominal\<lparr>env_intr := True\<rparr>) 0 128 1
          ((one_frame_state 0 \<lparr>cb_sem = \<lparr>sem_count = 0, sem_live = True\<rparr>, cb_status = None\<rparr> 7 0)
             \<lparr>llcp := \<lparr>llcp_pending = [\<lparr>acc_socket = 7, acc_opts = \<lparr>opt_miu = 128, opt_rw = 1\<rparr>,
                 acc_buf = Some 0, acc_len = 256, acc_ctx = 0\<rparr>], llcp_sockets = {7}, llcp_conn_buf = Map.empty\<rparr>\<rparr>)
        = Some (Returned None False, s') \<and>
     frames s' 0 = None \<and> map acc_ctx (llcp_pending (llcp s')) = [0]"
  using doAccept_callback_wait_interrupted [of "(one_frame_state 0 \<lparr>cb_sem = \<lparr>sem_count = 0, sem_live = True\<rparr>, cb_status = None\<rparr> 7 0)
             \<lparr>llcp := \<lparr>llcp_pending = [\<lparr>acc_socket = 7, acc_opts = \<lparr>opt_miu = 128, opt_rw = 1\<rparr>,
                 acc_buf = Some 0, acc_len = 256, acc_ctx = 0\<rparr>], llcp_sockets = {7}, llcp_conn_buf = Map.empty\<rparr>\<rparr>"
      0 "env_nominal\<lparr>env_intr := True\<rparr>" 128 1]
  by (auto simp: env_nominal_def frame_of_def)

text \<open>C24: when the callback has signalled a failure status, \<open>doAccept\<close> returns NULL
  and creates no Java object; the working buffer it handed to the transport is not
  released.\<close>

theorem doAccept_failed_status:
  assumes "0 < sem_count (cb_sem (frame_of s p))" and "cb_status (frame_of s p) \<noteq> Some NFCSTATUS_SUCCESS"
  shows "\<exists>s'. doAccept_wait_callback env p miu rw s = Some (Returned None False, s') \<and>
     jheap s' = jheap s \<and> jheap_top s' = jheap_top s \<and> heap s' = heap s \<and> llcp s' = llcp s \<and>
     frames s' p = None"
  using assms
  by (auto simp: doAccept_wait_callback_def sem_wait_def clean_and_return_def doAccept_return_def
      set_frame_def Let_def)

theorem doAccept_failed_status_witness:
  "\<exists>s'. doAccept_wait_callback env_nominal 0 128 1
          (one_frame_state 0 \<lparr>cb_sem = \<lparr>sem_count = 1, sem_live = True\<rparr>, cb_status = Some NFCSTATUS_FAILED\<rparr> 7 0)
        = Some (Returned None False, s') \<and> jheap s' = Map.empty"
  using doAccept_failed_status [of "one_frame_state 0 \<lparr>cb_sem = \<lparr>sem_count = 1, sem_live = True\<rparr>, cb_status = Some NFCSTATUS_FAILED\<rparr> 7 0"
      0 env_nominal 128 1]
  by (auto simp: frame_of_def NFCSTATUS_FAILED_def NFCSTATUS_SUCCESS_def)

text \<open>C25: when \<open>GetObjectClass\<close> fails after the object was created, \<open>doAccept\<close>
  returns that object, with a Java exception pending and none of its fields set.\<close>

theorem doAccept_exception_returns_unset_object:
  assumes "0 < sem_count (cb_sem (frame_of s p))" and "cb_status (frame_of s p) = Some NFCSTATUS_SUCCESS"
    and "env_cache_ok env" and "env_exception env"
  shows "\<exists>s'. doAccept_wait_callback env p miu rw s = Some (Returned (Some (jheap_top s)) True, s') \<and>
     jheap s' (jheap_top s) = Some \<lparr>jclass = NativeLlcpSocket, mHandle = 0, mLocalMiu = 0, mLocalRw = 0\<rparr>"
  using assms
  by (auto simp: doAccept_wait_callback_def doAccept_create_def sem_wait_def nfc_jni_cache_object_def
      clean_and_return_def doAccept_return_def set_frame_def Let_def)

theorem doAccept_exception_returns_unset_object_witness:
  "\<exists>s'. doAccept_wait_callback (env_nominal\<lparr>env_exception := True\<rparr>) 0 128 1
          (one_frame_state 0 \<lparr>cb_sem = \<lparr>sem_count = 1, sem_live = True\<rparr>, cb_status = Some 0\<rparr> 7 0)
        = Some (Returned (Some 0) True, s') \<and>
     jheap s' 0 = Some \<lparr>jclass = NativeLlcpSocket, mHandle = 0, mLocalMiu = 0, mLocalRw = 0\<rparr>"
  using doAccept_exception_returns_unset_object [of "one_frame_state 0 \<lparr>cb_sem = \<lparr>sem_count = 1, sem_live = True\<rparr>, cb_status = Some 0\<rparr> 7 0"
      0 "env_nominal\<lparr>env_exception := True\<rparr>" 128 1]
  by (auto simp: frame_of_def env_nominal_def NFCSTATUS_SUCCESS_def)

text \<open>C31: a \<open>doAccept\<close> thread at one of its blocking points stays blocked exactly when
  the semaphore it waits on is empty and no signal interrupts it; otherwise it moves on.\<close>

theorem accept_step_blocks_iff:
  "accept_step env pc s = None \<longleftrightarrow>
     (case pc of
        AtListenWait p miu rw lbl \<Rightarrow> sem_count (listen_sem s) = 0 \<and> \<not> env_intr env
      | AtCallbackWait p buf miu rw \<Rightarrow> sem_count (cb_sem (frame_of s p)) = 0 \<and> \<not> env_intr env
      | _ \<Rightarrow> True)"
  by (cases pc) (auto simp: doAccept_wait_listen_def doAccept_wait_callback_def sem_wait_def Let_def)

text \<open>C30: \<open>doAccept\<close> has no loop: a thread resumes at most twice before it returns,
  once from the listen gate and once from the callback wait; a sequence of resumes that
  does not block is no longer than the number of blocking points ahead of the thread.\<close>

theorem accept_run_bounded:
  "accept_run envs pc s = Some (pc', s') \<Longrightarrow> length envs \<le> accept_rank pc"
proof (induction envs arbitrary: pc s)
  case (Cons env envs)
  then obtain pc1 s1 where st: "accept_step env pc s = Some (pc1, s1)" and r: "accept_run envs pc1 s1 = Some (pc', s')"
    by (auto split: option.splits)
  from Cons.IH [OF r] accept_step_rank [OF st] show ?case by simp
qed simp

theorem accept_run_bounded_witness:
  "\<exists>s'. accept_run [env_nominal, env_nominal\<lparr>env_intr := True\<rparr>] (AtListenWait 0 128 1 0) (one_frame_state 0 cb_data_uninit 7 1)
          = Some (Returned None False, s') \<and> length [env_nominal, env_nominal\<lparr>env_intr := True\<rparr>] \<le> accept_rank (AtListenWait 0 128 1 0)"
  using accept_run_bounded [of "[env_nominal, env_nominal\<lparr>env_intr := True\<rparr>]" "AtListenWait 0 128 1 0" "one_frame_state 0 cb_data_uninit 7 1"]
  by (simp add: nfc_simps)
section \<open>doClose\<close>

text \<open>C26: \<open>doClose\<close> closes the socket whose handle the Java object holds, under the
  reentrance lock and releasing it; it returns true exactly when that socket was open
  in the transport, leaves the pending accept requests alone, and a second close of the
  same object returns false.\<close>

theorem doClose_result:
  assumes "jheap s jo = Some obj"
  shows "\<exists>s'. doClose jo s = Some (nfc_jni_get_nfc_socket_handle obj \<in> llcp_sockets (llcp s), s') \<and>
     llcp_sockets (llcp s') = llcp_sockets (llcp s) - {nfc_jni_get_nfc_socket_handle obj} \<and>
     llcp_pending (llcp s') = llcp_pending (llcp s) \<and> \<not> reentrance_locked s' \<and>
     (\<exists>s''. doClose jo s' = Some (False, s''))"
  using assms by (simp add: doClose_def REENTRANCE_LOCK_def REENTRANCE_UNLOCK_def phLibNfc_Llcp_Close_def Let_def)

theorem doClose_result_witness:
  "\<exists>s'. doClose 0 (one_frame_state 0 cb_data_uninit 7 0\<lparr>jheap :=
        [0 \<mapsto> \<lparr>jclass = NativeLlcpServiceSocket, mHandle = 7, mLocalMiu = 128, mLocalRw = 1\<rparr>]\<rparr>) = Some (True, s') \<and>
     llcp_sockets (llcp s') = {} \<and> llcp_pending (llcp s') = [] \<and>
     \<not> reentrance_locked s' \<and> (\<exists>s''. doClose 0 s' = Some (False, s''))"
  using doClose_result [of "one_frame_state 0 cb_data_uninit 7 0\<lparr>jheap :=
        [0 \<mapsto> \<lparr>jclass = NativeLlcpServiceSocket, mHandle = 7, mLocalMiu = 128, mLocalRw = 1\<rparr>]\<rparr>" 0
      "\<lparr>jclass = NativeLlcpServiceSocket, mHandle = 7, mLocalMiu = 128, mLocalRw = 1\<rparr>"]
  by (simp add: nfc_jni_get_nfc_socket_handle_def)

section \<open>Size of the working buffer\<close>

text \<open>C29: within the limits of LLCP (a MIU of at most 2175 octets, the default 128
  plus the largest MIUX 2047; a receive window of at most 15, a 4-bit field) and a
  linear buffer length that leaves room below \<open>2\<^sup>3\<^sup>1\<close>, none of the
  int operations of lines 74--75 overflows and the size given to \<open>malloc\<close> and to the
  transport is the mathematical value of \<open>miu * rw + miu + linearBufferLength\<close>.\<close>

theorem working_buffer_length_llcp_exact:
  assumes miu: "0 \<le> sint miu" "sint miu \<le> 2175" and rw: "0 \<le> sint rw" "sint rw \<le> 15"
    and lbl: "0 \<le> sint lbl" "sint lbl \<le> 2 ^ 31 - 1 - 2175 * 16"
  shows "sint (miu * rw) = sint miu * sint rw \<and>
         sint (miu * rw + miu) = sint miu * sint rw + sint miu \<and>
         sint (miu * rw + miu + lbl) = sint miu * sint rw + sint miu + sint lbl \<and>
         unat (working_buffer_length miu rw lbl) = nat (sint miu * sint rw + sint miu + sint lbl)"
proof -
  have pl: "0 \<le> sint miu * sint rw" using miu rw by simp
  have pu: "sint miu * sint rw \<le> 2175 * 15" using miu rw by (intro mult_mono) simp_all
  have p: "sint (miu * rw) = sint miu * sint rw" using pl pu by (intro sint_prod_exact) simp_all
  have q: "sint (miu * rw + miu) = sint miu * sint rw + sint miu"
    using p pl pu miu by (subst sint_sum_exact) simp_all
  have r: "sint (miu * rw + miu + lbl) = sint miu * sint rw + sint miu + sint lbl"
    using q pl pu miu lbl by (subst sint_sum_exact) simp_all
  have "unat (working_buffer_length miu rw lbl) = nat (sint (miu * rw + miu + lbl))"
    using r pl pu miu lbl unfolding working_buffer_length_def
    by (simp add: unat_eq_nat_uint uint_sint take_bit_int_eq_self)
  with p q r show ?thesis by simp
qed

theorem working_buffer_length_llcp_exact_witness:
  "sint (2175 * 15 + 2175 + 1024 :: jint) = 35824 \<and> unat (working_buffer_length 2175 15 1024) = 35824"
proof -
  have "sint (2175 * 15 + 2175 + 1024 :: jint) = sint (2175 :: jint) * sint (15 :: jint) + sint (2175 :: jint) + sint (1024 :: jint) \<and>
        unat (working_buffer_length 2175 15 1024) = nat (sint (2175 :: jint) * sint (15 :: jint) + sint (2175 :: jint) + sint (1024 :: jint))"
    using working_buffer_length_llcp_exact [of 2175 15 1024] by simp
  then show ?thesis by simp
qed

end
