(* ===== verification/System.thy ===== *)
theory System
  imports ServiceSocket
begin

text \<open>
  The whole process as an interleaving of threads. The state extends the shared state
  of \<open>ServiceSocket\<close> with the program counter of every caller thread, the callback
  bodies the transport's threads are running (each with the context pointer it was
  given and the statements still to run), and ghost counters. The events are: a thread
  enters \<open>doAccept\<close> (its frame goes to any stack address no live frame uses, so a
  later call can reuse the address of an earlier one); a thread resumes from a blocking
  point of \<open>doAccept\<close>; a thread calls \<open>doClose\<close>; the transport reports an incoming
  connection (the listen callback of the NFC manager, outside this source tree: it
  stores the handle in \<open>hIncommingLlcpSocket\<close> and posts the listen semaphore);
  the transport completes a pending accept and starts the accept callback; a transport
  thread runs the next statement of a callback; the transport gives up a pending accept
  with an error and runs the error callback instead.

  The ghost fields: \<open>delivered\<close> maps a context to the status the transport last
  completed a request for it with; \<open>stale_writes\<close> counts callback statements that
  wrote into a popped frame; \<open>listen_posts\<close> counts the posts of the listen gate (the
  calls that went on past the gate are counted by \<open>doAccept_setup\<close> itself, in
  \<open>listen_passed\<close>).
\<close>

record sys_state = nfc_state +
  threads :: "tid \<Rightarrow> accept_pc"
  callbacks :: "(ptr \<times> cb_stmt list) list"
  delivered :: "ptr \<rightharpoonup> NFCSTATUS"
  stale_writes :: nat
  listen_posts :: nat

datatype sys_event =
  Enter tid ptr jint jint jint
  | Resume tid accept_env
  | Close jobject
  | Arrive phLibNfc_Handle
  | Complete nat NFCSTATUS
  | RunCallback nat
  | Error nat uint8_t

fun accept_idle :: "accept_pc \<Rightarrow> bool" where
  "accept_idle Idle = True"
| "accept_idle (Returned _ _) = True"
| "accept_idle _ = False"

fun pc_frame :: "accept_pc \<Rightarrow> ptr option" where
  "pc_frame (AtListenWait p _ _ _) = Some p"
| "pc_frame (AtCallbackWait p _ _ _) = Some p"
| "pc_frame _ = None"

definition thread_enter :: "tid \<Rightarrow> ptr \<Rightarrow> jint \<Rightarrow> jint \<Rightarrow> jint \<Rightarrow> sys_state \<Rightarrow> sys_state option" where
  "thread_enter t p miu rw lbl s =
     (if accept_idle (threads s t) \<and> frames s p = None
      then (let (pc, s') = doAccept_enter p miu rw lbl s in Some (s'\<lparr>threads := (threads s')(t := pc)\<rparr>))
      else None)"

definition thread_resume :: "tid \<Rightarrow> accept_env \<Rightarrow> sys_state \<Rightarrow> sys_state option" where
  "thread_resume t env s =
     (case accept_step env (threads s t) s of
        None \<Rightarrow> None
      | Some (pc, s') \<Rightarrow>
          Some (s'\<lparr>threads := (threads s')(t := pc)\<rparr>))"

definition listen_notify :: "phLibNfc_Handle \<Rightarrow> sys_state \<Rightarrow> sys_state" where
  "listen_notify h s =
     s\<lparr>hIncommingLlcpSocket := h, listen_sem := sem_post (listen_sem s),
       llcp := llcp_incoming h (llcp s), listen_posts := Suc (listen_posts s)\<rparr>"

definition transport_complete :: "nat \<Rightarrow> NFCSTATUS \<Rightarrow> sys_state \<Rightarrow> sys_state option" where
  "transport_complete i st s =
     (case llcp_complete i st (llcp s) of
        None \<Rightarrow> None
      | Some (op, tr) \<Rightarrow>
          Some (s\<lparr>llcp := tr,
                  callbacks := callbacks s @ [(acc_ctx op, nfc_jni_llcp_accept_socket_callback st)],
                  delivered := (delivered s)(acc_ctx op \<mapsto> st)\<rparr>))"

text \<open>A statement of a callback writes through its context pointer: into the frame if
  it is live, into a popped stack slot otherwise.\<close>

definition write_ctx :: "ptr \<Rightarrow> cb_stmt \<Rightarrow> sys_state \<Rightarrow> sys_state" where
  "write_ctx p c s =
     (case frames s p of
        Some d \<Rightarrow> s\<lparr>frames := (frames s)(p \<mapsto> cb_exec c d)\<rparr>
      | None \<Rightarrow> s\<lparr>stale_writes := Suc (stale_writes s)\<rparr>)"

text \<open>The transport gives up a pending request with an error code and runs the error
  callback on its context.\<close>

definition transport_error :: "nat \<Rightarrow> uint8_t \<Rightarrow> sys_state \<Rightarrow> sys_state option" where
  "transport_error i code s =
     (case llcp_abort i (llcp s) of
        None \<Rightarrow> None
      | Some (op, tr) \<Rightarrow>
          (let body = nfc_jni_llcp_transport_socket_err_callback code
           in Some (s\<lparr>llcp := tr,
                     callbacks := callbacks s @ (if body = [] then [] else [(acc_ctx op, body)])\<rparr>)))"

definition callback_step :: "nat \<Rightarrow> sys_state \<Rightarrow> sys_state option" where
  "callback_step j s =
     (if j < length (callbacks s)
      then (case callbacks s ! j of
              (p, []) \<Rightarrow> None
            | (p, c # cs) \<Rightarrow>
                (let s1 = write_ctx p c s
                 in Some (s1\<lparr>callbacks :=
                      (if cs = [] then take j (callbacks s) @ drop (Suc j) (callbacks s)
                       else (callbacks s)[j := (p, cs)])\<rparr>)))
      else None)"

text \<open>The JVM calls \<open>doClose\<close> only on an object of the class it is registered for,
  \<open>NativeLlcpServiceSocket\<close> (lines 178--183); the \<open>NativeLlcpSocket\<close> objects
  \<open>doAccept\<close> returns have their own \<open>doClose\<close> in another file.\<close>

definition close_receiver :: "jobject \<Rightarrow> 'a nfc_state_scheme \<Rightarrow> bool" where
  "close_receiver jo s = (case jheap s jo of Some obj \<Rightarrow> jclass obj = NativeLlcpServiceSocket | None \<Rightarrow> False)"

fun sys_next :: "sys_event \<Rightarrow> sys_state \<Rightarrow> sys_state option" where
  "sys_next (Enter t p miu rw lbl) s = thread_enter t p miu rw lbl s"
| "sys_next (Resume t env) s = thread_resume t env s"
| "sys_next (Close jo) s = (if close_receiver jo s then map_option snd (doClose jo s) else None)"
| "sys_next (Arrive h) s = Some (listen_notify h s)"
| "sys_next (Complete i st) s = transport_complete i st s"
| "sys_next (RunCallback j) s = callback_step j s"
| "sys_next (Error i code) s = transport_error i code s"

fun sys_run :: "sys_event list \<Rightarrow> sys_state \<Rightarrow> sys_state option" where
  "sys_run [] s = Some s"
| "sys_run (e # es) s = (case sys_next e s of None \<Rightarrow> None | Some s' \<Rightarrow> sys_run es s')"

text \<open>The events that write the handle slot: the arrivals of connections.\<close>

fun is_arrival :: "sys_event \<Rightarrow> bool" where
  "is_arrival (Arrive h) = True"
| "is_arrival _ = False"

text \<open>The initial state: the listen gate closed, no thread inside \<open>doAccept\<close>, nothing
  allocated, no request pending, the ghost counters at zero. The Java heap (the service
  sockets), the open sockets and the handle slot are arbitrary.\<close>

definition sys_init :: "sys_state \<Rightarrow> bool" where
  "sys_init s \<longleftrightarrow>
     listen_sem s = \<lparr>sem_count = 0, sem_live = True\<rparr> \<and> \<not> reentrance_locked s \<and>
     frames s = Map.empty \<and> heap s = Map.empty \<and> heap_top s = 0 \<and> llcp_pending (llcp s) = [] \<and>
     (\<forall>t. threads s t = Idle) \<and> callbacks s = [] \<and> delivered s = Map.empty \<and>
     stale_writes s = 0 \<and> listen_posts s = 0 \<and> listen_passed s = 0 \<and> leaked_sems s = 0"

text \<open>The process at start, for a set of open sockets and the Java objects already
  allocated (the service sockets), at references \<open>0, 1, \<dots>\<close>.\<close>

definition sys_start :: "phLibNfc_Handle set \<Rightarrow> jobj list \<Rightarrow> sys_state" where
  "sys_start socks objs =
     \<lparr>listen_sem = \<lparr>sem_count = 0, sem_live = True\<rparr>, hIncommingLlcpSocket = 0,
      reentrance_locked = False, frames = Map.empty, heap = Map.empty, heap_top = 0,
      llcp = \<lparr>llcp_pending = [], llcp_sockets = socks, llcp_conn_buf = Map.empty\<rparr>,
      jheap = (\<lambda>i. if i < length objs then Some (objs ! i) else None), jheap_top = length objs,
      leaked_sems = 0, listen_passed = 0,
      threads = (\<lambda>_. Idle), callbacks = [], delivered = Map.empty, stale_writes = 0,
      listen_posts = 0\<rparr>"

text \<open>Reachable states under the events that \<open>ok\<close> allows: all events, or only those
  of nominal runs, in which no blocked \<open>sem_wait\<close> is interrupted and the transport
  completes every request it accepted instead of giving it up with an error.\<close>

inductive reach :: "(sys_event \<Rightarrow> bool) \<Rightarrow> sys_state \<Rightarrow> bool" for ok where
  reach_init: "sys_init s \<Longrightarrow> reach ok s"
| reach_step: "reach ok s \<Longrightarrow> ok e \<Longrightarrow> sys_next e s = Some s' \<Longrightarrow> reach ok s'"

fun nominal :: "sys_event \<Rightarrow> bool" where
  "nominal (Resume t env) = (\<not> env_intr env)"
| "nominal (Error i code) = False"
| "nominal _ = True"

abbreviation reachable :: "sys_state \<Rightarrow> bool" where
  "reachable \<equiv> reach (\<lambda>_. True)"

text \<open>The handshake between a thread blocked at line 95 and the transport. The signals
  still to come for a context: the pending requests that carry it and the callbacks
  running on it. In nominal runs, every context with a signal to come
  belongs to a thread blocked at line 95; that thread's semaphore count and its signals
  to come add up to one; the status slot is written before the post, with the status
  the transport completed the request with; and no two threads share a frame.\<close>

definition signals :: "sys_state \<Rightarrow> ptr \<Rightarrow> nat" where
  "signals s p = count (pending_ctxs (llcp s)) p + count (mset (map fst (callbacks s))) p"

fun wait_ok :: "sys_state \<Rightarrow> accept_pc \<Rightarrow> bool" where
  "wait_ok s (AtListenWait p _ _ _) = (frames s p \<noteq> None \<and> signals s p = 0)"
| "wait_ok s (AtCallbackWait p _ _ _) =
     (case frames s p of
        None \<Rightarrow> False
      | Some d \<Rightarrow> sem_count (cb_sem d) + signals s p = 1 \<and>
          (\<forall>st. (p, [SetStatus st, PostSem]) \<in> set (callbacks s) \<longrightarrow> delivered s p = Some st) \<and>
          ((p, [PostSem]) \<in> set (callbacks s) \<or> 0 < sem_count (cb_sem d) \<longrightarrow>
             cb_status d = delivered s p \<and> delivered s p \<noteq> None))"
| "wait_ok s _ = True"

definition handshake_inv :: "sys_state \<Rightarrow> bool" where
  "handshake_inv s \<longleftrightarrow>
     (\<forall>p body. (p, body) \<in> set (callbacks s) \<longrightarrow> body = [PostSem] \<or> (\<exists>st. body = [SetStatus st, PostSem])) \<and>
     (\<forall>t. wait_ok s (threads s t)) \<and>
     (\<forall>p. 0 < signals s p \<longrightarrow> (\<exists>t buf miu rw. threads s t = AtCallbackWait p buf miu rw)) \<and>
     (\<forall>t t' p. pc_frame (threads s t) = Some p \<longrightarrow> pc_frame (threads s t') = Some p \<longrightarrow> t = t') \<and>
     stale_writes s = 0"

text \<open>Whether an event interrupts the blocked \<open>sem_wait\<close> of thread \<open>t\<close>.\<close>

fun interrupts :: "tid \<Rightarrow> sys_event \<Rightarrow> bool" where
  "interrupts t (Resume t' env) = (t' = t \<and> env_intr env)"
| "interrupts t _ = False"

text \<open>Thread \<open>t\<close> is stranded at line 95 on frame \<open>p\<close>: its semaphore is empty, no
  request and no callback is left that could post it, and no other thread owns the
  frame.\<close>

definition stuck :: "tid \<Rightarrow> ptr \<Rightarrow> sys_state \<Rightarrow> bool" where
  "stuck t p s \<longleftrightarrow>
     (case threads s t of AtCallbackWait q buf miu rw \<Rightarrow> q = p | _ \<Rightarrow> False) \<and>
     (case frames s p of Some d \<Rightarrow> sem_count (cb_sem d) = 0 | None \<Rightarrow> False) \<and>
     signals s p = 0 \<and> (\<forall>t'. pc_frame (threads s t') = Some p \<longrightarrow> t' = t)"

text \<open>The events of the transport alone: completions and callback statements.\<close>

fun transport_event :: "sys_event \<Rightarrow> bool" where
  "transport_event (Complete i st) = True"
| "transport_event (RunCallback j) = True"
| "transport_event _ = False"

lemmas system_defs [nfc_simps] = close_receiver_def
  thread_enter_def thread_resume_def listen_notify_def transport_complete_def transport_error_def
  write_ctx_def callback_step_def sys_init_def

section \<open>Runs and reachability\<close>

lemma sys_init_start: "sys_init (sys_start socks objs)"
  by (simp add: sys_init_def sys_start_def)

lemma reach_run:
  "reach ok s \<Longrightarrow> list_all ok es \<Longrightarrow> sys_run es s = Some s' \<Longrightarrow> reach ok s'"
proof (induction es arbitrary: s)
  case Nil
  then show ?case by simp
next
  case (Cons e es)
  from Cons.prems obtain s1 where s1: "sys_next e s = Some s1" and r: "sys_run es s1 = Some s'"
    by (auto split: option.splits)
  from Cons.prems(1,2) s1 have "reach ok s1" by (auto intro: reach_step)
  with Cons.IH Cons.prems(2) r show ?case by simp
qed

lemma sys_run_append:
  "sys_run (xs @ ys) s = (case sys_run xs s of None \<Rightarrow> None | Some s' \<Rightarrow> sys_run ys s')"
  by (induction xs arbitrary: s) (auto split: option.splits)

lemma reach_start_run:
  "list_all ok es \<Longrightarrow> sys_run es (sys_start socks objs) = Some s' \<Longrightarrow> reach ok s'"
  by (rule reach_run [OF reach_init [OF sys_init_start]])

text \<open>A property evaluated on a concrete run from a start state holds of a reachable state.\<close>

lemma run_reach_ex:
  "\<exists>S. sys_run es (sys_start socks objs) = Some S \<and> P S \<Longrightarrow> list_all ok es \<Longrightarrow>
   \<exists>S. sys_run es (sys_start socks objs) = Some S \<and> reach ok S \<and> P S"
  using reach_start_run by blast

lemma sys_close:
  "(if close_receiver jo s then map_option snd (doClose jo s) else None) = Some s' \<Longrightarrow>
   \<exists>r. doClose jo s = Some (r, s')"
  by (auto split: if_splits)

section \<open>Frame lemmas of the events\<close>

lemma more_threads:
  fixes s s' :: sys_state
  assumes "nfc_state.more s' = nfc_state.more s"
  shows "threads s' = threads s \<and> callbacks s' = callbacks s \<and> delivered s' = delivered s \<and>
         stale_writes s' = stale_writes s \<and> listen_posts s' = listen_posts s"
  using assms by (cases s, cases s') simp

lemma accept_step_gate:
  assumes "accept_step env pc s = Some (pc', s')"
  shows "sem_count (listen_sem s') + listen_passed s' = sem_count (listen_sem s) + listen_passed s
         \<and> nfc_state.more s' = nfc_state.more s"
proof (cases pc)
  case (AtListenWait p miu rw lbl)
  with assms have w: "doAccept_wait_listen env p miu rw lbl s = Some (pc', s')" by simp
  from doAccept_wait_listen_outcome [OF w] show ?thesis
  proof
    assume "sem_count (listen_sem s) = 0 \<and> env_intr env \<and> doAccept_return p None False s = (pc', s')"
    with AtListenWait show ?thesis by (auto dest!: doAccept_return_more)
  next
    assume "0 < sem_count (listen_sem s) \<and> doAccept_setup env p miu rw lbl
           (s\<lparr>listen_sem := (listen_sem s)\<lparr>sem_count := sem_count (listen_sem s) - 1\<rparr>\<rparr>) = (pc', s')"
    with AtListenWait show ?thesis by (auto dest!: doAccept_setup_outcome)
  qed
next
  case (AtCallbackWait p buf miu rw)
  with assms show ?thesis by (auto dest!: doAccept_wait_callback_frame)
qed (use assms in simp_all)

lemma write_ctx_shared [simp]:
  "listen_sem (write_ctx p c s) = listen_sem s" "listen_posts (write_ctx p c s) = listen_posts s"
  "listen_passed (write_ctx p c s) = listen_passed s" "llcp (write_ctx p c s) = llcp s"
  "threads (write_ctx p c s) = threads s" "callbacks (write_ctx p c s) = callbacks s"
  "reentrance_locked (write_ctx p c s) = reentrance_locked s" "heap (write_ctx p c s) = heap s"
  "delivered (write_ctx p c s) = delivered s" "heap_top (write_ctx p c s) = heap_top s"
  by (simp_all add: write_ctx_def split: option.splits)

lemma callback_step_shared:
  assumes "callback_step j s = Some s'"
  shows "listen_sem s' = listen_sem s \<and> listen_posts s' = listen_posts s \<and> listen_passed s' = listen_passed s \<and>
         llcp s' = llcp s \<and> threads s' = threads s \<and> reentrance_locked s' = reentrance_locked s \<and>
         heap s' = heap s \<and> heap_top s' = heap_top s \<and> delivered s' = delivered s \<and>
         jheap s' = jheap s \<and> jheap_top s' = jheap_top s \<and> hIncommingLlcpSocket s' = hIncommingLlcpSocket s"
  using assms by (auto simp: callback_step_def Let_def write_ctx_def split: if_splits prod.splits list.splits option.splits)

text \<open>A step of a \<open>doAccept\<close> thread touches only its own frame: every other frame,
  and the pending requests for every other context, stay as they are.\<close>

lemma accept_step_local:
  assumes "accept_step env pc s = Some (pc', s')" "pc_frame pc = Some q" "p \<noteq> q"
  shows "frames s' p = frames s p \<and> count (pending_ctxs (llcp s')) p = count (pending_ctxs (llcp s)) p \<and>
         pc_frame pc' \<noteq> Some p \<and> nfc_state.more s' = nfc_state.more s"
  using assms
  by (cases pc) (auto simp: service_socket_defs sem_defs callback_defs transport_defs pending_ctxs_def Let_def
      split: if_splits option.splits sem_wait_result.splits prod.splits)

text \<open>A transport error changes nothing but the queue of the transport: the error
  callback leaves the completion context alone.\<close>

lemma transport_error_outcome:
  "transport_error i code s = Some s' \<Longrightarrow> \<exists>op tr. llcp_abort i (llcp s) = Some (op, tr) \<and> s' = s\<lparr>llcp := tr\<rparr>"
  by (auto simp: transport_error_def nfc_jni_llcp_transport_socket_err_callback_def split: option.splits)

lemma sys_next_heap:
  "sys_next e s = Some s' \<Longrightarrow>
   heap s' = heap s \<and> heap_top s' = heap_top s \<or>
   (\<exists>n. heap s' = (heap s)(heap_top s \<mapsto> n) \<and> heap_top s' = Suc (heap_top s))"
proof (cases e)
  case (Resume t env)
  assume "sys_next e s = Some s'"
  with Resume obtain pc s1 where st: "accept_step env (threads s t) s = Some (pc, s1)"
    and h: "heap s' = heap s1" "heap_top s' = heap_top s1"
    by (auto simp: thread_resume_def split: option.splits)
  from accept_step_heap [OF st] show ?thesis by (simp add: h)
qed (auto simp: thread_enter_def doAccept_enter_def set_frame_def listen_notify_def
      transport_complete_def dest!: sys_close doClose_outcome callback_step_shared transport_error_outcome
      split: if_splits option.splits)

section \<open>The listen gate\<close>

text \<open>C6: every post of the listen semaphore lets exactly one \<open>doAccept\<close> call pass
  line 58, once: the units in the semaphore and the calls that passed add up to the
  arrivals signalled. In particular no more calls pass the gate than connections
  arrive.\<close>

theorem listen_gate_conservation:
  "reach ok s \<Longrightarrow> sem_count (listen_sem s) + listen_passed s = listen_posts s"
proof (induction rule: reach.induct)
  case (reach_init s)
  then show ?case by (simp add: sys_init_def)
next
  case (reach_step s e s')
  show ?case
  proof (cases e)
    case (Enter t p miu rw lbl)
    with reach_step show ?thesis
      by (auto simp: thread_enter_def doAccept_enter_def set_frame_def split: if_splits)
  next
    case (Resume t env)
    with reach_step obtain pc s1 where st: "accept_step env (threads s t) s = Some (pc, s1)"
      and s': "s' = s1\<lparr>threads := (threads s1)(t := pc)\<rparr>"
      by (auto simp: thread_resume_def split: option.splits)
    from accept_step_gate [OF st] more_threads [of s1 s] reach_step.IH s' show ?thesis by auto
  next
    case (Close jo)
    with reach_step show ?thesis by (auto dest!: sys_close doClose_outcome)
  next
    case (Arrive h)
    with reach_step show ?thesis by (auto simp: listen_notify_def)
  next
    case (Complete i st)
    with reach_step show ?thesis by (auto simp: transport_complete_def split: option.splits)
  next
    case (RunCallback j)
    with reach_step show ?thesis by (auto dest!: callback_step_shared)
  next
    case (Error i code)
    with reach_step show ?thesis by (auto dest!: transport_error_outcome)
  qed
qed

theorem listen_gate_conservation_witness:
  "\<exists>S. sys_run [Arrive 7, Enter 0 0 128 1 0, Resume 0 env_nominal] (sys_start {7} []) = Some S \<and>
       reachable S \<and> listen_passed S = 1 \<and> sem_count (listen_sem S) + listen_passed S = listen_posts S"
proof -
  let ?run = "sys_run [Arrive 7, Enter 0 0 128 1 0, Resume 0 env_nominal] (sys_start {7} [])"
  have ev: "\<exists>S. ?run = Some S \<and> listen_passed S = 1"
    by (simp add: nfc_simps sys_start_def Let_def)
  then obtain S where S: "?run = Some S" and p: "listen_passed S = 1" by blast
  have r: "reachable S" by (rule reach_start_run [OF _ S]) simp
  with S p listen_gate_conservation [OF r] show ?thesis by blast
qed

text \<open>C7: one arrival releases exactly one waiter. With the listen gate closed, calls
  blocked at line 58 stay blocked; after one post of the gate, the first of two waiting
  calls to resume passes line 58 and the other stays blocked, whatever the first call
  does after the gate.\<close>

theorem one_post_releases_one_waiter:
  assumes gate: "sem_count (listen_sem s) = 0"
    and w1: "threads s t1 = AtListenWait p1 m1 r1 l1" and w2: "threads s t2 = AtListenWait p2 m2 r2 l2"
    and d: "t1 \<noteq> t2" and i1: "\<not> env_intr ge" and i2: "\<not> env_intr we"
    and ok: "env_sem_init ge" "env_reply ge = NFCSTATUS_PENDING"
  shows "sys_next (Resume t1 ge) s = None \<and> sys_next (Resume t2 we) s = None \<and>
         (\<exists>s' buf. sys_run [Arrive h, Resume t1 ge] s = Some s' \<and> threads s' t1 = AtCallbackWait p1 buf m1 r1 \<and>
            llcp_pending (llcp s') = llcp_pending (llcp s) @
              [\<lparr>acc_socket = h, acc_opts = \<lparr>opt_miu = ucast m1, opt_rw = ucast r1\<rparr>,
                acc_buf = buf, acc_len = working_buffer_length m1 r1 l1, acc_ctx = p1\<rparr>] \<and>
            threads s' t2 = threads s t2 \<and> sys_next (Resume t2 we) s' = None)"
proof -
  have blocked: "thread_resume t env s0 = None"
    if "sem_count (listen_sem s0) = 0" "threads s0 t = AtListenWait p m r l" "\<not> env_intr env"
    for t env p m r l and s0 :: sys_state
    using that by (simp add: thread_resume_def doAccept_wait_listen_def sem_wait_def)
  define s1 where "s1 = listen_notify h s"
  let ?s1' = "s1\<lparr>listen_sem := (listen_sem s1)\<lparr>sem_count := sem_count (listen_sem s1) - 1\<rparr>\<rparr>"
  have c1: "sem_count (listen_sem s1) = 1" and t1: "threads s1 t1 = AtListenWait p1 m1 r1 l1"
    and t2: "threads s1 t2 = threads s t2" and h1: "hIncommingLlcpSocket s1 = h"
    and pe1: "llcp_pending (llcp s1) = llcp_pending (llcp s)"
    using w1 gate by (simp_all add: s1_def listen_notify_def llcp_incoming_def)
  obtain pc s2 where su: "doAccept_setup ge p1 m1 r1 l1 ?s1' = (pc, s2)" by fastforce
  have st: "accept_step ge (threads s1 t1) s1 = Some (pc, s2)"
    using t1 c1 su by (simp add: doAccept_wait_listen_def sem_wait_def)
  from doAccept_setup_waits [OF ok, of p1 m1 r1 l1 ?s1'] su obtain buf where pc: "pc = AtCallbackWait p1 buf m1 r1" by auto
  with doAccept_setup_outcome [OF su] h1 pe1
  have pe2: "llcp_pending (llcp s2) = llcp_pending (llcp s) @
              [\<lparr>acc_socket = h, acc_opts = \<lparr>opt_miu = ucast m1, opt_rw = ucast r1\<rparr>,
                acc_buf = buf, acc_len = working_buffer_length m1 r1 l1, acc_ctx = p1\<rparr>]"
    and c2: "sem_count (listen_sem s2) = 0" using c1 by auto
  from accept_step_gate [OF st] more_threads [of s2 s1] have th2: "threads s2 = threads s1" by simp
  define s' where "s' = s2\<lparr>threads := (threads s2)(t1 := pc)\<rparr>"
  have run: "sys_run [Arrive h, Resume t1 ge] s = Some s'"
    using st by (simp add: s1_def [symmetric] thread_resume_def s'_def)
  have "threads s' t2 = threads s t2" using d th2 t2 by (simp add: s'_def)
  moreover have "sys_next (Resume t2 we) s' = None"
    using blocked [of s' t2 p2 m2 r2 l2 we] c2 w2 i2 \<open>threads s' t2 = threads s t2\<close> by (simp add: s'_def)
  moreover have "threads s' t1 = AtCallbackWait p1 buf m1 r1" by (simp add: s'_def pc)
  ultimately show ?thesis using run pe2 blocked [OF gate w1 i1] blocked [OF gate w2 i2] by (auto simp: s'_def)
qed

theorem one_post_releases_one_waiter_witness:
  "\<exists>S. sys_run [Enter 0 0 128 1 0, Enter 1 1 128 1 0] (sys_start {7} []) = Some S \<and>
     sys_next (Resume 0 env_nominal) S = None \<and> sys_next (Resume 1 env_nominal) S = None \<and>
     (\<exists>s' buf. sys_run [Arrive 7, Resume 0 env_nominal] S = Some s' \<and> threads s' 0 = AtCallbackWait 0 buf 128 1 \<and>
        map acc_socket (llcp_pending (llcp s')) = [7] \<and> sys_next (Resume 1 env_nominal) s' = None)"
proof -
  obtain S where S: "sys_run [Enter 0 0 128 1 0, Enter 1 1 128 1 0] (sys_start {7} []) = Some S"
    and c: "sem_count (listen_sem S) = 0" and pe: "llcp_pending (llcp S) = []"
    and w0: "threads S 0 = AtListenWait 0 128 1 0" and w1: "threads S 1 = AtListenWait 1 128 1 0"
    by (simp add: nfc_simps sys_start_def Let_def)
  have i: "\<not> env_intr env_nominal" "env_sem_init env_nominal" "env_reply env_nominal = NFCSTATUS_PENDING"
    by (simp_all add: env_nominal_def)
  from one_post_releases_one_waiter [OF c w0 w1 zero_neq_one i(1) i(1) i(2,3), of 7] S pe show ?thesis by auto
qed

section \<open>The reentrance lock\<close>

text \<open>C16: in every reachable state, under any interleaving, with interrupted waits and transport errors,
  the reentrance lock is free: \<open>doAccept\<close> releases it before it blocks or returns and
  \<open>doClose\<close> before it returns, so a blocked accept never holds up another call into
  the transport.\<close>

theorem reentrance_lock_released: "reach ok s \<Longrightarrow> \<not> reentrance_locked s"
proof (induction rule: reach.induct)
  case (reach_init s)
  then show ?case by (simp add: sys_init_def)
next
  case (reach_step s e s')
  then show ?case
  proof (cases e)
    case (Resume t env)
    with reach_step show ?thesis
      by (auto simp: thread_resume_def dest: accept_step_unlocked split: option.splits)
  qed (auto simp: thread_enter_def doAccept_enter_def set_frame_def listen_notify_def
        transport_complete_def doClose_unlocked dest!: sys_close callback_step_shared transport_error_outcome
        split: if_splits option.splits)
qed

theorem reentrance_lock_released_witness:
  "\<exists>S. sys_run [Arrive 7, Enter 0 0 128 1 0, Resume 0 env_nominal, Close 0] (sys_start {3}
        [\<lparr>jclass = NativeLlcpServiceSocket, mHandle = 3, mLocalMiu = 128, mLocalRw = 1\<rparr>]) = Some S \<and>
     \<not> reentrance_locked S"
proof -
  let ?es = "[Arrive 7, Enter 0 0 128 1 0, Resume 0 env_nominal, Close 0]"
  let ?s0 = "sys_start {3} [\<lparr>jclass = NativeLlcpServiceSocket, mHandle = 3, mLocalMiu = 128, mLocalRw = 1\<rparr>]"
  obtain S where S: "sys_run ?es ?s0 = Some S"
    by (simp add: nfc_simps sys_start_def Let_def)
  have "reachable S" by (rule reach_start_run [OF _ S]) simp
  with S reentrance_lock_released show ?thesis by blast
qed

section \<open>The malloc heap\<close>

text \<open>C17: no event ever frees a block: in every reachable state, under any interleaving and
  with interrupted waits and transport errors, every working buffer allocated so far is still allocated.
  The code has no \<open>free\<close>; the buffers of failed calls are never reclaimed.\<close>

theorem heap_never_freed: "reach ok s \<Longrightarrow> dom (heap s) = {..<heap_top s}"
proof (induction rule: reach.induct)
  case (reach_init s)
  then show ?case by (simp add: sys_init_def)
next
  case (reach_step s e s')
  from sys_next_heap [OF reach_step.hyps(3)] show ?case
  proof
    assume "heap s' = heap s \<and> heap_top s' = heap_top s"
    with reach_step.IH show ?thesis by simp
  next
    assume "\<exists>n. heap s' = (heap s)(heap_top s \<mapsto> n) \<and> heap_top s' = Suc (heap_top s)"
    then obtain n where "heap s' = (heap s)(heap_top s \<mapsto> n)" "heap_top s' = Suc (heap_top s)" by blast
    with dom_bump [OF reach_step.IH, of n] show ?thesis by (simp only:)
  qed
qed

theorem heap_never_freed_witness:
  "\<exists>S. sys_run [Arrive 7, Enter 0 0 128 1 0, Resume 0 env_nominal, Resume 0 (env_nominal\<lparr>env_intr := True\<rparr>)]
        (sys_start {7} []) = Some S \<and> threads S 0 = Returned None False \<and> dom (heap S) = {0}"
proof -
  let ?es = "[Arrive 7, Enter 0 0 128 1 0, Resume 0 env_nominal, Resume 0 (env_nominal\<lparr>env_intr := True\<rparr>)]"
  obtain S where S: "sys_run ?es (sys_start {7} []) = Some S" and r: "threads S 0 = Returned None False \<and> heap_top S = 1"
    by (simp add: nfc_simps sys_start_def Let_def)
  have "reachable S" by (rule reach_start_run [OF _ S]) simp
  with heap_never_freed have "dom (heap S) = {..<1}" using r by simp
  with S r show ?thesis by auto
qed
section \<open>The accept handshake in nominal runs\<close>

lemma thread_resume_shared:
  assumes "thread_resume t env s = Some s'"
  shows "\<exists>pc s1. accept_step env (threads s t) s = Some (pc, s1) \<and> threads s' = (threads s)(t := pc) \<and>
     callbacks s' = callbacks s \<and> delivered s' = delivered s \<and> stale_writes s' = stale_writes s \<and>
     frames s' = frames s1 \<and> llcp s' = llcp s1"
proof -
  from assms obtain pc s1 where st: "accept_step env (threads s t) s = Some (pc, s1)"
    and s': "s' = s1\<lparr>threads := (threads s1)(t := pc)\<rparr>"
    by (auto simp: thread_resume_def split: option.splits)
  from accept_step_gate [OF st] more_threads [of s1 s] s' st show ?thesis by auto
qed

lemma resume_listen_cases:
  assumes "doAccept_wait_listen env p miu rw lbl s = Some (pc, s1)" and "\<not> env_intr env"
  shows "(\<exists>r e. pc = Returned r e) \<and> frames s1 = (frames s)(p := None) \<and> llcp_pending (llcp s1) = llcp_pending (llcp s)
     \<or> (\<exists>buf. pc = AtCallbackWait p buf miu rw \<and>
          frames s1 = (frames s)(p \<mapsto> (frame_of s p)\<lparr>cb_sem := \<lparr>sem_count = 0, sem_live = True\<rparr>, cb_status := None\<rparr>) \<and>
          llcp_pending (llcp s1) = llcp_pending (llcp s) @
             [\<lparr>acc_socket = hIncommingLlcpSocket s, acc_opts = \<lparr>opt_miu = ucast miu, opt_rw = ucast rw\<rparr>,
               acc_buf = buf, acc_len = working_buffer_length miu rw lbl, acc_ctx = p\<rparr>])"
proof -
  from doAccept_wait_listen_outcome [OF assms(1)] assms(2)
  have su: "doAccept_setup env p miu rw lbl
           (s\<lparr>listen_sem := (listen_sem s)\<lparr>sem_count := sem_count (listen_sem s) - 1\<rparr>\<rparr>) = (pc, s1)" by auto
  have fo: "frame_of (s\<lparr>listen_sem := l\<rparr>) p = frame_of s p" for l by (simp add: frame_of_def)
  from doAccept_setup_outcome [OF su] fo show ?thesis by (auto simp: fun_eq_iff)
qed

lemma wait_ok_cong:
  assumes "\<And>p. pc_frame pc = Some p \<Longrightarrow> frames s' p = frames s p \<and> signals s' p = signals s p \<and>
              delivered s' p = delivered s p \<and> (\<forall>b. (p, b) \<in> set (callbacks s') \<longleftrightarrow> (p, b) \<in> set (callbacks s))"
  shows "wait_ok s' pc = wait_ok s pc"
  using assms by (cases pc) (auto split: option.splits)

lemma handshake_invI:
  assumes "\<And>p body. (p, body) \<in> set (callbacks s) \<Longrightarrow> body = [PostSem] \<or> (\<exists>st. body = [SetStatus st, PostSem])"
    and "\<And>t. wait_ok s (threads s t)"
    and "\<And>p. 0 < signals s p \<Longrightarrow> \<exists>t buf miu rw. threads s t = AtCallbackWait p buf miu rw"
    and "\<And>t t' p. pc_frame (threads s t) = Some p \<Longrightarrow> pc_frame (threads s t') = Some p \<Longrightarrow> t = t'"
    and "stale_writes s = 0"
  shows "handshake_inv s"
  using assms unfolding handshake_inv_def by blast

lemma hs_shape:
  "handshake_inv s \<Longrightarrow> (p, body) \<in> set (callbacks s) \<Longrightarrow> body = [PostSem] \<or> (\<exists>st. body = [SetStatus st, PostSem])"
  unfolding handshake_inv_def by blast

lemma hs_distinct:
  "handshake_inv s \<Longrightarrow> pc_frame (threads s t) = Some p \<Longrightarrow> pc_frame (threads s t') = Some p \<Longrightarrow> t = t'"
  unfolding handshake_inv_def by blast

lemma hs_stale: "handshake_inv s \<Longrightarrow> stale_writes s = 0"
  by (simp add: handshake_inv_def)

lemma hs_owner:
  assumes "handshake_inv s" and "0 < signals s p"
  shows "\<exists>t buf miu rw. threads s t = AtCallbackWait p buf miu rw"
  using assms unfolding handshake_inv_def by blast

lemma hs_wait_ok: "handshake_inv s \<Longrightarrow> wait_ok s (threads s t)"
  by (simp add: handshake_inv_def)

lemma wait_ok_away:
  assumes inv: "handshake_inv s" and th: "threads s' u = threads s u"
    and away: "\<And>q. pc_frame (threads s u) = Some q \<Longrightarrow> q \<noteq> p"
    and same: "\<And>q. q \<noteq> p \<Longrightarrow> frames s' q = frames s q \<and> signals s' q = signals s q \<and>
                 delivered s' q = delivered s q \<and> (\<forall>b. (q, b) \<in> set (callbacks s') \<longleftrightarrow> (q, b) \<in> set (callbacks s))"
  shows "wait_ok s' (threads s' u)"
proof -
  have "wait_ok s' (threads s u) = wait_ok s (threads s u)"
    by (rule wait_ok_cong) (rule same, erule away)
  with hs_wait_ok [OF inv, of u] th show ?thesis by simp
qed

lemma hs_keep_threads:
  assumes inv: "handshake_inv s" and th: "threads s' = threads s" and sw: "stale_writes s' = 0"
    and shape: "\<And>q b. (q, b) \<in> set (callbacks s') \<Longrightarrow> b = [PostSem] \<or> (\<exists>st. b = [SetStatus st, PostSem])"
    and sig: "\<And>q. signals s' q \<le> signals s q"
    and ok: "\<And>u. wait_ok s' (threads s' u)"
  shows "handshake_inv s'"
proof (rule handshake_invI [OF shape ok _ _ sw])
  show "\<exists>t buf miu rw. threads s' t = AtCallbackWait q buf miu rw" if "0 < signals s' q" for q
    using hs_owner [OF inv, of q] sig [of q] that th by simp
  show "t = t'" if "pc_frame (threads s' t) = Some q" "pc_frame (threads s' t') = Some q" for t t' q
    using hs_distinct [OF inv, of t q t'] that th by simp
qed

lemma signals_owner_frame:
  assumes "handshake_inv s" and "0 < signals s p"
  shows "frames s p \<noteq> None"
proof -
  from assms obtain t buf miu rw where "threads s t = AtCallbackWait p buf miu rw"
    unfolding handshake_inv_def by blast
  moreover from assms(1) have "wait_ok s (threads s t)" by (simp add: handshake_inv_def)
  ultimately show ?thesis by (auto split: option.splits)
qed

lemma thread_frame_live:
  assumes "handshake_inv s" and "pc_frame (threads s t) = Some p"
  shows "frames s p \<noteq> None"
proof -
  from assms(1) have "wait_ok s (threads s t)" by (simp add: handshake_inv_def)
  with assms(2) show ?thesis by (cases "threads s t") (auto split: option.splits)
qed

lemma hs_enter:
  assumes inv: "handshake_inv s" and st: "thread_enter t p miu rw lbl s = Some s'"
  shows "handshake_inv s'"
proof -
  from st have idle: "accept_idle (threads s t)" and free: "frames s p = None"
    and s': "s' = s\<lparr>frames := (frames s)(p \<mapsto> cb_data_uninit), threads := (threads s)(t := AtListenWait p miu rw lbl)\<rparr>"
    by (auto simp: thread_enter_def doAccept_enter_def set_frame_def split: if_splits)
  have sig: "signals s' q = signals s q" for q by (simp add: s' signals_def)
  have f: "frames s' = (frames s)(p \<mapsto> cb_data_uninit)" "threads s' = (threads s)(t := AtListenWait p miu rw lbl)"
    "callbacks s' = callbacks s" "delivered s' = delivered s" "stale_writes s' = stale_writes s"
    by (simp_all add: s')
  have sp: "signals s p = 0" using signals_owner_frame [OF inv] free by blast
  have other: "pc_frame (threads s u) \<noteq> Some p" for u using thread_frame_live [OF inv, of u p] free by auto
  have tf: "pc_frame (threads s t) = None" using idle by (cases "threads s t") auto
  have ok: "wait_ok s' (threads s' u)" for u
  proof (cases "u = t")
    case True
    then show ?thesis by (simp add: f sig sp)
  next
    case False
    show ?thesis
    proof (rule wait_ok_away [OF inv])
      show "threads s' u = threads s u" using False by (simp add: f)
      show "q \<noteq> p" if "pc_frame (threads s u) = Some q" for q using that other [of u] False by auto
    qed (simp add: f sig)
  qed
  have own: "\<exists>u buf miu rw. threads s' u = AtCallbackWait q buf miu rw" if "0 < signals s' q" for q
  proof -
    from that hs_owner [OF inv, of q] obtain u buf miu' rw' where u: "threads s u = AtCallbackWait q buf miu' rw'"
      by (auto simp: sig)
    with idle have "u \<noteq> t" by auto
    with u show ?thesis by (auto simp: f)
  qed
  have dist: "u = u'" if "pc_frame (threads s' u) = Some q" "pc_frame (threads s' u') = Some q" for u u' q
  proof (cases "u = t"; cases "u' = t")
    assume "u \<noteq> t" "u' \<noteq> t"
    with that show ?thesis by (simp add: f hs_distinct [OF inv])
  next
    assume "u = t" "u' \<noteq> t"
    with that other [of u'] show ?thesis by (simp add: f)
  next
    assume "u \<noteq> t" "u' = t"
    with that other [of u] show ?thesis by (simp add: f)
  qed simp
  show ?thesis
    by (rule handshake_invI [OF _ ok own dist]) (use hs_shape [OF inv] hs_stale [OF inv] in \<open>simp_all add: f\<close>)
qed

lemma hs_pop:
  assumes inv: "handshake_inv s" and tp: "pc_frame (threads s t) = Some p" and sp: "signals s p = 0"
    and pc': "pc_frame pc' = None"
    and f: "threads s' = (threads s)(t := pc')" "frames s' = (frames s)(p := None)"
      "callbacks s' = callbacks s" "delivered s' = delivered s" "stale_writes s' = stale_writes s"
    and sig: "\<And>q. signals s' q = signals s q"
  shows "handshake_inv s'"
proof -
  have other: "pc_frame (threads s u) = Some q \<Longrightarrow> u \<noteq> t \<Longrightarrow> q \<noteq> p" for u q
    using hs_distinct [OF inv, of u q t] tp by auto
  have ok: "wait_ok s' (threads s' u)" for u
  proof (cases "u = t")
    case True
    with pc' show ?thesis by (cases pc') (simp_all add: f)
  next
    case False
    show ?thesis
    proof (rule wait_ok_away [OF inv])
      show "threads s' u = threads s u" using False by (simp add: f)
      show "q \<noteq> p" if "pc_frame (threads s u) = Some q" for q using that other False by auto
    qed (simp add: f sig)
  qed
  have own: "\<exists>u buf miu rw. threads s' u = AtCallbackWait q buf miu rw" if "0 < signals s' q" for q
  proof -
    from that hs_owner [OF inv, of q] obtain u buf miu rw where u: "threads s u = AtCallbackWait q buf miu rw"
      by (auto simp: sig)
    have "u \<noteq> t"
    proof
      assume "u = t"
      with u tp have "q = p" by simp
      with that sp show False by (simp add: sig)
    qed
    with u show ?thesis by (auto simp: f)
  qed
  have dist: "u = u'" if "pc_frame (threads s' u) = Some q" "pc_frame (threads s' u') = Some q" for u u' q
    using that pc' hs_distinct [OF inv, of u q u'] by (auto simp: f split: if_splits)
  show ?thesis
    by (rule handshake_invI [OF _ ok own dist]) (use hs_shape [OF inv] hs_stale [OF inv] in \<open>simp_all add: f\<close>)
qed

lemma signals_zero_no_callback:
  assumes "signals s p = 0"
  shows "(p, b) \<notin> set (callbacks s)"
proof
  assume "(p, b) \<in> set (callbacks s)"
  then have "p \<in> set (map fst (callbacks s))" by force
  then have "0 < count (mset (map fst (callbacks s))) p" by simp
  with assms show False by (simp add: signals_def)
qed

lemma hs_register:
  assumes inv: "handshake_inv s" and tp: "threads s t = AtListenWait p miu rw lbl"
    and f: "threads s' = (threads s)(t := AtCallbackWait p buf miu rw)"
      "frames s' = (frames s)(p \<mapsto> d)" "callbacks s' = callbacks s" "delivered s' = delivered s"
      "stale_writes s' = stale_writes s"
    and d: "sem_count (cb_sem d) = 0"
    and sig: "\<And>q. signals s' q = signals s q + (if q = p then 1 else 0)"
  shows "handshake_inv s'"
proof -
  have sp: "signals s p = 0" using hs_wait_ok [OF inv, of t] tp by simp
  have other: "pc_frame (threads s u) = Some q \<Longrightarrow> u \<noteq> t \<Longrightarrow> q \<noteq> p" for u q
    using hs_distinct [OF inv, of u q t] tp by auto
  have ok: "wait_ok s' (threads s' u)" for u
  proof (cases "u = t")
    case True
    with d sp show ?thesis by (simp add: f sig signals_zero_no_callback)
  next
    case False
    show ?thesis
    proof (rule wait_ok_away [OF inv])
      show "threads s' u = threads s u" using False by (simp add: f)
      show "q \<noteq> p" if "pc_frame (threads s u) = Some q" for q using that other False by auto
    qed (simp add: f sig)
  qed
  have own: "\<exists>u buf miu rw. threads s' u = AtCallbackWait q buf miu rw" if "0 < signals s' q" for q
  proof (cases "q = p")
    case True
    then show ?thesis by (auto simp: f)
  next
    case False
    from that False hs_owner [OF inv, of q] obtain u buf' miu' rw' where u: "threads s u = AtCallbackWait q buf' miu' rw'"
      by (auto simp: sig)
    with tp have "u \<noteq> t" by auto
    with u show ?thesis by (auto simp: f)
  qed
  have dist: "u = u'" if "pc_frame (threads s' u) = Some q" "pc_frame (threads s' u') = Some q" for u u' q
    using that tp other [of u q] other [of u' q] hs_distinct [OF inv, of u q u'] by (auto simp: f split: if_splits)
  show ?thesis
    by (rule handshake_invI [OF _ ok own dist]) (use hs_shape [OF inv] hs_stale [OF inv] in \<open>simp_all add: f\<close>)
qed

lemma hs_resume:
  assumes inv: "handshake_inv s" and ni: "\<not> env_intr env" and st: "thread_resume t env s = Some s'"
  shows "handshake_inv s'"
proof -
  from thread_resume_shared [OF st] obtain pc s1 where
    step: "accept_step env (threads s t) s = Some (pc, s1)" and
    f: "threads s' = (threads s)(t := pc)" "callbacks s' = callbacks s" "delivered s' = delivered s"
       "stale_writes s' = stale_writes s" "frames s' = frames s1" "llcp s' = llcp s1"
    by blast
  show ?thesis
  proof (cases "threads s t")
    case (AtListenWait p miu rw lbl)
    with step have w: "doAccept_wait_listen env p miu rw lbl s = Some (pc, s1)" by simp
    have sp: "signals s p = 0" using hs_wait_ok [OF inv, of t] AtListenWait by simp
    from resume_listen_cases [OF w ni] show ?thesis
    proof
      assume r: "(\<exists>r e. pc = Returned r e) \<and> frames s1 = (frames s)(p := None) \<and>
                 llcp_pending (llcp s1) = llcp_pending (llcp s)"
      show ?thesis
      proof (rule hs_pop [OF inv _ sp])
        show "pc_frame pc = None" using r by auto
        show "signals s' q = signals s q" for q using r by (simp add: signals_def pending_ctxs_def f)
      qed (use AtListenWait r in \<open>simp_all add: f\<close>)
    next
      assume "\<exists>buf. pc = AtCallbackWait p buf miu rw \<and>
          frames s1 = (frames s)(p \<mapsto> (frame_of s p)\<lparr>cb_sem := \<lparr>sem_count = 0, sem_live = True\<rparr>, cb_status := None\<rparr>) \<and>
          llcp_pending (llcp s1) = llcp_pending (llcp s) @
             [\<lparr>acc_socket = hIncommingLlcpSocket s, acc_opts = \<lparr>opt_miu = ucast miu, opt_rw = ucast rw\<rparr>,
               acc_buf = buf, acc_len = working_buffer_length miu rw lbl, acc_ctx = p\<rparr>]"
      then obtain buf where pc: "pc = AtCallbackWait p buf miu rw"
        and fr: "frames s1 = (frames s)(p \<mapsto> (frame_of s p)\<lparr>cb_sem := \<lparr>sem_count = 0, sem_live = True\<rparr>, cb_status := None\<rparr>)"
        and pe: "llcp_pending (llcp s1) = llcp_pending (llcp s) @
             [\<lparr>acc_socket = hIncommingLlcpSocket s, acc_opts = \<lparr>opt_miu = ucast miu, opt_rw = ucast rw\<rparr>,
               acc_buf = buf, acc_len = working_buffer_length miu rw lbl, acc_ctx = p\<rparr>]"
        by blast
      show ?thesis
      proof (rule hs_register [OF inv AtListenWait,
            where d = "(frame_of s p)\<lparr>cb_sem := \<lparr>sem_count = 0, sem_live = True\<rparr>, cb_status := None\<rparr>"])
        show "signals s' q = signals s q + (if q = p then 1 else 0)" for q
          using pe by (simp add: signals_def pending_ctxs_def f)
      qed (use pc fr in \<open>simp_all add: f\<close>)
    qed
  next
    case (AtCallbackWait p buf miu rw)
    with step have w: "doAccept_wait_callback env p miu rw s = Some (pc, s1)" by simp
    from doAccept_wait_callback_outcome [OF w] ni have pos: "0 < sem_count (cb_sem (frame_of s p))" by auto
    from hs_wait_ok [OF inv, of t] AtCallbackWait obtain d where
      d: "frames s p = Some d" and one: "sem_count (cb_sem d) + signals s p = 1"
      by (auto split: option.splits)
    from pos d one have sp: "signals s p = 0" by (simp add: frame_of_def)
    from doAccept_wait_callback_frame [OF w] have
      r: "frames s1 = (frames s)(p := None) \<and> llcp s1 = llcp s \<and> (\<exists>r e. pc = Returned r e)" by simp
    show ?thesis
    proof (rule hs_pop [OF inv _ sp])
      show "pc_frame pc = None" using r by auto
      show "signals s' q = signals s q" for q using r by (simp add: signals_def f)
    qed (use AtCallbackWait r in \<open>simp_all add: f\<close>)
  qed (use step in simp_all)
qed

lemma hs_same:
  assumes inv: "handshake_inv s"
    and f: "threads s' = threads s" "frames s' = frames s" "callbacks s' = callbacks s"
      "delivered s' = delivered s" "stale_writes s' = stale_writes s"
      "pending_ctxs (llcp s') = pending_ctxs (llcp s)"
  shows "handshake_inv s'"
proof -
  have sig: "signals s' q = signals s q" for q by (simp add: signals_def f)
  have ok: "wait_ok s' (threads s' u)" for u
  proof -
    have "wait_ok s' (threads s u) = wait_ok s (threads s u)"
      by (rule wait_ok_cong) (simp add: f sig)
    with hs_wait_ok [OF inv, of u] show ?thesis by (simp add: f)
  qed
  show ?thesis
    by (rule hs_keep_threads [OF inv _ _ _ _ ok])
      (use hs_shape [OF inv] hs_stale [OF inv] in \<open>simp_all add: f sig\<close>)
qed

text \<open>The thread waiting on a context that still has a signal to come.\<close>

lemma hs_waiter:
  assumes inv: "handshake_inv s" and pos: "0 < signals s p"
  obtains t buf miu rw d where "threads s t = AtCallbackWait p buf miu rw" "frames s p = Some d"
    "sem_count (cb_sem d) + signals s p = 1"
    "\<forall>st. (p, [SetStatus st, PostSem]) \<in> set (callbacks s) \<longrightarrow> delivered s p = Some st"
    "(p, [PostSem]) \<in> set (callbacks s) \<or> 0 < sem_count (cb_sem d) \<longrightarrow> cb_status d = delivered s p \<and> delivered s p \<noteq> None"
proof -
  from hs_owner [OF inv pos] obtain t buf miu rw where t: "threads s t = AtCallbackWait p buf miu rw" by blast
  with hs_wait_ok [OF inv, of t] obtain d where a: "frames s p = Some d"
    "sem_count (cb_sem d) + signals s p = 1"
    "\<forall>st. (p, [SetStatus st, PostSem]) \<in> set (callbacks s) \<longrightarrow> delivered s p = Some st"
    "(p, [PostSem]) \<in> set (callbacks s) \<or> 0 < sem_count (cb_sem d) \<longrightarrow> cb_status d = delivered s p \<and> delivered s p \<noteq> None"
    by (auto split: option.splits)
  show ?thesis by (rule that [OF t a])
qed

lemma hs_other_frame:
  "handshake_inv s \<Longrightarrow> threads s t0 = AtCallbackWait p buf miu rw \<Longrightarrow> pc_frame (threads s u) = Some q \<Longrightarrow>
   u \<noteq> t0 \<Longrightarrow> q \<noteq> p"
  using hs_distinct [of s u q t0] by auto

lemma wait_ok_other_waiter:
  assumes inv: "handshake_inv s" and t0: "threads s t0 = AtCallbackWait p buf miu rw" and u: "u \<noteq> t0"
    and th: "threads s' u = threads s u"
    and same: "\<And>q. q \<noteq> p \<Longrightarrow> frames s' q = frames s q \<and> signals s' q = signals s q \<and>
                 delivered s' q = delivered s q \<and> (\<forall>b. (q, b) \<in> set (callbacks s') \<longleftrightarrow> (q, b) \<in> set (callbacks s))"
  shows "wait_ok s' (threads s' u)"
  by (rule wait_ok_away [OF inv th _ same]) (rule hs_other_frame [OF inv t0 _ u])

lemma hs_complete:
  assumes inv: "handshake_inv s" and st: "transport_complete i status s = Some s'"
  shows "handshake_inv s'"
proof -
  from st obtain op tr where c: "llcp_complete i status (llcp s) = Some (op, tr)"
    and s': "s' = s\<lparr>llcp := tr, callbacks := callbacks s @ [(acc_ctx op, nfc_jni_llcp_accept_socket_callback status)],
                     delivered := (delivered s)(acc_ctx op \<mapsto> status)\<rparr>"
    by (auto simp: transport_complete_def split: option.splits)
  define p where "p = acc_ctx op"
  have f: "threads s' = threads s" "frames s' = frames s" "callbacks s' = callbacks s @ [(p, [SetStatus status, PostSem])]"
    "delivered s' = (delivered s)(p \<mapsto> status)" "stale_writes s' = stale_writes s" "llcp s' = tr"
    by (simp_all add: s' p_def nfc_jni_llcp_accept_socket_callback_def)
  from complete_pending_ctxs [OF c] have pc: "pending_ctxs (llcp s) = add_mset p (pending_ctxs tr)"
    by (simp add: p_def)
  have sig: "signals s' q = signals s q" for q by (simp add: signals_def f pc)
  have pos: "0 < signals s p" by (simp add: signals_def pc)
  obtain t0 buf miu rw d where t0: "threads s t0 = AtCallbackWait p buf miu rw" and d: "frames s p = Some d"
    and one: "sem_count (cb_sem d) + signals s p = 1"
    by (rule hs_waiter [OF inv pos]) blast
  have cnt0: "sem_count (cb_sem d) = 0" and sp1: "signals s p = 1"
    using one pos by (simp_all add: signals_def pc)
  have nocb: "(p, b) \<notin> set (callbacks s)" for b
  proof
    assume "(p, b) \<in> set (callbacks s)"
    then have "p \<in> set (map fst (callbacks s))" by force
    then have "0 < count (mset (map fst (callbacks s))) p" by simp
    with one pc show False by (simp add: signals_def)
  qed
  have ok: "wait_ok s' (threads s' u)" for u
  proof (cases "u = t0")
    case True
    with t0 d cnt0 sp1 nocb show ?thesis by (auto simp: f sig)
  next
    case False
    show ?thesis by (rule wait_ok_other_waiter [OF inv t0 False]) (auto simp: f sig)
  qed
  show ?thesis
    by (rule hs_keep_threads [OF inv _ _ _ _ ok])
      (use hs_shape [OF inv] hs_stale [OF inv] in \<open>auto simp: f sig\<close>)
qed

text \<open>The callback a transport thread runs belongs to a waiter whose frame is live, and
  is the only signal left for it.\<close>

lemma hs_callback_entry:
  assumes inv: "handshake_inv s" and j: "j < length (callbacks s)" and cj: "callbacks s ! j = (p, c # cs)"
  obtains t0 buf miu rw d where "threads s t0 = AtCallbackWait p buf miu rw" "frames s p = Some d"
    "sem_count (cb_sem d) + signals s p = 1" "0 < signals s p"
    "\<forall>st. (p, [SetStatus st, PostSem]) \<in> set (callbacks s) \<longrightarrow> delivered s p = Some st"
    "(p, [PostSem]) \<in> set (callbacks s) \<or> 0 < sem_count (cb_sem d) \<longrightarrow>
       cb_status d = delivered s p \<and> delivered s p \<noteq> None"
    "count (mset (map fst (callbacks s))) p \<le> 1"
    "write_ctx p c s = s\<lparr>frames := (frames s)(p \<mapsto> cb_exec c d)\<rparr>"
proof -
  have "p \<in> set (map fst (callbacks s))" using j cj by (metis fst_conv length_map nth_map nth_mem)
  then have pos: "0 < signals s p" by (simp add: signals_def)
  from hs_waiter [OF inv pos] obtain t0 buf miu rw d where "threads s t0 = AtCallbackWait p buf miu rw"
    "frames s p = Some d" "sem_count (cb_sem d) + signals s p = 1"
    "\<forall>st. (p, [SetStatus st, PostSem]) \<in> set (callbacks s) \<longrightarrow> delivered s p = Some st"
    "(p, [PostSem]) \<in> set (callbacks s) \<or> 0 < sem_count (cb_sem d) \<longrightarrow>
       cb_status d = delivered s p \<and> delivered s p \<noteq> None" .
  with pos show ?thesis by (intro that) (simp_all add: signals_def write_ctx_def)
qed

lemma hs_callback_post:
  assumes inv: "handshake_inv s" and j: "j < length (callbacks s)" and cj: "callbacks s ! j = (p, [PostSem])"
    and s': "s' = (write_ctx p PostSem s)\<lparr>callbacks := take j (callbacks s) @ drop (Suc j) (callbacks s)\<rparr>"
  shows "handshake_inv s'"
proof -
  obtain t0 buf miu rw d where t0: "threads s t0 = AtCallbackWait p buf miu rw"
    and one: "sem_count (cb_sem d) + signals s p = 1" and pos: "0 < signals s p"
    and post: "(p, [PostSem]) \<in> set (callbacks s) \<or> 0 < sem_count (cb_sem d) \<longrightarrow>
                 cb_status d = delivered s p \<and> delivered s p \<noteq> None"
    and le1: "count (mset (map fst (callbacks s))) p \<le> 1"
    and wc: "write_ctx p PostSem s = s\<lparr>frames := (frames s)(p \<mapsto> cb_exec PostSem d)\<rparr>"
    by (rule hs_callback_entry [OF inv j cj])
  have fj: "fst (callbacks s ! j) = p" using cj by simp
  let ?r = "take j (callbacks s) @ drop (Suc j) (callbacks s)"
  have common: "threads s' = threads s" "delivered s' = delivered s" "stale_writes s' = stale_writes s"
    "llcp s' = llcp s" "frames s' = (frames s)(p \<mapsto> cb_exec PostSem d)"
    by (simp_all add: s' wc)
  have cb: "callbacks s' = ?r" by (simp add: s')
  have rm: "(q, b') \<in> set (callbacks s') \<longleftrightarrow> q \<noteq> p \<and> (q, b') \<in> set (callbacks s)" for q b'
    unfolding cb by (rule set_remove_fst_unique [OF le1 j fj])
  have msig: "add_mset p (mset (map fst ?r)) = mset (map fst (callbacks s))"
    using mset_map_remove_nth [OF j, of fst] fj by simp
  have sig: "signals s' q = (if q = p then signals s q - 1 else signals s q)" for q
  proof -
    have h: "count (mset (map fst (callbacks s))) q = count (mset (map fst ?r)) q + (if q = p then 1 else 0)"
      unfolding msig [symmetric] by simp
    show ?thesis by (cases "q = p") (use h in \<open>simp_all add: signals_def common cb\<close>)
  qed
  have ok: "wait_ok s' (threads s' u)" for u
  proof (cases "u = t0")
    case True
    have "(p, [PostSem]) \<in> set (callbacks s)" using j cj by (metis nth_mem)
    with post have "cb_status d = delivered s p \<and> delivered s p \<noteq> None" by simp
    with True t0 one pos show ?thesis by (simp add: common sig rm)
  next
    case False
    show ?thesis by (rule wait_ok_other_waiter [OF inv t0 False]) (simp_all add: common sig rm)
  qed
  show ?thesis
    by (rule hs_keep_threads [OF inv _ _ _ _ ok])
      (use hs_shape [OF inv] hs_stale [OF inv] rm in \<open>auto simp: common sig\<close>)
qed

lemma hs_callback_status:
  assumes inv: "handshake_inv s" and j: "j < length (callbacks s)"
    and cj: "callbacks s ! j = (p, [SetStatus stv, PostSem])"
    and s': "s' = (write_ctx p (SetStatus stv) s)\<lparr>callbacks := (callbacks s)[j := (p, [PostSem])]\<rparr>"
  shows "handshake_inv s'"
proof -
  obtain t0 buf miu rw d where t0: "threads s t0 = AtCallbackWait p buf miu rw"
    and one: "sem_count (cb_sem d) + signals s p = 1"
    and setst: "\<forall>st. (p, [SetStatus st, PostSem]) \<in> set (callbacks s) \<longrightarrow> delivered s p = Some st"
    and le1: "count (mset (map fst (callbacks s))) p \<le> 1"
    and wc: "write_ctx p (SetStatus stv) s = s\<lparr>frames := (frames s)(p \<mapsto> cb_exec (SetStatus stv) d)\<rparr>"
    by (rule hs_callback_entry [OF inv j cj])
  have fj: "fst (callbacks s ! j) = p" using cj by simp
  have common: "threads s' = threads s" "delivered s' = delivered s" "stale_writes s' = stale_writes s"
    "llcp s' = llcp s" "frames s' = (frames s)(p \<mapsto> cb_exec (SetStatus stv) d)"
    by (simp_all add: s' wc)
  have cb: "callbacks s' = (callbacks s)[j := (p, [PostSem])]" by (simp add: s')
  have up: "(q, b') \<in> set (callbacks s') \<longleftrightarrow> (if q = p then b' = [PostSem] else (q, b') \<in> set (callbacks s))" for q b'
    unfolding cb by (rule set_update_fst_unique [OF le1 j fj])
  have sig: "signals s' q = signals s q" for q
    by (simp add: signals_def common cb map_fst_update_same [OF j fj])
  have del: "delivered s p = Some stv" using setst j cj by (metis nth_mem)
  have ok: "wait_ok s' (threads s' u)" for u
  proof (cases "u = t0")
    case True
    with t0 one del show ?thesis by (simp add: common sig up)
  next
    case False
    show ?thesis by (rule wait_ok_other_waiter [OF inv t0 False]) (simp_all add: common sig up)
  qed
  show ?thesis
    by (rule hs_keep_threads [OF inv _ _ _ _ ok])
      (use hs_shape [OF inv] hs_stale [OF inv] up in \<open>auto simp: common sig split: if_splits\<close>)
qed

lemma hs_callback:
  assumes inv: "handshake_inv s" and st: "callback_step j s = Some s'"
  shows "handshake_inv s'"
proof -
  from st obtain p c cs where j: "j < length (callbacks s)" and cj: "callbacks s ! j = (p, c # cs)"
    and s': "s' = (write_ctx p c s)\<lparr>callbacks :=
               (if cs = [] then take j (callbacks s) @ drop (Suc j) (callbacks s) else (callbacks s)[j := (p, cs)])\<rparr>"
    by (auto simp: callback_step_def Let_def split: if_splits prod.splits list.splits)
  have "(p, c # cs) \<in> set (callbacks s)" using j cj by (metis nth_mem)
  from hs_shape [OF inv this] show ?thesis
  proof
    assume "c # cs = [PostSem]"
    with inv j cj s' show ?thesis by (auto intro: hs_callback_post)
  next
    assume "\<exists>st. c # cs = [SetStatus st, PostSem]"
    with inv j cj s' show ?thesis by (auto intro: hs_callback_status)
  qed
qed

lemma handshake_inv_init:
  assumes "sys_init s"
  shows "handshake_inv s"
proof (rule handshake_invI)
  have th: "threads s t = Idle" for t using assms by (simp add: sys_init_def)
  have cb: "callbacks s = []" and pe: "llcp_pending (llcp s) = []" and sw: "stale_writes s = 0"
    using assms by (simp_all add: sys_init_def)
  show "body = [PostSem] \<or> (\<exists>st. body = [SetStatus st, PostSem])" if "(p, body) \<in> set (callbacks s)" for p body
    using that cb by simp
  show "wait_ok s (threads s t)" for t by (simp add: th)
  show "\<exists>t buf miu rw. threads s t = AtCallbackWait p buf miu rw" if "0 < signals s p" for p
    using that by (simp add: signals_def pending_ctxs_def cb pe)
  show "t = t'" if "pc_frame (threads s t) = Some p" "pc_frame (threads s t') = Some p" for t t' p
    using that by (simp add: th)
  show "stale_writes s = 0" by (rule sw)
qed

lemma handshake_invariant: "reach nominal s \<Longrightarrow> handshake_inv s"
proof (induction rule: reach.induct)
  case (reach_init s)
  then show ?case by (rule handshake_inv_init)
next
  case (reach_step s e s')
  note inv = reach_step.IH
  show ?case
  proof (cases e)
    case (Enter t p miu rw lbl)
    with reach_step.hyps(3) show ?thesis by (simp add: hs_enter [OF inv])
  next
    case (Resume t env)
    with reach_step.hyps(2,3) show ?thesis by (simp add: hs_resume [OF inv])
  next
    case (Close jo)
    with reach_step.hyps(3) obtain r where "doClose jo s = Some (r, s')" by (auto dest: sys_close)
    from doClose_outcome [OF this] obtain obj where
      s': "s' = s\<lparr>reentrance_locked := False, llcp := snd (phLibNfc_Llcp_Close (nfc_jni_get_nfc_socket_handle obj) (llcp s))\<rparr>"
      by blast
    show ?thesis by (rule hs_same [OF inv]) (simp_all add: s' pending_ctxs_def)
  next
    case (Arrive h)
    with reach_step.hyps(3) have s': "s' = listen_notify h s" by simp
    show ?thesis by (rule hs_same [OF inv]) (simp_all add: s' listen_notify_def pending_ctxs_def)
  next
    case (Complete i st)
    with reach_step.hyps(3) show ?thesis by (simp add: hs_complete [OF inv])
  next
    case (RunCallback j)
    with reach_step.hyps(3) show ?thesis by (simp add: hs_callback [OF inv])
  next
    case (Error i code)
    with reach_step.hyps(2) show ?thesis by simp
  qed
qed

text \<open>C5: in every nominal run (no interrupted wait, no transport error), no statement of
  the accept callback ever writes into a popped stack frame.\<close>

theorem no_interrupt_no_stale_write:
  "reach nominal s \<Longrightarrow> stale_writes s = 0"
  by (rule hs_stale [OF handshake_invariant])

text \<open>C4: in such runs, a thread blocked at line 95 has a live frame, and the units in
  its semaphore plus the signals still to come for its context add up to exactly one:
  it is woken once, and never twice.\<close>

theorem waiter_signalled_once:
  assumes "reach nominal s" and "threads s t = AtCallbackWait p buf miu rw"
  shows "frames s p \<noteq> None \<and> sem_count (cb_sem (frame_of s p)) + signals s p = 1"
  using hs_wait_ok [OF handshake_invariant [OF assms(1)], of t] assms(2)
  by (auto simp: frame_of_def split: option.splits)

text \<open>C3: in such runs, when a thread blocked at line 95 can pass the wait, the status
  it reads at line 101 is the status with which the transport completed its own
  request, never an unwritten slot.\<close>

theorem waiter_reads_own_status:
  assumes "reach nominal s" and "threads s t = AtCallbackWait p buf miu rw"
    and "0 < sem_count (cb_sem (frame_of s p))"
  shows "cb_status (frame_of s p) = delivered s p \<and> delivered s p \<noteq> None"
  using hs_wait_ok [OF handshake_invariant [OF assms(1)], of t] assms(2,3)
  by (auto simp: frame_of_def split: option.splits)

text \<open>A nominal run: a connection arrives, thread 0 enters \<open>doAccept\<close>,
  passes the gate and registers its request, the transport completes it with success and
  runs both statements of the callback.\<close>

theorem no_interrupt_no_stale_write_witness:
  "\<exists>S. sys_run [Arrive 7, Enter 0 0 128 1 0, Resume 0 env_nominal, Complete 0 0, RunCallback 0, RunCallback 0]
         (sys_start {7} []) = Some S \<and> reach nominal S \<and> stale_writes S = 0"
proof -
  let ?es = "[Arrive 7, Enter 0 0 128 1 0, Resume 0 env_nominal, Complete 0 0, RunCallback 0, RunCallback 0]"
  have "\<exists>S. sys_run ?es (sys_start {7} []) = Some S"
    by (simp add: nfc_simps sys_start_def Let_def)
  then obtain S where S: "sys_run ?es (sys_start {7} []) = Some S" by blast
  have r: "reach nominal S" by (rule reach_start_run [OF _ S]) (simp add: env_nominal_def)
  with S no_interrupt_no_stale_write [OF r] show ?thesis by blast
qed

theorem waiter_signalled_once_witness:
  "\<exists>S. sys_run [Arrive 7, Enter 0 0 128 1 0, Resume 0 env_nominal, Complete 0 0, RunCallback 0, RunCallback 0]
         (sys_start {7} []) = Some S \<and> reach nominal S \<and> threads S 0 = AtCallbackWait 0 (Some 0) 128 1 \<and>
       frames S 0 \<noteq> None \<and> sem_count (cb_sem (frame_of S 0)) + signals S 0 = 1"
proof -
  let ?es = "[Arrive 7, Enter 0 0 128 1 0, Resume 0 env_nominal, Complete 0 0, RunCallback 0, RunCallback 0]"
  have "\<exists>S. sys_run ?es (sys_start {7} []) = Some S \<and> threads S 0 = AtCallbackWait 0 (Some 0) 128 1"
    by (simp add: nfc_simps sys_start_def Let_def)
  then obtain S where S: "sys_run ?es (sys_start {7} []) = Some S"
    and t: "threads S 0 = AtCallbackWait 0 (Some 0) 128 1" by blast
  have r: "reach nominal S" by (rule reach_start_run [OF _ S]) (simp add: env_nominal_def)
  with S t waiter_signalled_once [OF r t] show ?thesis by blast
qed

theorem waiter_reads_own_status_witness:
  "\<exists>S. sys_run [Arrive 7, Enter 0 0 128 1 0, Resume 0 env_nominal, Complete 0 0, RunCallback 0, RunCallback 0]
         (sys_start {7} []) = Some S \<and> reach nominal S \<and> threads S 0 = AtCallbackWait 0 (Some 0) 128 1 \<and>
       0 < sem_count (cb_sem (frame_of S 0)) \<and>
       cb_status (frame_of S 0) = delivered S 0 \<and> delivered S 0 = Some NFCSTATUS_SUCCESS"
proof -
  let ?es = "[Arrive 7, Enter 0 0 128 1 0, Resume 0 env_nominal, Complete 0 0, RunCallback 0, RunCallback 0]"
  have "\<exists>S. sys_run ?es (sys_start {7} []) = Some S \<and> threads S 0 = AtCallbackWait 0 (Some 0) 128 1 \<and>
          0 < sem_count (cb_sem (frame_of S 0)) \<and> delivered S 0 = Some NFCSTATUS_SUCCESS"
    by (simp add: nfc_simps sys_start_def Let_def)
  then obtain S where S: "sys_run ?es (sys_start {7} []) = Some S"
    and t: "threads S 0 = AtCallbackWait 0 (Some 0) 128 1" and c: "0 < sem_count (cb_sem (frame_of S 0))"
    and d: "delivered S 0 = Some NFCSTATUS_SUCCESS" by blast
  have r: "reach nominal S" by (rule reach_start_run [OF _ S]) (simp add: env_nominal_def)
  with S t c d waiter_reads_own_status [OF r t c] show ?thesis by blast
qed

section \<open>Interleavings the code gets wrong\<close>

section \<open>Callbacks run statement by statement\<close>

text \<open>A callback entry run to its end on a live frame.\<close>

lemma callback_entry_run:
  assumes "j < length (callbacks s)" "callbacks s ! j = (p, body)" "body \<noteq> []" "frames s p = Some d"
  shows "sys_run (replicate (length body) (RunCallback j)) s =
           Some (s\<lparr>frames := (frames s)(p \<mapsto> cb_run body d),
                   callbacks := take j (callbacks s) @ drop (Suc j) (callbacks s)\<rparr>)"
  using assms
proof (induction body arbitrary: s d)
  case (Cons c cs)
  let ?s1 = "s\<lparr>frames := (frames s)(p \<mapsto> cb_exec c d), callbacks :=
               (if cs = [] then take j (callbacks s) @ drop (Suc j) (callbacks s) else (callbacks s)[j := (p, cs)])\<rparr>"
  have step: "sys_next (RunCallback j) s = Some ?s1"
    using Cons.prems by (simp add: callback_step_def write_ctx_def)
  show ?case
  proof (cases "cs = []")
    case True
    with step show ?thesis by (simp add: cb_run_def fun_upd_def)
  next
    case False
    from Cons.prems False have "sys_run (replicate (length cs) (RunCallback j)) ?s1 =
        Some (?s1\<lparr>frames := (frames ?s1)(p \<mapsto> cb_run cs (cb_exec c d)),
                  callbacks := take j (callbacks ?s1) @ drop (Suc j) (callbacks ?s1)\<rparr>)"
      by (intro Cons.IH) simp_all
    with step False Cons.prems(1) show ?thesis
      by (simp add: cb_run_def upd_conv_take_nth_drop fun_upd_def cong: if_cong)
  qed
qed simp

section \<open>Progress in nominal runs\<close>

text \<open>A waiter of a nominal run can be given its unit by the transport alone: it is
  already in the semaphore, or a callback for its context is running and is run to
  its end, or its request is pending and is completed and its callback run.\<close>

lemma wake_schedule:
  assumes inv: "handshake_inv s" and th: "threads s t = AtCallbackWait p buf miu rw"
  shows "\<exists>es s1 d. list_all transport_event es \<and> sys_run es s = Some s1 \<and> threads s1 = threads s \<and>
           frames s1 p = Some d \<and> 0 < sem_count (cb_sem d)"
proof -
  from hs_wait_ok [OF inv, of t] th obtain d where fr: "frames s p = Some d"
    and one: "sem_count (cb_sem d) + signals s p = 1"
    by (auto split: option.splits)
  show ?thesis
  proof (cases "0 < sem_count (cb_sem d)")
    case True
    with fr show ?thesis by (intro exI [of _ "[]"]) simp
  next
    case False
    with one have sig: "signals s p = 1" and z: "sem_count (cb_sem d) = 0" by auto
    show ?thesis
    proof (cases "p \<in> fst ` set (callbacks s)")
      case True
      then obtain body where "(p, body) \<in> set (callbacks s)" by auto
      then obtain j where j: "j < length (callbacks s)" "callbacks s ! j = (p, body)"
        by (auto simp: in_set_conv_nth)
      from hs_shape [OF inv] j have b: "body = [PostSem] \<or> (\<exists>st. body = [SetStatus st, PostSem])"
        by (metis nth_mem)
      then have "body \<noteq> []" by auto
      from callback_entry_run [OF j this fr] b z show ?thesis
        by (intro exI [of _ "replicate (length body) (RunCallback j)"]) (auto simp: cb_run_posts_once)
    next
      case False
      then have "count (image_mset fst (mset (callbacks s))) p = 0" by (simp add: count_eq_zero_iff)
      with sig have "0 < count (pending_ctxs (llcp s)) p" by (simp add: signals_def)
      then obtain i where i: "i < length (llcp_pending (llcp s))" "acc_ctx (llcp_pending (llcp s) ! i) = p"
        by (auto simp: pending_ctxs_def in_set_conv_nth)
      let ?k = "length (callbacks s)"
      obtain s2 where c: "transport_complete i NFCSTATUS_SUCCESS s = Some s2"
        and f2: "threads s2 = threads s" "frames s2 = frames s"
          "callbacks s2 = callbacks s @ [(p, [SetStatus NFCSTATUS_SUCCESS, PostSem])]"
        using i by (simp add: transport_complete_def llcp_complete_def Let_def nfc_jni_llcp_accept_socket_callback_def)
      have "?k < length (callbacks s2)" "callbacks s2 ! ?k = (p, [SetStatus NFCSTATUS_SUCCESS, PostSem])"
        by (simp_all add: f2)
      from callback_entry_run [OF this _ fr [folded f2(2)]] z f2 c show ?thesis
        by (intro exI [of _ "Complete i NFCSTATUS_SUCCESS # replicate 2 (RunCallback ?k)"])
          (auto simp: cb_run_posts_once numeral_2_eq_2)
    qed
  qed
qed

text \<open>C15: in nominal runs a thread blocked at line 95 is never stuck: the transport alone,
  completing its request and running the callback, can wake it, and its next resume
  that is not interrupted returns from \<open>doAccept\<close>.\<close>

theorem nominal_waiter_progress:
  assumes "reach nominal s" and "threads s t = AtCallbackWait p buf miu rw" and "\<not> env_intr env"
  shows "\<exists>es s'. list_all transport_event es \<and> sys_run (es @ [Resume t env]) s = Some s' \<and>
           (\<exists>r x. threads s' t = Returned r x)"
proof -
  from wake_schedule [OF handshake_invariant [OF assms(1)] assms(2)] obtain es s1 d
    where es: "list_all transport_event es" and r: "sys_run es s = Some s1" and th: "threads s1 = threads s"
      and fr: "frames s1 p = Some d" and pos: "0 < sem_count (cb_sem d)" by blast
  from fr pos have "0 < sem_count (cb_sem (frame_of s1 p))" by (simp add: frame_of_def)
  from wait_callback_returns [OF this, of env miu rw] obtain r x s2
    where w: "doAccept_wait_callback env p miu rw s1 = Some (Returned r x, s2)" by blast
  with assms(2) th have "sys_next (Resume t env) s1 =
      Some (s2\<lparr>threads := (threads s2)(t := Returned r x)\<rparr>)"
    by (simp add: thread_resume_def)
  with es r show ?thesis by (intro exI [of _ es]) (auto simp: sys_run_append)
qed

theorem nominal_waiter_progress_witness:
  "\<exists>S. sys_run [Arrive 7, Enter 0 0 128 1 0, Resume 0 env_nominal] (sys_start {7} []) = Some S \<and>
     reach nominal S \<and> threads S 0 = AtCallbackWait 0 (Some 0) 128 1 \<and>
     (\<exists>es s'. list_all transport_event es \<and> sys_run (es @ [Resume 0 env_nominal]) S = Some s' \<and>
        (\<exists>r x. threads s' 0 = Returned r x))"
proof -
  let ?es = "[Arrive 7, Enter 0 0 128 1 0, Resume 0 env_nominal]"
  obtain S where S: "sys_run ?es (sys_start {7} []) = Some S" and th: "threads S 0 = AtCallbackWait 0 (Some 0) 128 1"
    by (simp add: nfc_simps sys_start_def Let_def)
  have r: "reach nominal S" by (rule reach_start_run [OF _ S]) (simp add: env_nominal_def)
  have "\<not> env_intr env_nominal" by (simp add: env_nominal_def)
  from nominal_waiter_progress [OF r th this] S r th show ?thesis by blast
qed
section \<open>Transport errors\<close>

text \<open>A stranded thread stays stranded under every event that does not interrupt it.\<close>

lemma stuckE:
  assumes "stuck t p s"
  obtains buf miu rw d where "threads s t = AtCallbackWait p buf miu rw" "frames s p = Some d"
    "sem_count (cb_sem d) = 0" "count (pending_ctxs (llcp s)) p = 0" "p \<notin> fst ` set (callbacks s)"
    "\<And>t'. pc_frame (threads s t') = Some p \<Longrightarrow> t' = t"
  using assms by (auto simp: stuck_def signals_def count_eq_zero_iff split: accept_pc.splits option.splits)

lemma stuck_resume:
  assumes st: "stuck t p s" and nx: "thread_resume t' env s = Some s'" and ni: "t' = t \<Longrightarrow> \<not> env_intr env"
  shows "stuck t p s'"
proof -
  from st obtain buf miu rw d where th: "threads s t = AtCallbackWait p buf miu rw" and fr: "frames s p = Some d"
    "sem_count (cb_sem d) = 0" and sg: "signals s p = 0" and own: "\<And>t'. pc_frame (threads s t') = Some p \<Longrightarrow> t' = t"
    by (auto simp: stuck_def split: accept_pc.splits option.splits)
  from nx obtain pc s1 where a: "accept_step env (threads s t') s = Some (pc, s1)"
    and s': "s' = s1\<lparr>threads := (threads s1)(t' := pc)\<rparr>"
    by (auto simp: thread_resume_def split: option.splits)
  have "t' \<noteq> t"
  proof
    assume "t' = t"
    with a th fr ni show False
      by (simp add: doAccept_wait_callback_def frame_of_def sem_wait_def Let_def)
  qed
  from a obtain q where q: "pc_frame (threads s t') = Some q"
    by (cases "threads s t'") auto
  with own \<open>t' \<noteq> t\<close> have "p \<noteq> q" by auto
  from accept_step_local [OF a q this] have
    l: "frames s1 p = frames s p" "count (pending_ctxs (llcp s1)) p = count (pending_ctxs (llcp s)) p"
       "pc_frame pc \<noteq> Some p" "nfc_state.more s1 = nfc_state.more s" by auto
  from more_threads [OF l(4)] have m: "threads s1 = threads s" "callbacks s1 = callbacks s" by auto
  from th fr sg own l m \<open>t' \<noteq> t\<close> show ?thesis
    by (auto simp: stuck_def s' signals_def)
qed

lemma stuck_callback:
  assumes st: "stuck t p s" and nx: "callback_step j s = Some s'"
  shows "stuck t p s'"
proof -
  obtain buf miu rw d where th: "threads s t = AtCallbackWait p buf miu rw" and fr: "frames s p = Some d"
    "sem_count (cb_sem d) = 0" and pend: "count (pending_ctxs (llcp s)) p = 0"
    and cbs: "p \<notin> fst ` set (callbacks s)" and own: "\<And>t'. pc_frame (threads s t') = Some p \<Longrightarrow> t' = t"
    by (rule stuckE [OF st]) blast
  from nx obtain q c cs where j: "j < length (callbacks s)" "callbacks s ! j = (q, c # cs)"
    and s': "s' = (write_ctx q c s)\<lparr>callbacks :=
               (if cs = [] then take j (callbacks s) @ drop (Suc j) (callbacks s) else (callbacks s)[j := (q, cs)])\<rparr>"
    by (auto simp: callback_step_def Let_def split: if_splits prod.splits list.splits)
  from j have "(q, c # cs) \<in> set (callbacks s)" by (metis nth_mem)
  with cbs have "q \<noteq> p" by force
  have "p \<notin> fst ` set (take j (callbacks s) @ drop (Suc j) (callbacks s))"
    using cbs by (auto dest: in_set_takeD in_set_dropD)
  moreover have "p \<notin> fst ` set ((callbacks s)[j := (q, cs)])"
    using cbs \<open>q \<noteq> p\<close> set_update_subset_insert [of "callbacks s" j "(q, cs)"] by auto
  ultimately show ?thesis using th fr own pend \<open>q \<noteq> p\<close>
    by (auto simp: stuck_def s' signals_def write_ctx_def count_eq_zero_iff split: option.splits)
qed

lemma stuck_step:
  assumes st: "stuck t p s" and nx: "sys_next e s = Some s'" and ni: "\<not> interrupts t e"
  shows "stuck t p s'"
proof -
  obtain buf miu rw d where th: "threads s t = AtCallbackWait p buf miu rw" and fr: "frames s p = Some d"
    "sem_count (cb_sem d) = 0" and pend: "count (pending_ctxs (llcp s)) p = 0"
    and cbs: "p \<notin> fst ` set (callbacks s)" and own: "\<And>t'. pc_frame (threads s t') = Some p \<Longrightarrow> t' = t"
    by (rule stuckE [OF st]) blast
  show ?thesis
  proof (cases e)
    case (Enter t' q miu' rw' lbl')
    with nx have i: "accept_idle (threads s t')" "frames s q = None"
      and s': "s' = (set_frame q cb_data_uninit s)\<lparr>threads := (threads s)(t' := AtListenWait q miu' rw' lbl')\<rparr>"
      by (auto simp: thread_enter_def doAccept_enter_def set_frame_def split: if_splits)
    from i th fr have "t' \<noteq> t" "q \<noteq> p" by auto
    with st show ?thesis
      by (auto simp: stuck_def s' set_frame_def signals_def)
  next
    case (Resume t' env)
    with nx ni show ?thesis by (auto intro: stuck_resume [OF st])
  next
    case (Close jo)
    with nx obtain r where "doClose jo s = Some (r, s')" by (auto dest: sys_close)
    from doClose_outcome [OF this] obtain obj where
      s': "s' = s\<lparr>reentrance_locked := False, llcp := snd (phLibNfc_Llcp_Close (nfc_jni_get_nfc_socket_handle obj) (llcp s))\<rparr>"
      by blast
    from st show ?thesis by (simp add: stuck_def s' signals_def pending_ctxs_def)
  next
    case (Arrive h)
    with nx have s': "s' = listen_notify h s" by simp
    from st show ?thesis by (simp add: stuck_def s' listen_notify_def signals_def pending_ctxs_def)
  next
    case (Complete i stt)
    with nx obtain op tr where c: "llcp_complete i stt (llcp s) = Some (op, tr)"
      and s': "s' = s\<lparr>llcp := tr, callbacks := callbacks s @ [(acc_ctx op, nfc_jni_llcp_accept_socket_callback stt)],
                     delivered := (delivered s)(acc_ctx op \<mapsto> stt)\<rparr>"
      by (auto simp: transport_complete_def split: option.splits)
    from count_zero_add_mset [OF conjunct1 [OF complete_pending_ctxs [OF c]] pend]
    have "acc_ctx op \<noteq> p" "count (pending_ctxs tr) p = 0" by simp_all
    with th fr own cbs show ?thesis
      by (auto simp: stuck_def s' signals_def count_eq_zero_iff)
  next
    case (RunCallback j)
    with nx show ?thesis by (auto intro: stuck_callback [OF st])
  next
    case (Error i code)
    with nx obtain op tr where ab: "llcp_abort i (llcp s) = Some (op, tr)" and s': "s' = s\<lparr>llcp := tr\<rparr>"
      by (auto dest!: transport_error_outcome)
    from count_zero_add_mset [OF conjunct1 [OF abort_pending_ctxs [OF ab]] pend]
    have "count (pending_ctxs tr) p = 0" by simp
    with th fr own cbs show ?thesis
      by (auto simp: stuck_def s' signals_def count_eq_zero_iff)
  qed
qed

lemma stuck_blocks: "stuck t p s \<Longrightarrow> \<not> env_intr env \<Longrightarrow> thread_resume t env s = None"
  by (auto simp: stuck_def thread_resume_def doAccept_wait_callback_def frame_of_def sem_wait_def Let_def
      split: accept_pc.splits option.splits)

lemma stuck_run:
  "stuck t p s \<Longrightarrow> list_all (\<lambda>e. \<not> interrupts t e) es \<Longrightarrow> sys_run es s = Some s' \<Longrightarrow> stuck t p s'"
proof (induction es arbitrary: s)
  case (Cons e es)
  then obtain s1 where s1: "sys_next e s = Some s1" and r: "sys_run es s1 = Some s'"
    by (auto split: option.splits)
  from Cons.prems(2) have "\<not> interrupts t e" "list_all (\<lambda>e. \<not> interrupts t e) es" by simp_all
  from Cons.IH [OF stuck_step [OF Cons.prems(1) s1 this(1)] this(2) r] show ?case .
qed simp

text \<open>C14: a thread stranded at line 95 never returns: under any further events that do not
  interrupt its wait (other accept calls, arrivals, completions, callbacks, errors,
  closes) it stays stranded, and every resume without a signal blocks. The call has no
  timeout; only an interrupt ends it.\<close>

theorem stranded_waiter_never_returns:
  assumes "stuck t p s" and "list_all (\<lambda>e. \<not> interrupts t e) es" and "sys_run es s = Some s'"
  shows "stuck t p s' \<and> (\<forall>env. \<not> env_intr env \<longrightarrow> thread_resume t env s' = None)"
  using stuck_run [OF assms] stuck_blocks by blast

theorem stranded_waiter_never_returns_witness:
  "\<exists>S S'. sys_run [Arrive 7, Enter 0 0 128 1 0, Resume 0 env_nominal, Error 0 1] (sys_start {7} []) = Some S \<and>
     stuck 0 0 S \<and> sys_run [Arrive 9, Enter 1 1 128 1 0, Resume 1 env_nominal, Complete 0 0, RunCallback 0, RunCallback 0,
       Resume 1 env_nominal, Resume 0 env_nominal] S = None \<and>
     sys_run [Arrive 9, Enter 1 1 128 1 0, Resume 1 env_nominal, Complete 0 0, RunCallback 0, RunCallback 0,
       Resume 1 env_nominal] S = Some S' \<and> stuck 0 0 S' \<and> thread_resume 0 env_nominal S' = None"
proof -
  let ?es = "[Arrive 9, Enter 1 1 128 1 0, Resume 1 env_nominal, Complete 0 0, RunCallback 0, RunCallback 0,
       Resume 1 env_nominal]"
  obtain S S' where r: "sys_run [Arrive 7, Enter 0 0 128 1 0, Resume 0 env_nominal, Error 0 1] (sys_start {7} []) = Some S"
    and st: "stuck 0 0 S" and n: "sys_run (?es @ [Resume 0 env_nominal]) S = None" and r': "sys_run ?es S = Some S'"
    by (simp add: nfc_simps sys_start_def Let_def stuck_def signals_def pending_ctxs_def)
  have "list_all (\<lambda>e. \<not> interrupts 0 e) ?es" by (simp add: env_nominal_def)
  from stranded_waiter_never_returns [OF st this r'] r st n r' show ?thesis
    by (auto simp: env_nominal_def)
qed

section \<open>Races on the handle slot and on the stack\<close>

text \<open>Runs with no arrival: the handle slot keeps its value, the Java objects that
  exist keep their contents, and every request issued names the handle in the slot.\<close>

lemma sys_run_arrival_free:
  assumes "list_all (\<lambda>e. \<not> is_arrival e) es" "P x" "sys_run es x = Some x'"
    and step: "\<And>x x' e. P x \<Longrightarrow> sys_next e x = Some x' \<Longrightarrow> \<not> is_arrival e \<Longrightarrow> P x'"
  shows "P x'"
  using assms(1-3)
proof (induction es arbitrary: x)
  case (Cons e es)
  then obtain x1 where "sys_next e x = Some x1" "sys_run es x1 = Some x'" by (auto split: option.splits)
  with Cons step show ?case by auto
qed simp

lemma sys_next_jheap:
  assumes nx: "sys_next e s = Some s'" and na: "\<not> is_arrival e"
  shows "jheap_top s \<le> jheap_top s' \<and> (\<forall>jo<jheap_top s. jheap s' jo = jheap s jo) \<and>
     hIncommingLlcpSocket s' = hIncommingLlcpSocket s \<and>
     (\<forall>u jo. threads s' u = Returned (Some jo) False \<longrightarrow> threads s u = Returned (Some jo) False \<or>
        jo < jheap_top s' \<and> (\<exists>obj. jheap s' jo = Some obj \<and> mHandle obj = ucast (hIncommingLlcpSocket s)))"
proof (cases e)
  case (Resume t env)
  with nx obtain pc s1 where st: "accept_step env (threads s t) s = Some (pc, s1)"
    and s': "s' = s1\<lparr>threads := (threads s1)(t := pc)\<rparr>"
    by (auto simp: thread_resume_def split: option.splits)
  from accept_step_jheap [OF st] accept_step_gate [OF st] more_threads [of s1 s] show ?thesis
    by (auto simp: s')
next
  case (Close jo)
  with nx show ?thesis by (auto dest!: sys_close doClose_outcome)
next
  case (RunCallback j)
  with nx show ?thesis by (auto dest!: callback_step_shared)
next
  case (Error i code)
  with nx show ?thesis by (auto dest!: transport_error_outcome)
qed (use nx na in \<open>auto simp: thread_enter_def doAccept_enter_def set_frame_def transport_complete_def
      split: if_splits option.splits\<close>)

lemma sys_next_requests:
  assumes nx: "sys_next e s = Some s'" and na: "\<not> is_arrival e"
  shows "set (llcp_pending (llcp s')) \<subseteq> set (llcp_pending (llcp s)) \<union> {op. acc_socket op = hIncommingLlcpSocket s} \<and>
     dom (llcp_conn_buf (llcp s')) \<subseteq> dom (llcp_conn_buf (llcp s)) \<union> acc_socket ` set (llcp_pending (llcp s))"
proof (cases e)
  case (Resume t env)
  with nx obtain pc s1 where st: "accept_step env (threads s t) s = Some (pc, s1)"
    and s': "s' = s1\<lparr>threads := (threads s1)(t := pc)\<rparr>"
    by (auto simp: thread_resume_def split: option.splits)
  show ?thesis
  proof (cases "threads s t")
    case (AtListenWait p miu rw lbl)
    with st have w: "doAccept_wait_listen env p miu rw lbl s = Some (pc, s1)" by simp
    from doAccept_wait_listen_outcome [OF w] show ?thesis
    proof
      assume "sem_count (listen_sem s) = 0 \<and> env_intr env \<and> doAccept_return p None False s = (pc, s1)"
      then show ?thesis by (auto simp: s' dest!: doAccept_return_more)
    next
      assume "0 < sem_count (listen_sem s) \<and> doAccept_setup env p miu rw lbl
           (s\<lparr>listen_sem := (listen_sem s)\<lparr>sem_count := sem_count (listen_sem s) - 1\<rparr>\<rparr>) = (pc, s1)"
      then show ?thesis by (auto simp: s' dest!: doAccept_setup_outcome)
    qed
  next
    case (AtCallbackWait p buf miu rw)
    with st show ?thesis by (auto simp: s' dest!: doAccept_wait_callback_frame)
  qed (use st in simp_all)
next
  case (Complete i st)
  with nx obtain op tr where c: "llcp_complete i st (llcp s) = Some (op, tr)" and l: "llcp s' = tr"
    by (auto simp: transport_complete_def split: option.splits)
  from c have i: "i < length (llcp_pending (llcp s))"
    and p: "llcp_pending tr = take i (llcp_pending (llcp s)) @ drop (Suc i) (llcp_pending (llcp s))"
    and b: "dom (llcp_conn_buf tr) \<subseteq> insert (acc_socket (llcp_pending (llcp s) ! i)) (dom (llcp_conn_buf (llcp s)))"
    by (auto simp: llcp_complete_def Let_def split: if_splits)
  have "set (llcp_pending tr) \<subseteq> set (llcp_pending (llcp s))"
    unfolding p by (auto dest: in_set_takeD in_set_dropD)
  moreover have "acc_socket (llcp_pending (llcp s) ! i) \<in> acc_socket ` set (llcp_pending (llcp s))" using i by simp
  ultimately show ?thesis using b by (auto simp: l)
next
  case (Close jo)
  with nx show ?thesis by (auto simp: phLibNfc_Llcp_Close_def dest!: sys_close doClose_outcome split: if_splits)
next
  case (RunCallback j)
  with nx show ?thesis by (auto dest!: callback_step_shared)
next
  case (Error i code)
  with nx show ?thesis
    by (auto simp: llcp_abort_def dest: in_set_takeD in_set_dropD dest!: transport_error_outcome split: if_splits)
qed (use nx na in \<open>auto simp: thread_enter_def doAccept_enter_def set_frame_def split: if_splits\<close>)

text \<open>C11: the handle of the accepted socket is read from the global
  \<open>hIncommingLlcpSocket\<close> at line 123, after the wait, not kept from the request made
  at line 80. Under any interleaving, once a connection \<open>h\<close> arrives, every
  \<open>doAccept\<close> call that returns a socket object before the next arrival returns one
  holding \<open>h\<close>, whatever socket its own request named; in particular a call whose
  request was for an earlier connection, still in flight when \<open>h\<close> arrives, returns
  \<open>h\<close> although the transport connected the earlier socket.\<close>

theorem accept_returns_later_handle:
  assumes run: "sys_run (Arrive h # es) s = Some s'" and na: "list_all (\<lambda>e. \<not> is_arrival e) es"
    and fresh: "\<forall>jo. threads s t \<noteq> Returned (Some jo) False" and ret: "threads s' t = Returned (Some jo) False"
  shows "\<exists>obj. jheap s' jo = Some obj \<and> mHandle obj = ucast h"
proof -
  let ?Q = "\<lambda>x. hIncommingLlcpSocket x = h \<and> (\<forall>jo. threads x t = Returned (Some jo) False \<longrightarrow>
              jo < jheap_top x \<and> (\<exists>obj. jheap x jo = Some obj \<and> mHandle obj = ucast h))"
  have step: "?Q x'" if "?Q x" "sys_next e x = Some x'" "\<not> is_arrival e" for x x' e
    using that sys_next_jheap [OF that(2,3)] by (metis order_less_le_trans)
  from run have r: "sys_run es (listen_notify h s) = Some s'" by simp
  have "?Q (listen_notify h s)" using fresh by (simp add: listen_notify_def)
  from na this r have "?Q s'" by (rule sys_run_arrival_free) (rule step)
  with ret show ?thesis by blast
qed

theorem accept_returns_later_handle_witness:
  "\<exists>S S'. sys_run [Arrive 7, Enter 0 0 128 1 0, Resume 0 env_nominal] (sys_start {7} []) = Some S \<and>
     map acc_socket (llcp_pending (llcp S)) = [7] \<and>
     sys_run [Arrive 9, Complete 0 0, RunCallback 0, RunCallback 0, Resume 0 env_nominal] S = Some S' \<and>
     threads S' 0 = Returned (Some 0) False \<and> llcp_conn_buf (llcp S') 7 = Some (Some 0) \<and>
     (\<exists>obj. jheap S' 0 = Some obj \<and> mHandle obj = 9)"
proof -
  obtain S where S: "sys_run [Arrive 7, Enter 0 0 128 1 0, Resume 0 env_nominal] (sys_start {7} []) = Some S"
    and pe: "map acc_socket (llcp_pending (llcp S)) = [7]" and th: "threads S 0 = AtCallbackWait 0 (Some 0) 128 1"
    by (simp add: nfc_simps sys_start_def Let_def)
  let ?xs = "[Arrive 7, Enter 0 0 128 1 0, Resume 0 env_nominal]"
  let ?ys = "[Arrive 9, Complete 0 0, RunCallback 0, RunCallback 0, Resume 0 env_nominal]"
  obtain S' where all: "sys_run (?xs @ ?ys) (sys_start {7} []) = Some S'"
    and r: "threads S' 0 = Returned (Some 0) False" and c: "llcp_conn_buf (llcp S') 7 = Some (Some 0)"
    by (simp add: nfc_simps sys_start_def Let_def)
  from all have S': "sys_run ?ys S = Some S'" unfolding sys_run_append S by simp
  have na: "list_all (\<lambda>e. \<not> is_arrival e) [Complete 0 0, RunCallback 0, RunCallback 0, Resume 0 env_nominal]" by simp
  from accept_returns_later_handle [OF S' na _ r] th S pe c r S' show ?thesis by auto
qed

text \<open>C12: the listen gate counts arrivals but the handle slot holds only the last
  one. After two connections arrive back to back, no interleaving of accept calls,
  callbacks, transport completions, errors and closes ever requests or connects the
  first one, until another connection arrives: both units of the gate go to requests
  for the second socket.\<close>

theorem two_arrivals_accept_same_handle:
  assumes run: "sys_run (Arrive h1 # Arrive h2 # es) s = Some s'" and na: "list_all (\<lambda>e. \<not> is_arrival e) es"
    and new: "h1 \<noteq> h2" "h1 \<notin> acc_socket ` set (llcp_pending (llcp s))" "llcp_conn_buf (llcp s) h1 = None"
  shows "h1 \<notin> acc_socket ` set (llcp_pending (llcp s')) \<and> llcp_conn_buf (llcp s') h1 = None"
proof -
  let ?Q = "\<lambda>x. hIncommingLlcpSocket x = h2 \<and> h1 \<notin> acc_socket ` set (llcp_pending (llcp x)) \<and>
              llcp_conn_buf (llcp x) h1 = None"
  have step: "?Q x'" if "?Q x" "sys_next e x = Some x'" "\<not> is_arrival e" for x x' e
  proof -
    from sys_next_requests [OF that(2,3)] sys_next_jheap [OF that(2,3)] that(1) new(1) show ?thesis by blast
  qed
  from run have r: "sys_run es (listen_notify h2 (listen_notify h1 s)) = Some s'" by simp
  have "?Q (listen_notify h2 (listen_notify h1 s))" using new by (simp add: listen_notify_def llcp_incoming_def)
  from na this r have "?Q s'" by (rule sys_run_arrival_free) (rule step)
  then show ?thesis by blast
qed

theorem two_arrivals_accept_same_handle_witness:
  "\<exists>S. sys_run [Arrive 7, Arrive 9, Enter 0 0 128 1 0, Resume 0 env_nominal, Enter 1 1 128 1 0, Resume 1 env_nominal]
        (sys_start {} []) = Some S \<and> map acc_socket (llcp_pending (llcp S)) = [9, 9] \<and>
     7 \<notin> acc_socket ` set (llcp_pending (llcp S)) \<and> llcp_conn_buf (llcp S) 7 = None"
proof -
  let ?es = "[Enter 0 0 128 1 0, Resume 0 env_nominal, Enter 1 1 128 1 0, Resume 1 env_nominal]"
  obtain S where S: "sys_run (Arrive 7 # Arrive 9 # ?es) (sys_start {} []) = Some S"
    and pe: "map acc_socket (llcp_pending (llcp S)) = [9, 9]"
    by (simp add: nfc_simps sys_start_def Let_def)
  have "list_all (\<lambda>e. \<not> is_arrival e) ?es" by simp
  from two_arrivals_accept_same_handle [OF S this] S pe show ?thesis by (simp add: sys_start_def)
qed

text \<open>C13: an interrupted wait at line 95 returns and pops its frame while the
  transport still holds the request; when the transport completes it, the callback
  writes the status into the popped stack frame. This holds in every state in which
  a thread waits at line 95 on an empty semaphore with its request pending.\<close>

theorem interrupted_wait_stale_write:
  assumes th: "threads s t = AtCallbackWait p buf miu rw" and fr: "frames s p = Some d" "sem_count (cb_sem d) = 0"
    and i: "i < length (llcp_pending (llcp s))" "acc_ctx (llcp_pending (llcp s) ! i) = p" and intr: "env_intr env"
  shows "\<exists>s'. sys_run [Resume t env, Complete i st, RunCallback (length (callbacks s))] s = Some s' \<and>
     threads s' t = Returned None False \<and> frames s' p = None \<and> stale_writes s' = Suc (stale_writes s)"
  using assms
  by (simp add: thread_resume_def doAccept_wait_callback_def sem_wait_def frame_of_def clean_and_return_def
      doAccept_return_def set_frame_def transport_complete_def llcp_complete_def callback_step_def write_ctx_def
      nfc_jni_llcp_accept_socket_callback_def Let_def nth_append)

theorem interrupted_wait_stale_write_witness:
  "\<exists>S s'. sys_run [Arrive 7, Enter 0 0 128 1 0, Resume 0 env_nominal] (sys_start {7} []) = Some S \<and>
     sys_run [Resume 0 (env_nominal\<lparr>env_intr := True\<rparr>), Complete 0 0, RunCallback 0] S = Some s' \<and>
     threads s' 0 = Returned None False \<and> frames s' 0 = None \<and> stale_writes s' = 1"
proof -
  obtain S d where S: "sys_run [Arrive 7, Enter 0 0 128 1 0, Resume 0 env_nominal] (sys_start {7} []) = Some S"
    and th: "threads S 0 = AtCallbackWait 0 (Some 0) 128 1" and fr: "frames S 0 = Some d" "sem_count (cb_sem d) = 0"
    and i: "0 < length (llcp_pending (llcp S))" "acc_ctx (llcp_pending (llcp S) ! 0) = 0"
    and cb: "callbacks S = []" and sw: "stale_writes S = 0"
    by (simp add: nfc_simps sys_start_def Let_def)
  from interrupted_wait_stale_write [OF th fr i, of "env_nominal\<lparr>env_intr := True\<rparr>" 0] cb sw S show ?thesis by auto
qed

end
