(* ===== verification/Registration.thy ===== *)
theory Registration
  imports ServiceSocket
begin

text \<open>
  The JNI registration of the file (lines 165--183): the method table \<open>gMethods\<close>, which
  pairs each Java method name and type descriptor with the C function that implements
  it, and \<open>register_com_android_nfc_NativeLlcpServiceSocket\<close>, which hands the table to
  \<open>jniRegisterNativeMethods\<close>. A descriptor is a string of the JVM's grammar; the table
  is correct when each descriptor parses, agrees with the C prototype of its function
  (lines 46 and 140, after the implicit \<open>JNIEnv *\<close> and \<open>this\<close>), and names a native
  method the Java class declares. The JVM's reading of descriptors is given here as a
  parser of field and method descriptors. The Java class and the helper
  \<open>jniRegisterNativeMethods\<close> are outside the source tree: the class declares the two
  methods of the specification (section 6), and registration binds every entry when
  the class declares it and fails with -1, binding nothing, otherwise.
\<close>

section \<open>JVM type descriptors\<close>

datatype jtype = JBoolean | JByte | JChar | JShort | JInt | JLong | JFloat | JDouble
  | JClass string | JArray jtype

text \<open>A class name runs up to the first \<open>;\<close> and is not empty.\<close>

definition split_class :: "string \<Rightarrow> (string \<times> string) option" where
  "split_class cs =
     (let n = takeWhile (\<lambda>x. x \<noteq> CHR '';'') cs
      in if n \<noteq> [] \<and> length n < length cs then Some (n, drop (Suc (length n)) cs) else None)"

fun parse_jtype :: "string \<Rightarrow> (jtype \<times> string) option" where
  "parse_jtype [] = None"
| "parse_jtype (c # cs) =
     (if c = CHR ''Z'' then Some (JBoolean, cs)
      else if c = CHR ''B'' then Some (JByte, cs)
      else if c = CHR ''C'' then Some (JChar, cs)
      else if c = CHR ''S'' then Some (JShort, cs)
      else if c = CHR ''I'' then Some (JInt, cs)
      else if c = CHR ''J'' then Some (JLong, cs)
      else if c = CHR ''F'' then Some (JFloat, cs)
      else if c = CHR ''D'' then Some (JDouble, cs)
      else if c = CHR ''L'' then map_option (\<lambda>(n, r). (JClass n, r)) (split_class cs)
      else if c = CHR ''['' then map_option (\<lambda>(t, r). (JArray t, r)) (parse_jtype cs)
      else None)"

lemma split_class_shorter: "split_class cs = Some (n, r) \<Longrightarrow> length r < length cs"
  by (auto simp: split_class_def Let_def split: if_splits)

lemma parse_jtype_shorter: "parse_jtype s = Some (t, r) \<Longrightarrow> length r < length s"
proof (induction s arbitrary: t r rule: parse_jtype.induct)
  case (2 c cs)
  then show ?case
    by (auto split: if_splits dest!: split_class_shorter)
qed simp

text \<open>The argument list of a method descriptor, up to its closing parenthesis.\<close>

function parse_args :: "string \<Rightarrow> (jtype list \<times> string) option" where
  "parse_args [] = None"
| "parse_args (c # cs) =
     (if c = CHR '')'' then Some ([], cs)
      else (case parse_jtype (c # cs) of
              None \<Rightarrow> None
            | Some (t, r) \<Rightarrow> map_option (\<lambda>(ts, r'). (t # ts, r')) (parse_args r)))"
  by pat_completeness auto
termination
  by (relation "measure length") (auto simp del: parse_jtype.simps dest: parse_jtype_shorter)

record method_desc =
  md_args :: "jtype list"
  md_ret :: "jtype option"

definition parse_ret :: "string \<Rightarrow> jtype option option" where
  "parse_ret r =
     (if r = ''V'' then Some None
      else (case parse_jtype r of Some (t, []) \<Rightarrow> Some (Some t) | _ \<Rightarrow> None))"

fun parse_method :: "string \<Rightarrow> method_desc option" where
  "parse_method (c # cs) =
     (if c \<noteq> CHR ''('' then None
      else (case parse_args cs of
              None \<Rightarrow> None
            | Some (args, r) \<Rightarrow> map_option (\<lambda>ret. \<lparr>md_args = args, md_ret = ret\<rparr>) (parse_ret r)))"
| "parse_method [] = None"

section \<open>The C side: prototypes of the native functions\<close>

datatype c_type = C_JNIEnv_ptr | C_jobject | C_jboolean | C_jbyte | C_jchar | C_jshort
  | C_jint | C_jlong | C_jfloat | C_jdouble | C_void

datatype native_fn = NativeDoAccept | NativeDoClose

text \<open>Line 46: \<open>jobject doAccept(JNIEnv *e, jobject o, jint miu, jint rw, jint
  linearBufferLength)\<close>; line 140: \<open>jboolean doClose(JNIEnv *e, jobject o)\<close>.\<close>

fun native_proto :: "native_fn \<Rightarrow> c_type list \<times> c_type" where
  "native_proto NativeDoAccept = ([C_JNIEnv_ptr, C_jobject, C_jint, C_jint, C_jint], C_jobject)"
| "native_proto NativeDoClose = ([C_JNIEnv_ptr, C_jobject], C_jboolean)"

text \<open>The JNI mapping of Java types to C types.\<close>

fun c_of_jtype :: "jtype \<Rightarrow> c_type" where
  "c_of_jtype JBoolean = C_jboolean"
| "c_of_jtype JByte = C_jbyte"
| "c_of_jtype JChar = C_jchar"
| "c_of_jtype JShort = C_jshort"
| "c_of_jtype JInt = C_jint"
| "c_of_jtype JLong = C_jlong"
| "c_of_jtype JFloat = C_jfloat"
| "c_of_jtype JDouble = C_jdouble"
| "c_of_jtype (JClass c) = C_jobject"
| "c_of_jtype (JArray t) = C_jobject"

text \<open>An instance method with descriptor \<open>d\<close> may be implemented by a C function with
  prototype \<open>(params, ret)\<close>.\<close>

definition jni_matches :: "method_desc \<Rightarrow> c_type list \<times> c_type \<Rightarrow> bool" where
  "jni_matches d proto =
     (fst proto = C_JNIEnv_ptr # C_jobject # map c_of_jtype (md_args d) \<and>
      snd proto = (case md_ret d of None \<Rightarrow> C_void | Some t \<Rightarrow> c_of_jtype t))"

section \<open>The method table and its registration\<close>

text \<open>The binary names of the two Java classes of the file: the socket class that
  \<open>doAccept\<close> instantiates (line 107) and the class the methods belong to (line 180).\<close>

fun java_class_name :: "java_class \<Rightarrow> string" where
  "java_class_name NativeLlcpSocket = ''com/android/nfc/NativeLlcpSocket''"
| "java_class_name NativeLlcpServiceSocket = ''com/android/nfc/NativeLlcpServiceSocket''"

record JNINativeMethod =
  nm_name :: string
  nm_signature :: string
  nm_fnPtr :: native_fn

definition gMethods :: "JNINativeMethod list" where
  "gMethods =
     [\<lparr>nm_name = ''doAccept'', nm_signature = ''(III)Lcom/android/nfc/NativeLlcpSocket;'',
       nm_fnPtr = NativeDoAccept\<rparr>,
      \<lparr>nm_name = ''doClose'', nm_signature = ''()Z'', nm_fnPtr = NativeDoClose\<rparr>]"

text \<open>The native methods the Java class declares: \<open>accept(miu, rw,
  workingBufferLength)\<close> returning a connection object and \<open>close()\<close> returning a boolean.\<close>

fun java_natives :: "java_class \<Rightarrow> (string \<times> method_desc) list" where
  "java_natives NativeLlcpServiceSocket =
     [(''doAccept'', \<lparr>md_args = [JInt, JInt, JInt], md_ret = Some (JClass (java_class_name NativeLlcpSocket))\<rparr>),
      (''doClose'', \<lparr>md_args = [], md_ret = Some JBoolean\<rparr>)]"
| "java_natives NativeLlcpSocket = []"

type_synonym jni_registry = "java_class \<times> string \<times> string \<rightharpoonup> native_fn"

definition declares_native :: "java_class \<Rightarrow> JNINativeMethod \<Rightarrow> bool" where
  "declares_native cls m =
     list_ex (\<lambda>(n, d). n = nm_name m \<and> parse_method (nm_signature m) = Some d) (java_natives cls)"

text \<open>\<open>FindClass\<close> by binary name.\<close>

definition find_class :: "string \<Rightarrow> java_class option" where
  "find_class name = find (\<lambda>c. java_class_name c = name) [NativeLlcpSocket, NativeLlcpServiceSocket]"

definition jniRegisterNativeMethods ::
  "string \<Rightarrow> JNINativeMethod list \<Rightarrow> nat \<Rightarrow> jni_registry \<Rightarrow> int \<times> jni_registry" where
  "jniRegisterNativeMethods className ms n reg =
     (case find_class className of
        None \<Rightarrow> (-1, reg)
      | Some cls \<Rightarrow>
          if list_all (declares_native cls) (take n ms)
          then (0, foldl (\<lambda>r m. r((cls, nm_name m, nm_signature m) \<mapsto> nm_fnPtr m)) reg (take n ms))
          else (-1, reg))"

definition register_com_android_nfc_NativeLlcpServiceSocket :: "jni_registry \<Rightarrow> int \<times> jni_registry" where
  "register_com_android_nfc_NativeLlcpServiceSocket reg =
     jniRegisterNativeMethods ''com/android/nfc/NativeLlcpServiceSocket'' gMethods (length gMethods) reg"

section \<open>Properties of the method table\<close>

text \<open>C27: every entry of \<open>gMethods\<close> is well typed: its descriptor parses, agrees argument
  by argument and in its result with the C prototype of the function it names, and the
  Java class declares a native method of that name and descriptor.\<close>

theorem gMethods_well_typed:
  "list_all (\<lambda>m. case parse_method (nm_signature m) of
                  None \<Rightarrow> False
                | Some d \<Rightarrow> jni_matches d (native_proto (nm_fnPtr m)) \<and> declares_native NativeLlcpServiceSocket m)
     gMethods"
  by (simp add: gMethods_def jni_matches_def declares_native_def split_class_def parse_ret_def)

text \<open>C28: registration succeeds and binds \<open>doAccept\<close> and \<open>doClose\<close> of
  \<open>NativeLlcpServiceSocket\<close>, with their descriptors, to the two C functions of the
  file, and nothing else.\<close>

theorem register_binds_methods:
  "register_com_android_nfc_NativeLlcpServiceSocket reg =
     (0, reg((NativeLlcpServiceSocket, ''doAccept'', ''(III)Lcom/android/nfc/NativeLlcpSocket;'') \<mapsto> NativeDoAccept,
             (NativeLlcpServiceSocket, ''doClose'', ''()Z'') \<mapsto> NativeDoClose))"
  by (simp add: register_com_android_nfc_NativeLlcpServiceSocket_def jniRegisterNativeMethods_def gMethods_def
      find_class_def declares_native_def split_class_def parse_ret_def)
end
