(* ===== verification/Spec2Isabelle.thy ===== *)
theory Spec2Isabelle
  imports System Registration
begin

text \<open>
  \<^bold>\<open>Verification of the LLCP service socket bridge of the Android NFC service.\<close>

  The source is \<open>src/jni/com_android_nfc_NativeLlcpServiceSocket.cpp\<close>: the JNI methods of
  the Java class \<open>NativeLlcpServiceSocket\<close>. \<open>com_NativeLlcpServiceSocket_doAccept\<close>
  (lines 46--138) turns the asynchronous LLCP accept of the NFC library into a blocking
  call: it waits on the process-wide listen semaphore \<open>nfc_jni_llcp_listen_sem\<close> until the
  NFC manager reports an incoming connection in the global \<open>hIncommingLlcpSocket\<close>
  (lines 24--25), creates a completion context \<open>cb_data\<close> on its stack, allocates a
  working buffer, calls \<open>phLibNfc_Llcp_Accept\<close> under the reentrance lock with
  \<open>nfc_jni_llcp_accept_socket_callback\<close> (lines 31--40) and \<open>&cb_data\<close> as callback and
  context, waits on the context's semaphore, and on success builds a Java
  \<open>NativeLlcpSocket\<close> holding the handle, MIU and receive window. The MIU and receive
  window reach the transport through the library's socket options, whose fields are
  \<open>uint16_t\<close> and \<open>uint8_t\<close> (lines 70--71).
  \<open>com_NativeLlcpServiceSocket_doClose\<close> (lines 140--162) closes the socket whose handle
  the Java object holds. Lines 165--183 register the two methods with the VM.

  \<^bold>\<open>Theories.\<close>
  \<^item> \<open>Prelude\<close>: the C and JNI integer types as words (\<open>jint\<close>, \<open>size_t\<close>,
    \<open>phLibNfc_Handle\<close> 32 bits, \<open>NFCSTATUS\<close> 16 bits), the status codes, the
    \<open>nfc_simps\<close> collection, and lemmas on lists, association lists and multisets.
  \<^item> \<open>Semaphore\<close>: the POSIX \<open>sem_t\<close> (count and liveness); \<open>sem_wait\<close> has three
    outcomes: acquire, interrupted (\<open>EINTR\<close>, only while the count is zero) or block.
  \<^item> \<open>CallbackData\<close>: \<open>struct nfc_jni_callback_data\<close>, \<open>nfc_cb_data_init\<close>/\<open>deinit\<close>, and
    the accept callback as its two statements in source order (store status, post).
  \<^item> \<open>Transport\<close>: the LLCP library as the bridge uses it: the queue of pending accept
    requests, the open sockets, their buffers; accept, completion, arrival and close.
  \<^item> \<open>ServiceSocket\<close>: the process state of the file (listen semaphore, handle slot,
    reentrance lock, stack frames, \<open>malloc\<close> heap, transport, Java heap) as the record
    \<open>nfc_state\<close>, \<open>doAccept\<close> as a thread whose program counter \<open>accept_pc\<close> rests at its
    two blocking \<open>sem_wait\<close> calls (lines 58 and 95), and \<open>doClose\<close>. The code between
    two blocking points runs as one atomic step: \<open>doAccept_wait_listen\<close> with
    \<open>doAccept_setup\<close> (lines 57--92), \<open>doAccept_wait_callback\<close> with \<open>doAccept_create\<close>
    and \<open>clean_and_return\<close> (lines 94--137). This is sound for the properties proved:
    the only shared data these stretches touch outside the reentrance lock are the
    handle slot and the frame, and the interleavings that matter for them are the
    ones at the blocking points, where every other event may come in between (an
    arrival between line 58 and the read of the handle at line 80 is the one race
    this leaves out; it is of the same kind as the one shown at line 123). Two
    ghost counters are kept in the state: \<open>leaked_sems\<close> (frames popped with a live
    semaphore) and \<open>listen_passed\<close>, bumped by \<open>doAccept_setup\<close> on entry to line 63,
    so it counts the calls that went on from the gate.
  \<^item> \<open>System\<close>: the whole process as an interleaving of events (\<open>sys_event\<close>): a thread
    enters or resumes \<open>doAccept\<close>, calls \<open>doClose\<close>, a connection arrives, the transport
    completes a request, a transport thread runs one callback statement, the transport
    gives up a request with an error. \<open>reach ok\<close> is the set of reachable states under
    the events \<open>ok\<close> allows: all of them, or those of nominal runs (\<open>nominal\<close>: no
    interrupted wait and no transport error). \<open>Close\<close> reaches \<open>doClose\<close> only for a
    \<open>NativeLlcpServiceSocket\<close> object, the class the method is registered on.
  \<^item> \<open>Registration\<close>: the JNI method table \<open>gMethods\<close> and
    \<open>register_com_android_nfc_NativeLlcpServiceSocket\<close> (lines 165--183), the C prototypes
    of the two natives, a parser of JVM descriptors, and the
    registration helper \<open>jniRegisterNativeMethods\<close> with \<open>FindClass\<close>.
  \<^item> this theory: the contract of the specification for one accept call, its
    refinement by the code for one call and for a sequence of serial calls, and what
    the code leaves allocated.

  \<^bold>\<open>Results.\<close> Sequential behaviour of \<open>doAccept\<close> on every branch: success, the
  request it registers (with MIU and RW cut to the option fields), each error exit,
  the rejected request that skips the cleanup, the exception path that returns an unset
  object (\<open>ServiceSocket\<close>). \<open>doClose\<close> and its second call. Within the LLCP limits on
  MIU (2175) and receive window (15) no step of the working-buffer size overflows.
  \<open>doAccept\<close> has no loop: each resume that does not block lowers \<open>accept_rank\<close>, so a
  call resumes at most twice, and a thread blocks exactly when the semaphore it waits
  on is empty and no signal interrupts it.

  In \<open>System\<close>, for every interleaving: the units of the listen gate plus the calls
  that went on past it equal the arrivals, and with two calls waiting one post lets
  the first to resume issue its request and holds the other; the reentrance lock is
  free in every reachable state; no \<open>malloc\<close> block is ever freed. In nominal runs the
  handshake invariant \<open>handshake_inv\<close> holds: a waiter at line 95 has exactly one
  signal (unit, pending request or callback), reads the status delivered for its own
  context, and no callback writes into a popped frame; the transport alone can wake a
  waiter, whose next resume returns. A stranded waiter (\<open>stuck\<close>) stays blocked under
  every event but an interrupt. The defects, each for every state and interleaving
  where it applies: a call returns the handle of the latest arrival, not the one its
  request named; after two arrivals in a row the first connection is never requested;
  an interrupted wait at line 95 leaves a request whose callback writes into the
  popped frame.

  Here: with a listen unit available, a free frame and no other accept outstanding
  (the single-outstanding-accept assumption of the specification), the code returns
  the connection the specification prescribes, or NULL for every failure the
  specification lists, provided \<open>malloc\<close> succeeds and the JNI calls raise no
  exception; on its failure exits it leaves the working buffer allocated, and when
  \<open>malloc\<close> fails it hands a NULL buffer to the transport and returns a connection.
  Serial accept calls (\<open>accept_serial\<close>) each return what the specification
  prescribes, each call re-establishing that no accept is outstanding, and each call
  past the semaphore creation leaves one more live \<open>malloc\<close> block. In
  \<open>Registration\<close>: every entry of the method table is well typed against its C
  prototype and the Java class, and registration binds exactly the two methods.

  \<^bold>\<open>Bounds.\<close> No fuel: every operation is a total function; the loops of the
  program are the two blocking waits, modelled as a step that is \<open>None\<close> while the
  thread blocks. Witnesses use handles 3, 7, 9, MIU 128,
  RW 1, frames and objects at the first addresses.

  \<^bold>\<open>Not modelled.\<close> Logging (\<open>TRACE\<close>, \<open>LOGE\<close>, \<open>LOGD\<close>), which has no effect on
  the state and whose text no property depends on; the timespec \<open>ts\<close>, never used; failures of \<open>GetFieldID\<close> and
  \<open>SetIntField\<close>, which the code does not check. Outside the source tree and modelled
  from the specification: the NFC library (accept, completion, error, close), the NFC
  manager's listen callback, \<open>nfc_cb_data_init\<close>/\<open>deinit\<close>, \<open>nfc_jni_cache_object\<close>, the
  JNI field setters, the error callback \<open>nfc_jni_llcp_transport_socket_err_callback\<close>
  (given no effect on the completion context, which the specification binds to the
  accept callback alone), \<open>jniRegisterNativeMethods\<close>, \<open>FindClass\<close> and the native
  declarations of the Java class, the layout of the library's socket options
  (\<open>uint16_t miu\<close>, \<open>uint8_t rw\<close>). The JVM's reading of descriptors is modelled by the
  parser of \<open>Registration\<close>.
\<close>

section \<open>The contract of one accept call\<close>

text \<open>The failures the specification names (section 7) and the result of \<open>accept\<close>.\<close>

datatype accept_error = NoIncomingConnection | InitError | AllocationError
  | AcceptRejected NFCSTATUS | InterruptedWait | AcceptFailed NFCSTATUS

datatype accept_result = Connection phLibNfc_Handle jint jint | Failure accept_error

text \<open>Steps 1--7 of \<open>accept\<close> in section 4.2 of the specification, over the outcomes of
  its decision points: the gate wait, the context initialisation, the allocation, the
  immediate reply of the transport, an interrupt of the completion wait, and the
  completion status.\<close>

definition accept_spec ::
  "bool \<Rightarrow> bool \<Rightarrow> bool \<Rightarrow> NFCSTATUS \<Rightarrow> bool \<Rightarrow> NFCSTATUS \<Rightarrow> phLibNfc_Handle \<Rightarrow> jint \<Rightarrow> jint \<Rightarrow> accept_result" where
  "accept_spec gate init alloc reply interrupted st h miu rw =
     (if \<not> gate then Failure NoIncomingConnection
      else if \<not> init then Failure InitError
      else if \<not> alloc then Failure AllocationError
      else if reply \<noteq> NFCSTATUS_PENDING then Failure (AcceptRejected reply)
      else if interrupted then Failure InterruptedWait
      else if st \<noteq> NFCSTATUS_SUCCESS then Failure (AcceptFailed st)
      else Connection h miu rw)"

text \<open>What the Java caller sees: the three fields of the returned object, or nothing for
  NULL. The specification surfaces every failure as the same failure indicator.\<close>

fun observe_spec :: "accept_result \<Rightarrow> (jint \<times> jint \<times> jint) option" where
  "observe_spec (Connection h miu rw) = Some (ucast h, miu, rw)"
| "observe_spec (Failure e) = None"

definition observe_code :: "tid \<Rightarrow> sys_state \<Rightarrow> (jint \<times> jint \<times> jint) option" where
  "observe_code t s =
     (case threads s t of
        Returned (Some jo) _ \<Rightarrow> map_option (\<lambda>x. (mHandle x, mLocalMiu x, mLocalRw x)) (jheap s jo)
      | _ \<Rightarrow> None)"

text \<open>One accept call of thread \<open>t\<close> with no other accept outstanding: it enters and
  passes the gate (environment \<open>ge\<close>, which also decides the setup); if it then waits
  at line 95, either the wait is interrupted before the transport answers, or the
  transport completes the request with status \<open>st\<close>, the callback runs, and the thread
  resumes (environment \<open>we\<close>).\<close>

definition accept_seq ::
  "tid \<Rightarrow> ptr \<Rightarrow> jint \<Rightarrow> jint \<Rightarrow> jint \<Rightarrow> accept_env \<Rightarrow> NFCSTATUS \<Rightarrow> accept_env \<Rightarrow> sys_state \<Rightarrow> sys_state option" where
  "accept_seq t p miu rw lbl ge st we s =
     (case sys_run [Enter t p miu rw lbl, Resume t ge] s of
        None \<Rightarrow> None
      | Some s1 \<Rightarrow>
          if accept_idle (threads s1 t) then Some s1
          else if env_intr we then sys_run [Resume t we] s1
          else sys_run [Complete 0 st, RunCallback 0, RunCallback 0, Resume t we] s1)"

text \<open>Serial use, the specification's assumption: one accept call after another on the
  same thread and stack slot, each after its own arrival. A call's parameters: the
  incoming handle, the arguments, the environment of the gate and setup, the
  completion status, the environment of the callback wait.\<close>

record accept_call =
  ac_handle :: phLibNfc_Handle
  ac_miu :: jint
  ac_rw :: jint
  ac_lbl :: jint
  ac_gate_env :: accept_env
  ac_status :: NFCSTATUS
  ac_wait_env :: accept_env

text \<open>The calls in order, with what each returned to Java.\<close>

fun accept_serial :: "tid \<Rightarrow> ptr \<Rightarrow> accept_call list \<Rightarrow> sys_state \<Rightarrow> (sys_state \<times> (jint \<times> jint \<times> jint) option list) option" where
  "accept_serial t p [] s = Some (s, [])"
| "accept_serial t p (c # cs) s =
     (case accept_seq t p (ac_miu c) (ac_rw c) (ac_lbl c) (ac_gate_env c) (ac_status c) (ac_wait_env c)
             (listen_notify (ac_handle c) s) of
        None \<Rightarrow> None
      | Some s1 \<Rightarrow> map_option (\<lambda>(s2, outs). (s2, observe_code t s1 # outs)) (accept_serial t p cs s1))"

text \<open>What the specification's \<open>accept\<close> returns for a call.\<close>

definition call_spec :: "accept_call \<Rightarrow> (jint \<times> jint \<times> jint) option" where
  "call_spec c = observe_spec (accept_spec True (env_sem_init (ac_gate_env c)) True (env_reply (ac_gate_env c)) False
                   (ac_status c) (ac_handle c) (ac_miu c) (ac_rw c))"

text \<open>A call in which \<open>malloc\<close> succeeds, the JNI calls raise no exception and the
  completion wait is not interrupted.\<close>

definition call_nominal :: "accept_call \<Rightarrow> bool" where
  "call_nominal c \<longleftrightarrow> env_malloc (ac_gate_env c) \<and> env_cache_ok (ac_wait_env c) \<and>
     \<not> env_exception (ac_wait_env c) \<and> \<not> env_intr (ac_wait_env c)"

text \<open>No accept outstanding on thread \<open>t\<close> and slot \<open>p\<close>: the precondition of the
  refinement, which a nominal call re-establishes.\<close>

definition serial_ready :: "tid \<Rightarrow> ptr \<Rightarrow> sys_state \<Rightarrow> bool" where
  "serial_ready t p s \<longleftrightarrow>
     accept_idle (threads s t) \<and> frames s p = None \<and> llcp_pending (llcp s) = [] \<and> callbacks s = []"

text \<open>Three serial calls used by the witnesses: one accepted, one refused by the
  transport, one completed with a failure status.\<close>

definition sample_calls :: "accept_call list" where
  "sample_calls =
     [\<lparr>ac_handle = 7, ac_miu = 128, ac_rw = 1, ac_lbl = 0, ac_gate_env = env_nominal, ac_status = 0, ac_wait_env = env_nominal\<rparr>,
      \<lparr>ac_handle = 9, ac_miu = 128, ac_rw = 1, ac_lbl = 0, ac_gate_env = env_nominal\<lparr>env_reply := NFCSTATUS_FAILED\<rparr>,
        ac_status = 0, ac_wait_env = env_nominal\<rparr>,
      \<lparr>ac_handle = 11, ac_miu = 256, ac_rw = 2, ac_lbl = 0, ac_gate_env = env_nominal, ac_status = NFCSTATUS_FAILED,
        ac_wait_env = env_nominal\<rparr>]"

section \<open>Refinement\<close>

text \<open>C8: with no other accept outstanding, a free frame, and a listen unit available or
  an interrupt of the gate wait, an accept call of the code returns, and what the
  caller sees is what the specification's \<open>accept\<close> returns for the same decisions:
  the connection to the incoming handle with the caller's MIU and RW, or NULL for
  each failure, as long as \<open>malloc\<close> succeeds and the JNI calls raise no exception.\<close>

theorem accept_refines_spec:
  assumes "accept_idle (threads s t)" "frames s p = None" "llcp_pending (llcp s) = []" "callbacks s = []"
    and "0 < sem_count (listen_sem s) \<or> env_intr ge"
    and "env_malloc ge" "env_cache_ok we" "\<not> env_exception we"
  shows "\<exists>S. accept_seq t p miu rw lbl ge st we s = Some S \<and> accept_idle (threads S t) \<and>
     observe_code t S = observe_spec (accept_spec (0 < sem_count (listen_sem s)) (env_sem_init ge) (env_malloc ge)
        (env_reply ge) (env_intr we) st (hIncommingLlcpSocket s) miu rw)"
  using assms
  by (auto simp: accept_seq_def accept_spec_def observe_code_def nfc_simps Let_def split: if_splits)

theorem accept_refines_spec_witness:
  "\<exists>S. accept_seq 0 0 128 1 0 env_nominal 0 env_nominal (listen_notify 7 (sys_start {} [])) = Some S \<and>
     accept_idle (threads S 0) \<and> observe_code 0 S = Some (7, 128, 1)"
  using accept_refines_spec [where s = "listen_notify 7 (sys_start {} [])" and t = 0 and p = 0
      and ge = env_nominal and we = env_nominal and miu = 128 and rw = 1 and lbl = 0 and st = 0]
  by (simp add: nfc_simps sys_start_def accept_spec_def)

section \<open>Serial accept calls\<close>

text \<open>What a call leaves allocated: a leaked semaphore when the request is refused,
  a working buffer whenever the semaphore could be created.\<close>

lemma accept_seq_resources:
  assumes "serial_ready t p s" "env_malloc ge" "env_cache_ok we" "\<not> env_exception we" "\<not> env_intr we"
    and "accept_seq t p miu rw lbl ge st we (listen_notify h s) = Some S"
  shows "heap S = (if env_sem_init ge then (heap s)(heap_top s \<mapsto> working_buffer_length miu rw lbl) else heap s) \<and>
         heap_top S = heap_top s + (if env_sem_init ge then 1 else 0)"
  using assms
  by (auto simp: serial_ready_def accept_seq_def nfc_simps Let_def split: if_splits)

text \<open>A nominal call re-establishes the precondition of the next one: the frame is
  popped, the request completed or never issued, the callback run to its end.\<close>

lemma accept_seq_ready:
  assumes "serial_ready t p s" "env_malloc ge" "env_cache_ok we" "\<not> env_exception we" "\<not> env_intr we"
  shows "\<exists>S. accept_seq t p miu rw lbl ge st we (listen_notify h s) = Some S \<and> serial_ready t p S \<and>
     observe_code t S = observe_spec (accept_spec True (env_sem_init ge) True (env_reply ge) False st h miu rw)"
  using assms
  by (auto simp: serial_ready_def accept_seq_def accept_spec_def observe_code_def nfc_simps Let_def split: if_splits)

text \<open>C9: a sequence of accept calls, one after the other on the same thread and stack
  slot, each after its own arrival, returns to Java what the specification's
  \<open>accept\<close> returns for each call, as long as in each call \<open>malloc\<close> succeeds, the
  JNI calls raise no exception and the completion wait is not interrupted; after the
  sequence no accept is outstanding.\<close>

theorem accept_serial_refines_spec:
  "serial_ready t p s \<Longrightarrow> list_all call_nominal cs \<Longrightarrow>
   \<exists>S. accept_serial t p cs s = Some (S, map call_spec cs) \<and> serial_ready t p S"
proof (induction cs arbitrary: s)
  case (Cons c cs)
  from Cons.prems obtain S1 where a: "accept_seq t p (ac_miu c) (ac_rw c) (ac_lbl c) (ac_gate_env c) (ac_status c)
      (ac_wait_env c) (listen_notify (ac_handle c) s) = Some S1" and r: "serial_ready t p S1"
    and o: "observe_code t S1 = call_spec c"
    using accept_seq_ready [of t p s "ac_gate_env c" "ac_wait_env c" "ac_miu c" "ac_rw c" "ac_lbl c" "ac_status c" "ac_handle c"]
    by (auto simp: call_nominal_def call_spec_def)
  from Cons.IH [OF r] Cons.prems(2) obtain S where "accept_serial t p cs S1 = Some (S, map call_spec cs)"
    "serial_ready t p S" by auto
  with a o show ?case by simp
qed simp

theorem accept_serial_refines_spec_witness:
  "\<exists>S. accept_serial 0 0 sample_calls (sys_start {} []) = Some (S, [Some (7, 128, 1), None, None])"
proof -
  have r: "serial_ready 0 0 (sys_start {} [])" by (simp add: serial_ready_def sys_start_def)
  have n: "list_all call_nominal sample_calls" by (simp add: sample_calls_def call_nominal_def env_nominal_def)
  have m: "map call_spec sample_calls = [Some (7, 128, 1), None, None]"
    by (simp add: sample_calls_def call_spec_def accept_spec_def env_nominal_def NFCSTATUS_FAILED_def
        NFCSTATUS_PENDING_def NFCSTATUS_SUCCESS_def)
  from accept_serial_refines_spec [OF r n] m show ?thesis by auto
qed

text \<open>C10: in serial use each call that gets past the semaphore creation leaves one
  more live \<open>malloc\<close> block behind, whether it succeeds, is refused or fails: the
  blocks allocated during the sequence are exactly the new addresses, and every block
  live before is still live. The buffer of a successful call goes to the connection,
  and the buffer of a failed call is never freed.\<close>

theorem accept_serial_resources:
  "serial_ready t p s \<Longrightarrow> list_all call_nominal cs \<Longrightarrow> accept_serial t p cs s = Some (S, outs) \<Longrightarrow>
   heap_top S = heap_top s + length (filter (\<lambda>c. env_sem_init (ac_gate_env c)) cs) \<and>
   dom (heap S) = dom (heap s) \<union> {heap_top s..<heap_top S}"
proof (induction cs arbitrary: s outs)
  case (Cons c cs)
  from Cons.prems(3) obtain S1 outs' where a: "accept_seq t p (ac_miu c) (ac_rw c) (ac_lbl c) (ac_gate_env c) (ac_status c)
      (ac_wait_env c) (listen_notify (ac_handle c) s) = Some S1" and r: "accept_serial t p cs S1 = Some (S, outs')"
    by (auto split: option.splits)
  from Cons.prems(2) have n: "call_nominal c" "list_all call_nominal cs" by simp_all
  from n(1) accept_seq_ready [OF Cons.prems(1), of "ac_gate_env c" "ac_wait_env c" "ac_miu c" "ac_rw c" "ac_lbl c"
      "ac_status c" "ac_handle c"] a have ready: "serial_ready t p S1"
    by (auto simp: call_nominal_def)
  from n(1) accept_seq_resources [OF Cons.prems(1) _ _ _ _ a] have
    "dom (heap S1) = dom (heap s) \<union> {heap_top s..<heap_top S1} \<and>
     heap_top S1 = heap_top s + (if env_sem_init (ac_gate_env c) then 1 else 0)"
    by (auto simp: call_nominal_def)
  with Cons.IH [OF ready n(2) r] show ?case by (auto simp: ivl_disj_un)
qed simp

theorem accept_serial_resources_witness:
  "\<exists>S outs. accept_serial 0 0 sample_calls (sys_start {} []) = Some (S, outs) \<and> heap_top S = 3 \<and> dom (heap S) = {0..<3}"
proof -
  have r: "serial_ready 0 0 (sys_start {} [])" by (simp add: serial_ready_def sys_start_def)
  have n: "list_all call_nominal sample_calls" by (simp add: sample_calls_def call_nominal_def env_nominal_def)
  obtain S outs where a: "accept_serial 0 0 sample_calls (sys_start {} []) = Some (S, outs)"
    by (simp add: sample_calls_def accept_seq_def nfc_simps sys_start_def Let_def)
  have "length (filter (\<lambda>c. env_sem_init (ac_gate_env c)) sample_calls) = 3"
    by (simp add: sample_calls_def env_nominal_def)
  with accept_serial_resources [OF r n a] a show ?thesis by (auto simp: sys_start_def)
qed

section \<open>Resources on the failure exits\<close>

text \<open>C19: the specification requires that no working buffer remain allocated after a
  failed accept. The code leaves it allocated on every failure after the allocation:
  a rejected request, an interrupted completion wait and a failed completion.\<close>

theorem accept_failure_keeps_buffer:
  assumes "accept_idle (threads s t)" "frames s p = None" "llcp_pending (llcp s) = []" "callbacks s = []"
    and "0 < sem_count (listen_sem s)" "env_sem_init ge" "env_malloc ge"
    and "env_reply ge \<noteq> NFCSTATUS_PENDING \<or> env_intr we \<or> st \<noteq> NFCSTATUS_SUCCESS"
  shows "\<exists>S. accept_seq t p miu rw lbl ge st we s = Some S \<and> observe_code t S = None \<and>
     heap S (heap_top s) = Some (working_buffer_length miu rw lbl)"
  using assms
  by (auto simp: accept_seq_def observe_code_def nfc_simps Let_def split: if_splits)

theorem accept_failure_keeps_buffer_witness:
  "\<exists>S. accept_seq 0 0 128 1 0 env_nominal 255 env_nominal (listen_notify 7 (sys_start {} [])) = Some S \<and>
     observe_code 0 S = None \<and> heap S 0 = Some 256"
  using accept_failure_keeps_buffer [where s = "listen_notify 7 (sys_start {} [])" and t = 0 and p = 0
      and ge = env_nominal and we = env_nominal and miu = 128 and rw = 1 and lbl = 0 and st = 255]
  by (simp add: nfc_simps sys_start_def)

text \<open>C20: \<open>malloc\<close> is not checked at line 74. When it fails, the specification's accept
  fails with \<open>AllocationError\<close>; the code instead hands a NULL working buffer to the
  transport, which connects the socket with it, and returns a connection for the
  incoming handle with the caller's MIU and RW.\<close>

theorem accept_malloc_failure_diverges:
  assumes "accept_idle (threads s t)" "frames s p = None" "llcp_pending (llcp s) = []" "callbacks s = []"
    and "0 < sem_count (listen_sem s)" "env_sem_init ge" "\<not> env_malloc ge" "env_reply ge = NFCSTATUS_PENDING"
    and "\<not> env_intr we" "env_cache_ok we" "\<not> env_exception we"
  shows "\<exists>S. accept_seq t p miu rw lbl ge NFCSTATUS_SUCCESS we s = Some S \<and>
     observe_code t S = Some (ucast (hIncommingLlcpSocket s), miu, rw) \<and>
     llcp_conn_buf (llcp S) (hIncommingLlcpSocket s) = Some None \<and>
     accept_spec True True False NFCSTATUS_PENDING False NFCSTATUS_SUCCESS (hIncommingLlcpSocket s) miu rw =
       Failure AllocationError"
  using assms
  by (auto simp: accept_seq_def observe_code_def accept_spec_def nfc_simps Let_def)

theorem accept_malloc_failure_diverges_witness:
  "\<exists>S. accept_seq 0 0 128 1 0 (env_nominal\<lparr>env_malloc := False\<rparr>) 0 env_nominal (listen_notify 7 (sys_start {} [])) = Some S \<and>
     observe_code 0 S = Some (7, 128, 1) \<and> llcp_conn_buf (llcp S) 7 = Some None \<and>
     accept_spec True True False NFCSTATUS_PENDING False 0 7 128 1 = Failure AllocationError"
  using accept_malloc_failure_diverges [where s = "listen_notify 7 (sys_start {} [])" and t = 0 and p = 0
      and ge = "env_nominal\<lparr>env_malloc := False\<rparr>" and we = env_nominal and miu = 128 and rw = 1 and lbl = 0]
  by (simp add: nfc_simps sys_start_def)

end
